(* ===== verification/Prelude.thy ===== *)
theory Prelude
  imports Main "HOL-Library.Word" "HOL-Library.Sublist"
begin

text \<open>
  Shared vocabulary of the development: the types of the model (a Rust \<open>&str\<close> is its UTF-8
  byte sequence, an Isabelle \<open>string\<close> of 8-bit characters; \<open>u8\<close>, \<open>u16\<close>, \<open>u32\<close>, \<open>u64\<close>
  are words of that width), the \<open>Result\<close> type and its \<open>?\<close> operator, the routines of the Rust
  standard library the sources call on strings, slices and integers, and the lemmas about
  them that the component theories share. The collection \<open>str_simps\<close> gathers the rewrite
  rules for the string routines, \<open>result_simps\<close> those for \<open>Result\<close>.
\<close>

named_theorems str_simps \<open>characterisations of the string and slice routines\<close>
named_theorems result_simps \<open>rewrite rules for results\<close>

section \<open>Types\<close>

type_synonym u8 = "8 word"
type_synonym u16 = "16 word"
type_synonym u32 = "32 word"
type_synonym u64 = "64 word"
type_synonym byte = "8 word"
type_synonym bytes = "byte list"

text \<open>\<open>Result<T, E>\<close> is \<open>'e + 'a\<close>: \<open>Inl\<close> is \<open>Err\<close>, \<open>Inr\<close> is \<open>Ok\<close>.\<close>

type_synonym ('e, 'a) result = "'e + 'a"

abbreviation Err :: "'e \<Rightarrow> ('e, 'a) result" where "Err \<equiv> Inl"
abbreviation Ok :: "'a \<Rightarrow> ('e, 'a) result" where "Ok \<equiv> Inr"

section \<open>Results\<close>

text \<open>The \<open>?\<close> operator, \<open>map_err\<close>, \<open>ok_or_else\<close>, \<open>ok()\<close> and \<open>is_ok()\<close>.\<close>

definition bindR :: "('e, 'a) result \<Rightarrow> ('a \<Rightarrow> ('e, 'b) result) \<Rightarrow> ('e, 'b) result" where
  "bindR r k = (case r of Inl e \<Rightarrow> Inl e | Inr x \<Rightarrow> k x)"

definition map_err :: "('e \<Rightarrow> 'f) \<Rightarrow> ('e, 'a) result \<Rightarrow> ('f, 'a) result" where
  "map_err f r = (case r of Inl e \<Rightarrow> Inl (f e) | Inr x \<Rightarrow> Inr x)"

definition ok_or :: "'a option \<Rightarrow> 'e \<Rightarrow> ('e, 'a) result" where
  "ok_or m e = (case m of None \<Rightarrow> Inl e | Some x \<Rightarrow> Inr x)"

definition ok :: "('e, 'a) result \<Rightarrow> 'a option" where
  "ok r = (case r of Inl _ \<Rightarrow> None | Inr x \<Rightarrow> Some x)"

definition is_ok :: "('e, 'a) result \<Rightarrow> bool" where
  "is_ok r = (case r of Inl _ \<Rightarrow> False | Inr _ \<Rightarrow> True)"

text \<open>\<open>iter().map(f).collect::<Result<Vec<_>, _>>()\<close>: the first error wins.\<close>

fun collectR :: "('a \<Rightarrow> ('e, 'b) result) \<Rightarrow> 'a list \<Rightarrow> ('e, 'b list) result" where
  "collectR f [] = Inr []"
| "collectR f (x # xs) = bindR (f x) (\<lambda>y. bindR (collectR f xs) (\<lambda>ys. Inr (y # ys)))"

lemma bindR_simps [simp, result_simps]:
  "bindR (Inl e) k = Inl e" "bindR (Inr x) k = k x"
  by (simp_all add: bindR_def)

lemma map_err_simps [simp, result_simps]:
  "map_err f (Inl e) = Inl (f e)" "map_err f (Inr x) = Inr x"
  by (simp_all add: map_err_def)

lemma ok_or_simps [simp, result_simps]:
  "ok_or None e = Inl e" "ok_or (Some x) e = Inr x"
  by (simp_all add: ok_or_def)

lemma ok_simps [simp, result_simps]:
  "ok (Inl e) = None" "ok (Inr x) = Some x"
  by (simp_all add: ok_def)

lemma is_ok_simps [simp, result_simps]:
  "is_ok (Inl e) = False" "is_ok (Inr x) = True"
  by (simp_all add: is_ok_def)

lemma bindR_eq_Inr [simp]: "bindR r k = Inr y \<longleftrightarrow> (\<exists>x. r = Inr x \<and> k x = Inr y)"
  by (cases r) auto

lemma bindR_eq_Inl: "bindR r k = Inl e \<longleftrightarrow> r = Inl e \<or> (\<exists>x. r = Inr x \<and> k x = Inl e)"
  by (cases r) auto

lemma map_err_eq_Inr [simp]: "map_err f r = Inr x \<longleftrightarrow> r = Inr x"
  by (cases r) auto

lemma map_err_eq_Inl: "map_err f r = Inl e \<longleftrightarrow> (\<exists>e'. r = Inl e' \<and> e = f e')"
  by (cases r) auto

lemma ok_or_eq_Inr [simp]: "ok_or m e = Inr x \<longleftrightarrow> m = Some x"
  by (cases m) auto

lemma ok_eq_Some [simp]: "ok r = Some x \<longleftrightarrow> r = Inr x"
  by (cases r) auto

lemma is_ok_iff: "is_ok r \<longleftrightarrow> (\<exists>x. r = Inr x)"
  by (cases r) auto

lemma collectR_Inr_length: "collectR f xs = Inr ys \<Longrightarrow> length ys = length xs"
  by (induction xs arbitrary: ys) auto

section \<open>Bytes of a string\<close>

definition as_bytes :: "string \<Rightarrow> bytes" where
  "as_bytes s = map of_char s"

lemma unat_of_char: "unat (of_char c :: byte) = of_char c"
proof -
  have "(of_char c :: byte) = of_nat (of_char c :: nat)"
    by (simp only: of_nat_of_char)
  moreover have "(of_char c :: nat) < 256"
    using of_char_mod_256 [of c, where 'a = nat] by (metis mod_less_divisor zero_less_numeral)
  ultimately show ?thesis
    by (simp add: unsigned_of_nat take_bit_eq_mod)
qed

lemma of_char_u8_inj: "(of_char c :: byte) = of_char d \<Longrightarrow> c = d"
proof -
  assume "(of_char c :: byte) = of_char d"
  then have "(of_char c :: nat) = of_char d"
    using unat_of_char by metis
  then show "c = d" by simp
qed

text \<open>The characters of a byte sequence.\<close>

definition chars_of :: "bytes \<Rightarrow> string" where
  "chars_of b = map (\<lambda>x. char_of (unat x)) b"

lemma chars_of_as_bytes [simp]: "chars_of (as_bytes s) = s"
  by (induction s) (simp_all add: chars_of_def as_bytes_def unat_of_char)

lemma of_char_char_of_unat: "(of_char (char_of (unat b)) :: byte) = b"
proof -
  have "unat b < 256" using unsigned_less [of b] by simp
  then have "(of_char (char_of (unat b)) :: nat) = unat b" by (simp add: of_char_of)
  then have "unat (of_char (char_of (unat b)) :: byte) = unat b" by (simp add: unat_of_char)
  then show ?thesis by (rule unsigned_word_eqI)
qed

lemma as_bytes_chars_of [simp]: "as_bytes (chars_of b) = b"
  by (induction b) (simp_all add: chars_of_def as_bytes_def of_char_char_of_unat)

lemma as_bytes_inj [simp]: "as_bytes s = as_bytes t \<longleftrightarrow> s = t"
  unfolding as_bytes_def by (rule inj_map_eq_map) (auto intro: injI of_char_u8_inj)

lemma as_bytes_append [str_simps]: "as_bytes (s @ t) = as_bytes s @ as_bytes t"
  by (simp add: as_bytes_def)

lemma length_as_bytes [simp]: "length (as_bytes s) = length s"
  by (simp add: as_bytes_def)

section \<open>Prefixes, suffixes, searching\<close>

text \<open>\<open>str::strip_prefix\<close>, \<open>starts_with\<close>, \<open>ends_with\<close> and \<open>[T]::starts_with\<close>.\<close>

fun strip_prefix :: "'a list \<Rightarrow> 'a list \<Rightarrow> 'a list option" where
  "strip_prefix [] s = Some s"
| "strip_prefix (p # ps) [] = None"
| "strip_prefix (p # ps) (c # s) = (if p = c then strip_prefix ps s else None)"

definition starts_with :: "'a list \<Rightarrow> 'a list \<Rightarrow> bool" where
  "starts_with p s \<longleftrightarrow> strip_prefix p s \<noteq> None"

definition ends_with :: "'a list \<Rightarrow> 'a list \<Rightarrow> bool" where
  "ends_with p s \<longleftrightarrow> strip_prefix (rev p) (rev s) \<noteq> None"

lemma strip_prefix_eq_Some [simp, str_simps]: "strip_prefix p s = Some r \<longleftrightarrow> s = p @ r"
  by (induction p s rule: strip_prefix.induct) auto

lemma strip_prefix_append [simp]: "strip_prefix p (p @ r) = Some r"
  by simp

lemma strip_prefix_eq_None: "strip_prefix p s = None \<longleftrightarrow> (\<forall>r. s \<noteq> p @ r)"
  by (metis not_None_eq strip_prefix_eq_Some)

lemma starts_with_iff [str_simps]: "starts_with p s \<longleftrightarrow> (\<exists>r. s = p @ r)"
  by (auto simp: starts_with_def)

lemma ends_with_iff [str_simps]: "ends_with p s \<longleftrightarrow> (\<exists>r. s = r @ p)"
proof -
  have "(\<exists>y. rev s = rev p @ y) \<longleftrightarrow> (\<exists>r. s = r @ p)"
    by (metis rev_append rev_rev_ident)
  then show ?thesis by (simp add: ends_with_def)
qed

lemma starts_with_Nil [simp]: "starts_with [] s"
  by (simp add: starts_with_def)

text \<open>\<open>str::find(char)\<close>, \<open>str::rfind(char)\<close> and \<open>str::find(&str)\<close>.\<close>

fun find_char :: "'a \<Rightarrow> 'a list \<Rightarrow> nat option" where
  "find_char c [] = None"
| "find_char c (x # xs) = (if x = c then Some 0 else map_option Suc (find_char c xs))"

definition rfind_char :: "'a \<Rightarrow> 'a list \<Rightarrow> nat option" where
  "rfind_char c s = map_option (\<lambda>i. length s - 1 - i) (find_char c (rev s))"

fun find_str :: "'a list \<Rightarrow> 'a list \<Rightarrow> nat option" where
  "find_str p [] = (if p = [] then Some 0 else None)"
| "find_str p (x # xs) = (if starts_with p (x # xs) then Some 0 else map_option Suc (find_str p xs))"

lemma find_char_eq_None [simp]: "find_char c s = None \<longleftrightarrow> c \<notin> set s"
  by (induction s) auto

lemma find_char_eq_Some:
  "find_char c s = Some i \<longleftrightarrow> i < length s \<and> s ! i = c \<and> c \<notin> set (take i s)"
proof (induction s arbitrary: i)
  case Nil
  then show ?case by simp
next
  case (Cons x xs)
  then show ?case by (cases i) auto
qed

lemma find_char_append_notin [simp]:
  "c \<notin> set u \<Longrightarrow> find_char c (u @ c # v) = Some (length u)"
  by (induction u) auto

lemma rfind_char_append_notin [simp]:
  "c \<notin> set v \<Longrightarrow> rfind_char c (u @ c # v) = Some (length u)"
  by (simp add: rfind_char_def)

lemma rfind_char_eq_None [simp]: "rfind_char c s = None \<longleftrightarrow> c \<notin> set s"
  by (simp add: rfind_char_def)

lemma rfind_char_eq_Some:
  assumes "rfind_char c s = Some i"
  shows "\<exists>u v. s = u @ c # v \<and> c \<notin> set v \<and> i = length u"
proof -
  have "c \<in> set s"
    using assms rfind_char_eq_None [of c s] by force
  then obtain u v where "s = u @ c # v" "c \<notin> set v"
    by (meson split_list_last)
  then show ?thesis using assms by auto
qed

text \<open>\<open>str::split_once(char)\<close> and \<open>str::split(char)\<close>.\<close>

fun split_once :: "'a \<Rightarrow> 'a list \<Rightarrow> ('a list \<times> 'a list) option" where
  "split_once c [] = None"
| "split_once c (x # xs) =
     (if x = c then Some ([], xs)
      else map_option (\<lambda>(a, b). (x # a, b)) (split_once c xs))"

fun split_on :: "'a \<Rightarrow> 'a list \<Rightarrow> 'a list list" where
  "split_on c [] = [[]]"
| "split_on c (x # xs) =
     (if x = c then [] # split_on c xs
      else (case split_on c xs of [] \<Rightarrow> [[x]] | s # ss \<Rightarrow> (x # s) # ss))"

text \<open>\<open>[&str]::join\<close>.\<close>

fun join_str :: "string \<Rightarrow> string list \<Rightarrow> string" where
  "join_str sep [] = []"
| "join_str sep [s] = s"
| "join_str sep (s # t # ss) = s @ sep @ join_str sep (t # ss)"

lemma split_once_eq_Some:
  "split_once c s = Some (a, b) \<longleftrightarrow> s = a @ c # b \<and> c \<notin> set a"
proof (induction s arbitrary: a)
  case Nil
  then show ?case by simp
next
  case (Cons x xs)
  then show ?case by (cases a) auto
qed

lemma split_on_not_Nil [simp]: "split_on c s \<noteq> []"
  by (induction s) (auto split: list.splits)

lemma split_on_notin: "c \<notin> set s \<Longrightarrow> split_on c s = [s]"
  by (induction s) auto

lemma split_on_length: "length (split_on c s) = Suc (count_list s c)"
  by (induction s) (auto split: list.splits)

lemma split_on_parts_notin: "p \<in> set (split_on c s) \<Longrightarrow> c \<notin> set p"
proof (induction s arbitrary: p)
  case Nil
  then show ?case by simp
next
  case (Cons x xs)
  then show ?case by (auto split: if_splits list.splits)
qed

section \<open>ASCII case, trimming, numbers\<close>

text \<open>
  \<open>to_ascii_lowercase\<close> and \<open>eq_ignore_ascii_case\<close> act on the bytes \<open>A\<close>..\<open>Z\<close> only.
  \<open>to_lowercase\<close> is the same function on ASCII text, which is what the sources apply it to
  (header values that passed \<open>to_str\<close>, host names of a parsed URI); on text outside ASCII the
  standard library also maps the cased letters of Unicode, which is not modelled.
\<close>

definition ascii_upper_letters :: string where
  "ascii_upper_letters = ''ABCDEFGHIJKLMNOPQRSTUVWXYZ''"

definition ascii_lower_letters :: string where
  "ascii_lower_letters = ''abcdefghijklmnopqrstuvwxyz''"

definition ascii_lower :: "char \<Rightarrow> char" where
  "ascii_lower c = (case map_of (zip ascii_upper_letters ascii_lower_letters) c of
     None \<Rightarrow> c | Some d \<Rightarrow> d)"

definition to_lower :: "string \<Rightarrow> string" where
  "to_lower s = map ascii_lower s"

definition eq_ignore_ascii_case :: "string \<Rightarrow> string \<Rightarrow> bool" where
  "eq_ignore_ascii_case s t \<longleftrightarrow> to_lower s = to_lower t"

lemma ascii_lower_idem [simp]: "ascii_lower (ascii_lower c) = ascii_lower c"
  unfolding ascii_lower_def ascii_upper_letters_def ascii_lower_letters_def
  by (auto split: option.splits)

lemma to_lower_idem [simp]: "to_lower (to_lower s) = to_lower s"
  by (simp add: to_lower_def)

lemma length_to_lower [simp]: "length (to_lower s) = length s"
  by (simp add: to_lower_def)

lemma eq_ignore_ascii_case_refl [simp]: "eq_ignore_ascii_case s s"
  by (simp add: eq_ignore_ascii_case_def)

lemma eq_ignore_ascii_case_sym: "eq_ignore_ascii_case s t \<longleftrightarrow> eq_ignore_ascii_case t s"
  by (auto simp: eq_ignore_ascii_case_def)

text \<open>\<open>str::trim\<close> on ASCII text: space, tab, line feed, vertical tab, form feed, carriage return.\<close>

definition is_ws :: "char \<Rightarrow> bool" where
  "is_ws c \<longleftrightarrow> c \<in> set [CHR '' '', CHR 0x09, CHR 0x0A, CHR 0x0B, CHR 0x0C, CHR 0x0D]"

definition trim :: "string \<Rightarrow> string" where
  "trim s = rev (dropWhile is_ws (rev (dropWhile is_ws s)))"

text \<open>\<open>str::split_whitespace\<close> on ASCII text.\<close>

fun split_ws_aux :: "string \<Rightarrow> string \<Rightarrow> string list" where
  "split_ws_aux acc [] = (if acc = [] then [] else [rev acc])"
| "split_ws_aux acc (c # s) =
     (if is_ws c then (if acc = [] then split_ws_aux [] s else rev acc # split_ws_aux [] s)
      else split_ws_aux (c # acc) s)"

definition split_whitespace :: "string \<Rightarrow> string list" where
  "split_whitespace s = split_ws_aux [] s"

text \<open>Decimal digits and \<open>str::parse::<u16>()\<close>: an optional leading \<open>+\<close>, at least one digit.\<close>

definition digit_chars :: string where
  "digit_chars = ''0123456789''"

definition digit_val :: "char \<Rightarrow> nat option" where
  "digit_val c = find_char c digit_chars"

fun parse_digits :: "nat \<Rightarrow> string \<Rightarrow> nat option" where
  "parse_digits acc [] = Some acc"
| "parse_digits acc (c # s) =
     (case digit_val c of None \<Rightarrow> None | Some d \<Rightarrow> parse_digits (10 * acc + d) s)"

definition parse_nat :: "string \<Rightarrow> nat option" where
  "parse_nat s = (let t = (case s of c # r \<Rightarrow> if c = CHR ''+'' then r else s | [] \<Rightarrow> s)
                  in if t = [] then None else parse_digits 0 t)"

definition parse_u16 :: "string \<Rightarrow> u16 option" where
  "parse_u16 s = (case parse_nat s of
     None \<Rightarrow> None
   | Some n \<Rightarrow> if n < 2 ^ 16 then Some (of_nat n) else None)"

text \<open>\<open>ToString\<close> of an unsigned integer.\<close>

fun nat_to_string :: "nat \<Rightarrow> string" where
  "nat_to_string n = (if n < 10 then [digit_chars ! n] else nat_to_string (n div 10) @ [digit_chars ! (n mod 10)])"

declare nat_to_string.simps [simp del]

lemma nat_to_string_not_Nil [simp]: "nat_to_string n \<noteq> []"
  by (subst nat_to_string.simps) simp

lemma digit_val_nth: "d < 10 \<Longrightarrow> digit_val (digit_chars ! d) = Some d"
proof -
  assume "d < 10"
  then have "d \<in> set [0, 1, 2, 3, 4, 5, 6, 7, 8, 9]" by auto
  then show ?thesis
    by (auto simp: digit_val_def digit_chars_def)
qed

lemma parse_digits_append:
  "parse_digits a (s @ t) = (case parse_digits a s of None \<Rightarrow> None | Some b \<Rightarrow> parse_digits b t)"
  by (induction a s rule: parse_digits.induct) (auto split: option.splits)

lemma parse_digits_nat_to_string: "parse_digits 0 (nat_to_string n) = Some n"
proof (induction n rule: nat_to_string.induct)
  case (1 n)
  show ?case
  proof (cases "n < 10")
    case True
    then show ?thesis by (subst nat_to_string.simps) (simp add: digit_val_nth)
  next
    case False
    with 1 have "parse_digits 0 (nat_to_string (n div 10)) = Some (n div 10)" by simp
    with False show ?thesis
      by (subst nat_to_string.simps) (simp add: parse_digits_append digit_val_nth)
  qed
qed

lemma digit_not_special:
  "d < 10 \<Longrightarrow> digit_chars ! d \<notin> set '':+[]/@''"
proof -
  assume "d < 10"
  then have "d \<in> set [0, 1, 2, 3, 4, 5, 6, 7, 8, 9]" by auto
  then show ?thesis by (auto simp: digit_chars_def)
qed

lemma nat_to_string_not_special: "c \<in> set (nat_to_string n) \<Longrightarrow> c \<notin> set '':+[]/@''"
proof (induction n rule: nat_to_string.induct)
  case (1 n)
  show ?case
  proof (cases "n < 10")
    case True
    with "1.prems" show ?thesis
      using digit_not_special [of n] by (simp add: nat_to_string.simps [of n])
  next
    case False
    with "1.prems" have "c \<in> set (nat_to_string (n div 10)) \<or> c = digit_chars ! (n mod 10)"
      by (auto simp: nat_to_string.simps [of n])
    then show ?thesis
      using "1.IH" [OF False] digit_not_special [of "n mod 10"] by auto
  qed
qed

lemma parse_nat_nat_to_string: "parse_nat (nat_to_string n) = Some n"
proof -
  obtain c r where cr: "nat_to_string n = c # r"
    using nat_to_string_not_Nil [of n] by (meson neq_Nil_conv)
  then have "c \<noteq> CHR ''+''"
    using nat_to_string_not_special [of c n] by auto
  with cr have "parse_nat (nat_to_string n) = parse_digits 0 (nat_to_string n)"
    by (simp add: parse_nat_def)
  then show ?thesis by (simp add: parse_digits_nat_to_string)
qed

lemma parse_u16_unat_to_string [simp]: "parse_u16 (nat_to_string (unat (p :: u16))) = Some p"
proof -
  have "unat p < 2 ^ 16" using unsigned_less [of p] by simp
  then show ?thesis by (simp add: parse_u16_def parse_nat_nat_to_string)
qed

section \<open>Windows of a slice\<close>

text \<open>
  \<open>slice.windows(n).any(|w| w == needle)\<close>. \<open>windows\<close> panics for \<open>n = 0\<close>; both callers return
  before that, so the definition is used for a non-empty needle only.
\<close>

definition windows :: "nat \<Rightarrow> 'a list \<Rightarrow> 'a list list" where
  "windows n xs = map (\<lambda>i. take n (drop i xs)) [0 ..< length xs + 1 - n]"

definition any_window :: "'a list \<Rightarrow> 'a list \<Rightarrow> bool" where
  "any_window needle xs = list_ex (\<lambda>w. w = needle) (windows (length needle) xs)"

lemma any_window_iff_sublist: "any_window needle xs \<longleftrightarrow> sublist needle xs"
proof
  assume "any_window needle xs"
  then obtain i where "i < length xs + 1 - length needle" "take (length needle) (drop i xs) = needle"
    by (auto simp: any_window_def windows_def list_ex_iff)
  then have "xs = take i xs @ needle @ drop (length needle) (drop i xs)"
    by (metis append_take_drop_id)
  then show "sublist needle xs" unfolding sublist_def by blast
next
  assume "sublist needle xs"
  then obtain a b where xs: "xs = a @ needle @ b" unfolding sublist_def by blast
  then have "take (length needle) (drop (length a) xs) = needle"
    and "length a < length xs + 1 - length needle" by auto
  then show "any_window needle xs"
    unfolding any_window_def windows_def list_ex_iff by force
qed

lemma sublist_length_le: "sublist xs ys \<Longrightarrow> length xs \<le> length ys"
  by (auto simp: sublist_def)

text \<open>
  Where a pattern occurs in a concatenation: inside the left part, inside the right part, or
  across the boundary, and then within any suffix of the left part that is at least as long as
  the pattern.
\<close>

lemma sublist_append_suffix:
  assumes sub: "sublist p (x @ c)" and nx: "\<not> sublist p x"
    and suf: "x = x1 @ x2" and len: "length p \<le> length x2 \<or> x1 = []"
  shows "sublist p (x2 @ c)"
proof -
  from sub obtain a b where ab: "x @ c = a @ p @ b" unfolding sublist_def by blast
  have "length x < length (a @ p)"
  proof (rule ccontr)
    assume "\<not> length x < length (a @ p)"
    moreover have "take (length (a @ p)) (x @ c) = a @ p"
      using ab by simp
    ultimately have "take (length (a @ p)) x = a @ p" by simp
    then have "x = a @ p @ drop (length (a @ p)) x"
      by (metis append_assoc append_take_drop_id)
    with nx show False unfolding sublist_def by blast
  qed
  with len suf have "length x1 \<le> length a" by auto
  moreover have "drop (length x1) (x @ c) = drop (length x1) (a @ p @ b)"
    using ab by simp
  ultimately have "x2 @ c = drop (length x1) a @ p @ b"
    using suf by simp
  then show ?thesis unfolding sublist_def by blast
qed

section \<open>Machine integers\<close>

text \<open>\<open>saturating_add\<close>, \<open>saturating_sub\<close>, \<open>checked_sub\<close> on unsigned words.\<close>

definition saturating_add :: "'a::len word \<Rightarrow> 'a word \<Rightarrow> 'a word" where
  "saturating_add a b = (if unat a + unat b < 2 ^ LENGTH('a) then a + b else - 1)"

definition saturating_sub :: "'a::len word \<Rightarrow> 'a word \<Rightarrow> 'a word" where
  "saturating_sub a b = (if a < b then 0 else a - b)"

definition checked_sub :: "'a::len word \<Rightarrow> 'a word \<Rightarrow> 'a word option" where
  "checked_sub a b = (if a < b then None else Some (a - b))"

lemma unat_saturating_add:
  "unat (saturating_add a b) = min (unat (a :: 'a::len word) + unat b) (2 ^ LENGTH('a) - 1)"
proof (cases "unat a + unat b < 2 ^ LENGTH('a)")
  case True
  then show ?thesis by (simp add: saturating_add_def unat_word_ariths)
next
  case False
  then show ?thesis by (simp add: saturating_add_def unsigned_minus_1_eq_mask mask_eq_exp_minus_1)
qed

lemma unat_add_no_overflow:
  "unat (a :: 'a::len word) + unat b < 2 ^ LENGTH('a) \<Longrightarrow> unat (a + b) = unat a + unat b"
  by (simp add: unat_word_ariths)

section \<open>UTF-8\<close>

text \<open>\<open>String::from_utf8\<close>: the well-formed sequences of one to four bytes.\<close>

definition utf8_cont :: "byte \<Rightarrow> bool" where
  "utf8_cont b \<longleftrightarrow> 0x80 \<le> b \<and> b \<le> 0xBF"

definition utf8_three :: "byte \<Rightarrow> byte \<Rightarrow> bool" where
  "utf8_three b0 b1 \<longleftrightarrow>
     (b0 = 0xE0 \<and> 0xA0 \<le> b1 \<and> b1 \<le> 0xBF) \<or> (0xE1 \<le> b0 \<and> b0 \<le> 0xEC \<and> utf8_cont b1) \<or>
     (b0 = 0xED \<and> 0x80 \<le> b1 \<and> b1 \<le> 0x9F) \<or> (0xEE \<le> b0 \<and> b0 \<le> 0xEF \<and> utf8_cont b1)"

definition utf8_four :: "byte \<Rightarrow> byte \<Rightarrow> bool" where
  "utf8_four b0 b1 \<longleftrightarrow>
     (b0 = 0xF0 \<and> 0x90 \<le> b1 \<and> b1 \<le> 0xBF) \<or> (0xF1 \<le> b0 \<and> b0 \<le> 0xF3 \<and> utf8_cont b1) \<or>
     (b0 = 0xF4 \<and> 0x80 \<le> b1 \<and> b1 \<le> 0x8F)"

fun valid_utf8 :: "bytes \<Rightarrow> bool" where
  "valid_utf8 [] = True"
| "valid_utf8 (b0 # bs) =
     (if b0 < 0x80 then valid_utf8 bs
      else case bs of
        [] \<Rightarrow> False
      | b1 # bs1 \<Rightarrow>
          if 0xC2 \<le> b0 \<and> b0 \<le> 0xDF \<and> utf8_cont b1 then valid_utf8 bs1
          else (case bs1 of
            [] \<Rightarrow> False
          | b2 # bs2 \<Rightarrow>
              if utf8_three b0 b1 \<and> utf8_cont b2 then valid_utf8 bs2
              else (case bs2 of
                [] \<Rightarrow> False
              | b3 # bs3 \<Rightarrow> utf8_four b0 b1 \<and> utf8_cont b2 \<and> utf8_cont b3 \<and> valid_utf8 bs3)))"

definition from_utf8 :: "bytes \<Rightarrow> string option" where
  "from_utf8 b = (if valid_utf8 b then Some (chars_of b) else None)"

lemma valid_utf8_ascii: "\<forall>b \<in> set bs. b < 0x80 \<Longrightarrow> valid_utf8 bs"
  by (induction bs) simp_all

lemma valid_utf8_ascii_append: "\<forall>b \<in> set as. b < 0x80 \<Longrightarrow> valid_utf8 (as @ bs) = valid_utf8 bs"
  by (induction as) simp_all

end
