(* ===== verification/Errors.thy ===== *)
theory Errors
  imports Prelude
begin

text \<open>
  The error type of the proxy, \<open>crates/icebreaker-common/src/error.rs\<close>: its variants, the
  text of its \<open>Display\<close> implementation (the \<open>#[error(...)]\<close> attributes), and the five
  classifications the serve path, the metrics and the CONNECT handler use. The lemmas say how
  the classifications agree with each other.
\<close>

section \<open>The variants\<close>

datatype TokenizerError =
    CryptoError string
  | DecryptionError string
  | TokenExpired
  | InvalidPayload string
  | HostNotAllowed (hna_host: string)
  | MethodNotAllowed (mna_method: string)
  | PathNotAllowed (pna_path: string)
  | BlockedAddress (ba_ip: string) (ba_reason: string)
  | ProxyAuthRequired (par_reason: string)
  | SecretLeakDetected
  | HttpError string
  | UpstreamError (ue_status: u16) (ue_message: string)
  | RateLimitExceeded
  | Timeout
  | OAuthRefreshError string
  | SigningError string
  | ConfigError string
  | AuditError string
  | TokenReplayDetected (trd_uses_count: u32) (trd_max_uses: u32)
  | NonceStoreError string
  | ReplayProtectionUnavailable
  | ReplayProtectionRequiresExpiry
  | UnsupportedContentEncoding (uce_encoding: string)
  | InternalError string

type_synonym 'a tresult = "(TokenizerError, 'a) result"

section \<open>Display\<close>

fun to_string :: "TokenizerError \<Rightarrow> string" where
  "to_string (CryptoError m) = ''crypto error: '' @ m"
| "to_string (DecryptionError m) = ''decryption error: '' @ m"
| "to_string TokenExpired = ''token expired''"
| "to_string (InvalidPayload m) = ''invalid token payload: '' @ m"
| "to_string (HostNotAllowed h) = ''host not allowed: '' @ h"
| "to_string (MethodNotAllowed m) = ''method not allowed: '' @ m"
| "to_string (PathNotAllowed p) = ''path not allowed: '' @ p"
| "to_string (BlockedAddress ip r) = ''blocked IP address: '' @ ip @ '' ('' @ r @ '')''"
| "to_string (ProxyAuthRequired r) = ''proxy authentication required: '' @ r"
| "to_string SecretLeakDetected = ''secret leak detected in response''"
| "to_string (HttpError m) = ''http error: '' @ m"
| "to_string (UpstreamError s m) =
     ''upstream error: status '' @ nat_to_string (unat s) @ '', message: '' @ m"
| "to_string RateLimitExceeded = ''rate limit exceeded''"
| "to_string Timeout = ''request timeout''"
| "to_string (OAuthRefreshError m) = ''oauth refresh failed: '' @ m"
| "to_string (SigningError m) = ''signing error: '' @ m"
| "to_string (ConfigError m) = ''configuration error: '' @ m"
| "to_string (AuditError m) = ''audit error: '' @ m"
| "to_string (TokenReplayDetected u m) =
     ''token replay detected: used '' @ nat_to_string (unat u) @ ''/'' @ nat_to_string (unat m) @ '' times''"
| "to_string (NonceStoreError m) = ''nonce store error: '' @ m"
| "to_string ReplayProtectionUnavailable =
     ''replay protection unavailable: token requires nonce tracking but it is disabled''"
| "to_string ReplayProtectionRequiresExpiry =
     ''replay protection requires an expiry: single-use and max-use tokens must set expires_at''"
| "to_string (UnsupportedContentEncoding e) = ''unsupported content encoding: '' @ e"
| "to_string (InternalError m) = ''internal error: '' @ m"

section \<open>Classifications\<close>

fun client_message :: "TokenizerError \<Rightarrow> string" where
  "client_message (CryptoError _) = ''cryptographic operation failed''"
| "client_message (DecryptionError _) = ''token decryption failed''"
| "client_message TokenExpired = ''token expired''"
| "client_message (InvalidPayload _) = ''invalid token''"
| "client_message (HostNotAllowed _) = ''destination not allowed''"
| "client_message (MethodNotAllowed _) = ''request not allowed''"
| "client_message (PathNotAllowed _) = ''request not allowed''"
| "client_message (BlockedAddress _ _) = ''destination not allowed''"
| "client_message (ProxyAuthRequired _) = ''proxy authentication required''"
| "client_message SecretLeakDetected = ''request blocked''"
| "client_message (HttpError _) = ''request failed''"
| "client_message (UpstreamError _ _) = ''upstream error''"
| "client_message RateLimitExceeded = ''rate limit exceeded''"
| "client_message Timeout = ''request timeout''"
| "client_message (OAuthRefreshError _) = ''authentication failed''"
| "client_message (SigningError _) = ''request signing failed''"
| "client_message (ConfigError _) = ''configuration error''"
| "client_message (AuditError _) = ''audit error''"
| "client_message (TokenReplayDetected _ _) = ''token already used''"
| "client_message (NonceStoreError _) = ''internal error''"
| "client_message ReplayProtectionUnavailable = ''token rejected''"
| "client_message ReplayProtectionRequiresExpiry = ''token rejected''"
| "client_message (UnsupportedContentEncoding _) = ''unsupported response encoding''"
| "client_message (InternalError _) = ''internal error''"

fun is_retryable :: "TokenizerError \<Rightarrow> bool" where
  "is_retryable Timeout = True"
| "is_retryable RateLimitExceeded = True"
| "is_retryable (UpstreamError status _) = (status \<ge> 500)"
| "is_retryable _ = False"

fun is_client_error :: "TokenizerError \<Rightarrow> bool" where
  "is_client_error (InvalidPayload _) = True"
| "is_client_error (HostNotAllowed _) = True"
| "is_client_error (MethodNotAllowed _) = True"
| "is_client_error (PathNotAllowed _) = True"
| "is_client_error (BlockedAddress _ _) = True"
| "is_client_error TokenExpired = True"
| "is_client_error (DecryptionError _) = True"
| "is_client_error (ProxyAuthRequired _) = True"
| "is_client_error (TokenReplayDetected _ _) = True"
| "is_client_error ReplayProtectionUnavailable = True"
| "is_client_error ReplayProtectionRequiresExpiry = True"
| "is_client_error _ = False"

fun status_code :: "TokenizerError \<Rightarrow> u16" where
  "status_code Timeout = 504"
| "status_code RateLimitExceeded = 429"
| "status_code (UpstreamError status _) = status"
| "status_code (HttpError _) = 502"
| "status_code (ProxyAuthRequired _) = 407"
| "status_code (HostNotAllowed _) = 403"
| "status_code (MethodNotAllowed _) = 403"
| "status_code (PathNotAllowed _) = 403"
| "status_code (BlockedAddress _ _) = 403"
| "status_code SecretLeakDetected = 403"
| "status_code (UnsupportedContentEncoding _) = 403"
| "status_code (InvalidPayload _) = 400"
| "status_code TokenExpired = 401"
| "status_code (DecryptionError _) = 401"
| "status_code (TokenReplayDetected _ _) = 401"
| "status_code ReplayProtectionUnavailable = 401"
| "status_code ReplayProtectionRequiresExpiry = 401"
| "status_code (CryptoError _) = 500"
| "status_code (OAuthRefreshError _) = 500"
| "status_code (SigningError _) = 500"
| "status_code (ConfigError _) = 500"
| "status_code (AuditError _) = 500"
| "status_code (NonceStoreError _) = 500"
| "status_code (InternalError _) = 500"

fun error_class :: "TokenizerError \<Rightarrow> string" where
  "error_class Timeout = ''timeout''"
| "error_class RateLimitExceeded = ''rate_limited''"
| "error_class (UpstreamError _ _) = ''upstream''"
| "error_class (HttpError _) = ''upstream''"
| "error_class (ProxyAuthRequired _) = ''proxy_auth''"
| "error_class (HostNotAllowed _) = ''host_not_allowed''"
| "error_class (MethodNotAllowed _) = ''method_not_allowed''"
| "error_class (PathNotAllowed _) = ''path_not_allowed''"
| "error_class (BlockedAddress _ _) = ''blocked_address''"
| "error_class SecretLeakDetected = ''leak_blocked''"
| "error_class (UnsupportedContentEncoding _) = ''unsupported_encoding''"
| "error_class (InvalidPayload _) = ''invalid_token''"
| "error_class TokenExpired = ''token_expired''"
| "error_class (DecryptionError _) = ''decryption_failed''"
| "error_class (TokenReplayDetected _ _) = ''replay_detected''"
| "error_class ReplayProtectionUnavailable = ''replay_unavailable''"
| "error_class ReplayProtectionRequiresExpiry = ''replay_requires_expiry''"
| "error_class (CryptoError _) = ''crypto''"
| "error_class (OAuthRefreshError _) = ''oauth''"
| "error_class (SigningError _) = ''signing''"
| "error_class (ConfigError _) = ''config''"
| "error_class (AuditError _) = ''audit''"
| "error_class (NonceStoreError _) = ''nonce_store''"
| "error_class (InternalError _) = ''internal''"

fun is_security_error :: "TokenizerError \<Rightarrow> bool" where
  "is_security_error SecretLeakDetected = True"
| "is_security_error (DecryptionError _) = True"
| "is_security_error (HostNotAllowed _) = True"
| "is_security_error (MethodNotAllowed _) = True"
| "is_security_error (PathNotAllowed _) = True"
| "is_security_error (BlockedAddress _ _) = True"
| "is_security_error (ProxyAuthRequired _) = True"
| "is_security_error (TokenReplayDetected _ _) = True"
| "is_security_error ReplayProtectionUnavailable = True"
| "is_security_error ReplayProtectionRequiresExpiry = True"
| "is_security_error (UnsupportedContentEncoding _) = True"
| "is_security_error _ = False"

section \<open>How the classifications agree\<close>

text \<open>\<open>StatusCode::is_client_error\<close> and \<open>is_server_error\<close>: the 4xx and the 5xx range.\<close>

definition status_4xx :: "u16 \<Rightarrow> bool" where
  "status_4xx s \<longleftrightarrow> 400 \<le> s \<and> s < 500"

definition status_5xx :: "u16 \<Rightarrow> bool" where
  "status_5xx s \<longleftrightarrow> 500 \<le> s \<and> s < 600"

lemma client_error_status: "is_client_error e \<Longrightarrow> status_4xx (status_code e)"
  by (cases e) (simp_all add: status_4xx_def)

lemma security_error_status: "is_security_error e \<Longrightarrow> status_4xx (status_code e)"
  by (cases e) (simp_all add: status_4xx_def)

lemma retryable_not_rejection: "is_retryable e \<Longrightarrow> \<not> is_client_error e \<and> \<not> is_security_error e"
  by (cases e) simp_all

lemma retryable_status: "is_retryable e \<Longrightarrow> status_code e = 429 \<or> 500 \<le> status_code e"
  by (cases e) simp_all

text \<open>
  The text of an error that is sent to a client depends on the variant only: replacing every
  string and number an error carries leaves \<open>client_message\<close> unchanged.
\<close>

fun redact :: "TokenizerError \<Rightarrow> TokenizerError" where
  "redact (CryptoError _) = CryptoError []"
| "redact (DecryptionError _) = DecryptionError []"
| "redact TokenExpired = TokenExpired"
| "redact (InvalidPayload _) = InvalidPayload []"
| "redact (HostNotAllowed _) = HostNotAllowed []"
| "redact (MethodNotAllowed _) = MethodNotAllowed []"
| "redact (PathNotAllowed _) = PathNotAllowed []"
| "redact (BlockedAddress _ _) = BlockedAddress [] []"
| "redact (ProxyAuthRequired _) = ProxyAuthRequired []"
| "redact SecretLeakDetected = SecretLeakDetected"
| "redact (HttpError _) = HttpError []"
| "redact (UpstreamError _ _) = UpstreamError 0 []"
| "redact RateLimitExceeded = RateLimitExceeded"
| "redact Timeout = Timeout"
| "redact (OAuthRefreshError _) = OAuthRefreshError []"
| "redact (SigningError _) = SigningError []"
| "redact (ConfigError _) = ConfigError []"
| "redact (AuditError _) = AuditError []"
| "redact (TokenReplayDetected _ _) = TokenReplayDetected 0 0"
| "redact (NonceStoreError _) = NonceStoreError []"
| "redact ReplayProtectionUnavailable = ReplayProtectionUnavailable"
| "redact ReplayProtectionRequiresExpiry = ReplayProtectionRequiresExpiry"
| "redact (UnsupportedContentEncoding _) = UnsupportedContentEncoding []"
| "redact (InternalError _) = InternalError []"

lemma client_message_redact: "client_message (redact e) = client_message e"
  by (cases e) simp_all

lemma error_class_redact: "error_class (redact e) = error_class e"
  by (cases e) simp_all

text \<open>Two errors share a metric label only if they are the same variant or both upstream failures.\<close>

definition is_upstream :: "TokenizerError \<Rightarrow> bool" where
  "is_upstream e \<longleftrightarrow> (\<exists>s m. e = UpstreamError s m) \<or> (\<exists>m. e = HttpError m)"

lemma error_class_separates:
  "error_class e = error_class f \<Longrightarrow> redact e = redact f \<or> (is_upstream e \<and> is_upstream f)"
  unfolding is_upstream_def by (cases e; cases f; simp)

section \<open>Properties\<close>

text \<open>
  Note. The classifications of an error agree: a client error and a security error answer
  with a 4xx status, a retryable error is neither and answers 429 or 5xx.
\<close>

theorem error_classes_agree:
  "(is_client_error e \<or> is_security_error e \<longrightarrow> status_4xx (status_code e)) \<and>
   (is_retryable e \<longrightarrow> \<not> is_client_error e \<and> \<not> is_security_error e \<and>
      (status_code e = 429 \<or> 500 \<le> status_code e))"
  using client_error_status security_error_status retryable_not_rejection retryable_status by blast

theorem error_classes_agree_witness:
  "is_client_error TokenExpired \<and> status_4xx (status_code TokenExpired) \<and>
   is_retryable Timeout \<and> 500 \<le> status_code Timeout"
  using error_classes_agree [of TokenExpired] error_classes_agree [of Timeout]
  by simp

text \<open>
  Note. The text a client is sent and the metric label depend on the variant of the error
  only, so no string or number an error carries reaches either of them.
\<close>

theorem client_text_reveals_variant_only:
  "client_message (redact e) = client_message e \<and> error_class (redact e) = error_class e"
  by (simp add: client_message_redact error_class_redact)

end
