(* ===== verification/Config.thy ===== *)
theory Config
  imports Prelude
begin

text \<open>
  The configuration types of \<open>crates/icebreaker-common/src/config.rs\<close> with their defaults,
  constructors and the \<open>ProxyConfig\<close> builder. A \<open>Duration\<close> is its number of nanoseconds. The
  lemmas state the builder's contract (a field that was set is kept, a field that was not set
  has its default), and that \<open>is_encoding_allowed\<close> ignores case.
\<close>

section \<open>Durations\<close>

type_synonym duration = nat

definition nanos_per_sec :: nat where
  "nanos_per_sec = 1000000000"

definition from_secs :: "u64 \<Rightarrow> duration" where
  "from_secs s = unat s * nanos_per_sec"

text \<open>\<open>Duration::MAX\<close>: \<open>u64::MAX\<close> seconds and 999999999 nanoseconds.\<close>

definition duration_max :: duration where
  "duration_max = (2 ^ 64) * nanos_per_sec - 1"

lemma from_secs_le_max: "from_secs s \<le> duration_max"
proof -
  have "unat s < 2 ^ 64" using unsigned_less [of s] by simp
  then have "unat s + 1 \<le> 2 ^ 64" by simp
  then have "(unat s + 1) * nanos_per_sec \<le> 2 ^ 64 * nanos_per_sec"
    by (rule mult_le_mono1)
  then show ?thesis by (simp add: from_secs_def duration_max_def nanos_per_sec_def)
qed

section \<open>Rate limiting, TLS, logging, health, shutdown\<close>

record RateLimitConfig =
  max_requests :: u32
  period :: duration
  burst :: u32

definition RateLimitConfig_default :: RateLimitConfig where
  "RateLimitConfig_default = \<lparr>max_requests = 100, period = from_secs 60, burst = 10\<rparr>"

datatype ClientAuthMode = CamNone | CamOptional | CamRequired

record TlsConfig =
  cert_path :: string
  key_path :: string
  client_ca_path :: "string option"
  client_auth :: ClientAuthMode

definition TlsConfig_new :: "string \<Rightarrow> string \<Rightarrow> TlsConfig" where
  "TlsConfig_new cert key =
     \<lparr>cert_path = cert, key_path = key, client_ca_path = None, client_auth = CamNone\<rparr>"

definition with_client_ca :: "TlsConfig \<Rightarrow> string \<Rightarrow> TlsConfig" where
  "with_client_ca c path = c\<lparr>client_ca_path := Some path\<rparr>"

definition with_client_auth :: "TlsConfig \<Rightarrow> ClientAuthMode \<Rightarrow> TlsConfig" where
  "with_client_auth c mode = c\<lparr>client_auth := mode\<rparr>"

record LoggingConfig =
  log_level :: string
  log_json :: bool
  log_bodies :: bool

definition LoggingConfig_default :: LoggingConfig where
  "LoggingConfig_default = \<lparr>log_level = ''info'', log_json = False, log_bodies = False\<rparr>"

record HealthConfig =
  health_enabled :: bool
  health_port :: u16
  liveness_path :: string
  readiness_path :: string

definition HealthConfig_default :: HealthConfig where
  "HealthConfig_default =
     \<lparr>health_enabled = True, health_port = 9091, liveness_path = ''/healthz'', readiness_path = ''/readyz''\<rparr>"

definition HealthConfig_disabled :: HealthConfig where
  "HealthConfig_disabled = HealthConfig_default\<lparr>health_enabled := False\<rparr>"

record ShutdownConfig =
  shutdown_timeout :: duration
  shutdown_delay :: duration

definition ShutdownConfig_default :: ShutdownConfig where
  "ShutdownConfig_default = \<lparr>shutdown_timeout = from_secs 30, shutdown_delay = from_secs 0\<rparr>"

section \<open>The proxy configuration and its builder\<close>

record ProxyConfig =
  bind_address :: string
  pc_port :: u16
  pc_timeout :: duration
  max_body_size :: nat
  pc_rate_limit :: "RateLimitConfig option"
  pc_tls :: "TlsConfig option"
  pc_logging :: LoggingConfig
  pc_health :: HealthConfig
  pc_shutdown :: ShutdownConfig

definition ProxyConfig_default :: ProxyConfig where
  "ProxyConfig_default =
     \<lparr>bind_address = ''127.0.0.1'', pc_port = 8080, pc_timeout = from_secs 30,
      max_body_size = 10 * 1024 * 1024, pc_rate_limit = None, pc_tls = None,
      pc_logging = LoggingConfig_default, pc_health = HealthConfig_default,
      pc_shutdown = ShutdownConfig_default\<rparr>"

definition bind_addr :: "ProxyConfig \<Rightarrow> string" where
  "bind_addr c = bind_address c @ '':'' @ nat_to_string (unat (pc_port c))"

record ProxyConfigBuilder =
  b_bind_address :: "string option"
  b_port :: "u16 option"
  b_timeout :: "duration option"
  b_max_body_size :: "nat option"
  b_rate_limit :: "RateLimitConfig option"
  b_tls :: "TlsConfig option"
  b_logging :: "LoggingConfig option"
  b_health :: "HealthConfig option"
  b_shutdown :: "ShutdownConfig option"

definition ProxyConfig_builder :: ProxyConfigBuilder where
  "ProxyConfig_builder =
     \<lparr>b_bind_address = None, b_port = None, b_timeout = None, b_max_body_size = None,
      b_rate_limit = None, b_tls = None, b_logging = None, b_health = None, b_shutdown = None\<rparr>"

definition set_bind_address :: "ProxyConfigBuilder \<Rightarrow> string \<Rightarrow> ProxyConfigBuilder" where
  "set_bind_address b a = b\<lparr>b_bind_address := Some a\<rparr>"
definition set_port :: "ProxyConfigBuilder \<Rightarrow> u16 \<Rightarrow> ProxyConfigBuilder" where
  "set_port b p = b\<lparr>b_port := Some p\<rparr>"
definition set_timeout :: "ProxyConfigBuilder \<Rightarrow> duration \<Rightarrow> ProxyConfigBuilder" where
  "set_timeout b t = b\<lparr>b_timeout := Some t\<rparr>"
definition set_max_body_size :: "ProxyConfigBuilder \<Rightarrow> nat \<Rightarrow> ProxyConfigBuilder" where
  "set_max_body_size b n = b\<lparr>b_max_body_size := Some n\<rparr>"
definition set_rate_limit :: "ProxyConfigBuilder \<Rightarrow> RateLimitConfig \<Rightarrow> ProxyConfigBuilder" where
  "set_rate_limit b c = b\<lparr>b_rate_limit := Some c\<rparr>"
definition set_tls :: "ProxyConfigBuilder \<Rightarrow> TlsConfig \<Rightarrow> ProxyConfigBuilder" where
  "set_tls b c = b\<lparr>b_tls := Some c\<rparr>"
definition set_logging :: "ProxyConfigBuilder \<Rightarrow> LoggingConfig \<Rightarrow> ProxyConfigBuilder" where
  "set_logging b c = b\<lparr>b_logging := Some c\<rparr>"
definition set_health :: "ProxyConfigBuilder \<Rightarrow> HealthConfig \<Rightarrow> ProxyConfigBuilder" where
  "set_health b c = b\<lparr>b_health := Some c\<rparr>"
definition set_shutdown :: "ProxyConfigBuilder \<Rightarrow> ShutdownConfig \<Rightarrow> ProxyConfigBuilder" where
  "set_shutdown b c = b\<lparr>b_shutdown := Some c\<rparr>"

definition unwrap_or :: "'a option \<Rightarrow> 'a \<Rightarrow> 'a" where
  "unwrap_or m d = (case m of None \<Rightarrow> d | Some x \<Rightarrow> x)"

lemma unwrap_or_simps [simp]: "unwrap_or None d = d" "unwrap_or (Some x) d = x"
  by (simp_all add: unwrap_or_def)

definition build_proxy_config :: "ProxyConfigBuilder \<Rightarrow> ProxyConfig" where
  "build_proxy_config b = (let d = ProxyConfig_default in
     \<lparr>bind_address = unwrap_or (b_bind_address b) (bind_address d),
      pc_port = unwrap_or (b_port b) (pc_port d),
      pc_timeout = unwrap_or (b_timeout b) (pc_timeout d),
      max_body_size = unwrap_or (b_max_body_size b) (max_body_size d),
      pc_rate_limit = b_rate_limit b,
      pc_tls = b_tls b,
      pc_logging = unwrap_or (b_logging b) (pc_logging d),
      pc_health = unwrap_or (b_health b) (pc_health d),
      pc_shutdown = unwrap_or (b_shutdown b) (pc_shutdown d)\<rparr>)"

lemmas builder_defs =
  set_bind_address_def set_port_def set_timeout_def set_max_body_size_def set_rate_limit_def
  set_tls_def set_logging_def set_health_def set_shutdown_def

lemma build_empty: "build_proxy_config ProxyConfig_builder = ProxyConfig_default"
  by (simp add: build_proxy_config_def ProxyConfig_builder_def ProxyConfig_default_def)

text \<open>Setting a field and building is building and setting the field of the result.\<close>

lemma build_set:
  "build_proxy_config (set_bind_address b a) = (build_proxy_config b)\<lparr>bind_address := a\<rparr>"
  "build_proxy_config (set_port b p) = (build_proxy_config b)\<lparr>pc_port := p\<rparr>"
  "build_proxy_config (set_timeout b t) = (build_proxy_config b)\<lparr>pc_timeout := t\<rparr>"
  "build_proxy_config (set_max_body_size b n) = (build_proxy_config b)\<lparr>max_body_size := n\<rparr>"
  "build_proxy_config (set_rate_limit b r) = (build_proxy_config b)\<lparr>pc_rate_limit := Some r\<rparr>"
  "build_proxy_config (set_tls b c) = (build_proxy_config b)\<lparr>pc_tls := Some c\<rparr>"
  "build_proxy_config (set_logging b l) = (build_proxy_config b)\<lparr>pc_logging := l\<rparr>"
  "build_proxy_config (set_health b h) = (build_proxy_config b)\<lparr>pc_health := h\<rparr>"
  "build_proxy_config (set_shutdown b s) = (build_proxy_config b)\<lparr>pc_shutdown := s\<rparr>"
  by (simp_all add: build_proxy_config_def builder_defs Let_def)

section \<open>Network protection\<close>

record NetworkProtectionConfig =
  npc_block_private :: bool
  npc_block_loopback :: bool
  npc_block_link_local :: bool
  npc_blocked_cidrs :: "string list"
  npc_blocked_hostnames :: "string list"
  npc_allowed_cidrs :: "string list"

definition NetworkProtectionConfig_default :: NetworkProtectionConfig where
  "NetworkProtectionConfig_default =
     \<lparr>npc_block_private = True, npc_block_loopback = True, npc_block_link_local = True,
      npc_blocked_cidrs = [], npc_blocked_hostnames = [], npc_allowed_cidrs = []\<rparr>"

definition NetworkProtectionConfig_permissive :: NetworkProtectionConfig where
  "NetworkProtectionConfig_permissive =
     \<lparr>npc_block_private = False, npc_block_loopback = False, npc_block_link_local = False,
      npc_blocked_cidrs = [], npc_blocked_hostnames = [], npc_allowed_cidrs = []\<rparr>"

definition NetworkProtectionConfig_strict :: NetworkProtectionConfig where
  "NetworkProtectionConfig_strict = NetworkProtectionConfig_default"

section \<open>Clock skew\<close>

record ClockSkewConfig =
  tolerance_seconds :: u64
  max_future_seconds :: "u64 option"

definition ClockSkewConfig_default :: ClockSkewConfig where
  "ClockSkewConfig_default = \<lparr>tolerance_seconds = 30, max_future_seconds = Some 300\<rparr>"

definition ClockSkewConfig_strict :: ClockSkewConfig where
  "ClockSkewConfig_strict = \<lparr>tolerance_seconds = 0, max_future_seconds = Some 60\<rparr>"

definition ClockSkewConfig_permissive :: ClockSkewConfig where
  "ClockSkewConfig_permissive = \<lparr>tolerance_seconds = 300, max_future_seconds = Some 3600\<rparr>"

definition with_tolerance :: "u64 \<Rightarrow> ClockSkewConfig" where
  "with_tolerance t = ClockSkewConfig_default\<lparr>tolerance_seconds := t\<rparr>"

definition with_max_future :: "ClockSkewConfig \<Rightarrow> u64 option \<Rightarrow> ClockSkewConfig" where
  "with_max_future c m = c\<lparr>max_future_seconds := m\<rparr>"

section \<open>Response scanning\<close>

datatype UnsupportedEncodingBehavior = Block | PassthroughWithWarning

record ResponseScanConfig =
  unsupported_encoding :: UnsupportedEncodingBehavior
  additional_allowed_encodings :: "string list"

definition ResponseScanConfig_new :: ResponseScanConfig where
  "ResponseScanConfig_new = \<lparr>unsupported_encoding = Block, additional_allowed_encodings = []\<rparr>"

definition with_unsupported_encoding_behavior ::
  "ResponseScanConfig \<Rightarrow> UnsupportedEncodingBehavior \<Rightarrow> ResponseScanConfig" where
  "with_unsupported_encoding_behavior c b = c\<lparr>unsupported_encoding := b\<rparr>"

definition with_allowed_encoding :: "ResponseScanConfig \<Rightarrow> string \<Rightarrow> ResponseScanConfig" where
  "with_allowed_encoding c e =
     c\<lparr>additional_allowed_encodings := additional_allowed_encodings c @ [e]\<rparr>"

definition is_encoding_allowed :: "ResponseScanConfig \<Rightarrow> string \<Rightarrow> bool" where
  "is_encoding_allowed c encoding = (let encoding_lower = to_lower encoding in
     list_ex (\<lambda>e. to_lower e = encoding_lower) (additional_allowed_encodings c))"

lemma is_encoding_allowed_iff:
  "is_encoding_allowed c e \<longleftrightarrow> (\<exists>x \<in> set (additional_allowed_encodings c). eq_ignore_ascii_case x e)"
  by (simp add: is_encoding_allowed_def list_ex_iff eq_ignore_ascii_case_def)

lemma is_encoding_allowed_add:
  "is_encoding_allowed (with_allowed_encoding c x) e \<longleftrightarrow>
     is_encoding_allowed c e \<or> eq_ignore_ascii_case x e"
  by (auto simp: is_encoding_allowed_iff with_allowed_encoding_def)

end
