(* ===== verification/Processor_Config.thy ===== *)
theory Processor_Config
  imports Errors
begin

text \<open>
  Client-authentication and processor configurations carried inside a token:
  \<open>crates/icebreaker-common/src/auth.rs\<close> and \<open>processor.rs\<close>. The validation of a \<open>Multi\<close>
  configuration is characterised by \<open>multi_validate_Ok_iff\<close>.
\<close>

section \<open>Client authentication (auth.rs)\<close>

record ApiKeyConfig =
  ak_header_name :: string
  ak_prefix :: "string option"
  ak_key_hash :: string
  ak_username_hash :: "string option"

definition ApiKeyConfig_new :: "string \<Rightarrow> string \<Rightarrow> ApiKeyConfig" where
  "ApiKeyConfig_new header_name key_hash =
     \<lparr>ak_header_name = header_name, ak_prefix = None, ak_key_hash = key_hash, ak_username_hash = None\<rparr>"

definition ak_with_prefix :: "ApiKeyConfig \<Rightarrow> string \<Rightarrow> ApiKeyConfig" where
  "ak_with_prefix c p = c\<lparr>ak_prefix := Some p\<rparr>"

definition ak_with_username_hash :: "ApiKeyConfig \<Rightarrow> string \<Rightarrow> ApiKeyConfig" where
  "ak_with_username_hash c h = c\<lparr>ak_username_hash := Some h\<rparr>"

record MutualTlsConfig =
  mt_cert_fingerprint :: string
  mt_subject_pattern :: "string option"

definition MutualTlsConfig_new :: "string \<Rightarrow> MutualTlsConfig" where
  "MutualTlsConfig_new fp = \<lparr>mt_cert_fingerprint = fp, mt_subject_pattern = None\<rparr>"

definition mt_with_subject_pattern :: "MutualTlsConfig \<Rightarrow> string \<Rightarrow> MutualTlsConfig" where
  "mt_with_subject_pattern c p = c\<lparr>mt_subject_pattern := Some p\<rparr>"

datatype AuthConfig = AuthNone | ApiKey ApiKeyConfig | MutualTls MutualTlsConfig

definition AuthConfig_default :: AuthConfig where
  "AuthConfig_default = AuthNone"

fun auth_type :: "AuthConfig \<Rightarrow> string" where
  "auth_type AuthNone = ''none''"
| "auth_type (ApiKey _) = ''api_key''"
| "auth_type (MutualTls _) = ''mutual_tls''"

fun is_required :: "AuthConfig \<Rightarrow> bool" where
  "is_required AuthNone = False"
| "is_required _ = True"

section \<open>Header injection, HMAC, OAuth, body placeholders, SigV4\<close>

record InjectConfig =
  ic_header_name :: string
  ic_prefix :: "string option"
  ic_suffix :: "string option"

definition InjectConfig_bearer :: "string \<Rightarrow> InjectConfig" where
  "InjectConfig_bearer h = \<lparr>ic_header_name = h, ic_prefix = Some ''Bearer '', ic_suffix = None\<rparr>"

definition InjectConfig_basic :: "string \<Rightarrow> InjectConfig" where
  "InjectConfig_basic h = \<lparr>ic_header_name = h, ic_prefix = Some ''Basic '', ic_suffix = None\<rparr>"

definition InjectConfig_raw :: "string \<Rightarrow> InjectConfig" where
  "InjectConfig_raw h = \<lparr>ic_header_name = h, ic_prefix = None, ic_suffix = None\<rparr>"

definition format_value :: "InjectConfig \<Rightarrow> string \<Rightarrow> string" where
  "format_value c secret =
     (case ic_prefix c of None \<Rightarrow> [] | Some p \<Rightarrow> p) @ secret @
     (case ic_suffix c of None \<Rightarrow> [] | Some s \<Rightarrow> s)"

datatype HmacAlgorithm = Sha256 | Sha512

record HmacConfig =
  hc_signature_header :: string
  hc_algorithm :: HmacAlgorithm
  hc_signed_headers :: "string list"
  hc_timestamp_header :: "string option"
  hc_sign_body :: bool

definition HmacConfig_default :: HmacConfig where
  "HmacConfig_default =
     \<lparr>hc_signature_header = ''X-Signature'', hc_algorithm = Sha256,
      hc_signed_headers = [''host'', ''date''], hc_timestamp_header = Some ''X-Timestamp'',
      hc_sign_body = True\<rparr>"

datatype OAuthGrantType = ClientCredentials | RefreshToken

record OAuthConfig =
  oc_token_url :: string
  oc_client_id :: string
  oc_client_secret_in_payload :: bool
  oc_grant_type :: OAuthGrantType
  oc_scopes :: "string list"
  oc_header_name :: string

definition OAuthConfig_default :: OAuthConfig where
  "OAuthConfig_default =
     \<lparr>oc_token_url = [], oc_client_id = [], oc_client_secret_in_payload = True,
      oc_grant_type = ClientCredentials, oc_scopes = [], oc_header_name = ''Authorization''\<rparr>"

record InjectBodyConfig =
  ib_placeholder :: string

definition default_placeholder :: string where
  "default_placeholder = ''{{ACCESS_TOKEN}}''"

definition InjectBodyConfig_default :: InjectBodyConfig where
  "InjectBodyConfig_default = \<lparr>ib_placeholder = default_placeholder\<rparr>"

definition InjectBodyConfig_new :: "string \<Rightarrow> InjectBodyConfig" where
  "InjectBodyConfig_new p = \<lparr>ib_placeholder = p\<rparr>"

record Sigv4Config =
  sc_access_key :: string

definition Sigv4Config_new :: "string \<Rightarrow> Sigv4Config" where
  "Sigv4Config_new k = \<lparr>sc_access_key = k\<rparr>"

section \<open>The processor configuration\<close>

text \<open>\<open>Multi(MultiProcessorConfig)\<close> holds the vector \<open>processors\<close>.\<close>

datatype ProcessorConfig =
    PcInject InjectConfig
  | PcInjectHmac HmacConfig
  | PcOAuth OAuthConfig
  | PcInjectBody InjectBodyConfig
  | PcSigv4 Sigv4Config
  | PcMulti "ProcessorConfig list"

fun processor_type :: "ProcessorConfig \<Rightarrow> string" where
  "processor_type (PcInject _) = ''inject''"
| "processor_type (PcInjectHmac _) = ''inject_hmac''"
| "processor_type (PcOAuth _) = ''oauth''"
| "processor_type (PcInjectBody _) = ''inject_body''"
| "processor_type (PcSigv4 _) = ''sigv4''"
| "processor_type (PcMulti _) = ''multi''"

fun config_is_body_processor :: "ProcessorConfig \<Rightarrow> bool" where
  "config_is_body_processor (PcInjectBody _) = True"
| "config_is_body_processor (PcInjectHmac c) = hc_sign_body c"
| "config_is_body_processor (PcMulti ps) = list_ex config_is_body_processor ps"
| "config_is_body_processor _ = False"

fun is_multi :: "ProcessorConfig \<Rightarrow> bool" where
  "is_multi (PcMulti _) = True"
| "is_multi _ = False"

text \<open>
  \<open>MultiProcessorConfig::validate\<close>. The loop returns at the first nested \<open>Multi\<close>, and counts
  body processors otherwise; the count is compared after the loop. The counter is a \<open>u32\<close> in the
  source; a vector that overflows it has over four thousand million elements, so the model
  counts in \<open>nat\<close>.
\<close>

fun multi_loop :: "nat \<Rightarrow> nat \<Rightarrow> ProcessorConfig list \<Rightarrow> (string, nat) result" where
  "multi_loop i cnt [] = Ok cnt"
| "multi_loop i cnt (p # ps) =
     (if is_multi p
      then Err (''nested multi-processor at index '' @ nat_to_string i @ '' is not allowed'')
      else multi_loop (Suc i) (if config_is_body_processor p then Suc cnt else cnt) ps)"

definition multi_validate :: "ProcessorConfig list \<Rightarrow> (string, unit) result" where
  "multi_validate ps =
     (if ps = [] then Err ''multi-processor config must contain at least one processor''
      else bindR (multi_loop 0 0 ps) (\<lambda>cnt.
        if cnt > 1 then Err (''at most one body processor allowed, found '' @ nat_to_string cnt)
        else Ok ()))"

lemma multi_loop_Ok_iff:
  "multi_loop i n ps = Ok m \<longleftrightarrow>
     (\<forall>p \<in> set ps. \<not> is_multi p) \<and> m = n + length (filter config_is_body_processor ps)"
  by (induction ps arbitrary: i n) auto

lemma multi_validate_Ok_iff:
  "multi_validate ps = Ok () \<longleftrightarrow>
     ps \<noteq> [] \<and> (\<forall>p \<in> set ps. \<not> is_multi p) \<and> length (filter config_is_body_processor ps) \<le> 1"
  by (auto simp: multi_validate_def multi_loop_Ok_iff split: if_splits)

text \<open>\<open>CachedOAuthToken\<close>: expiry against a monotonic clock reading, in nanoseconds.\<close>

record CachedOAuthToken =
  cot_access_token :: string
  cot_expires_at :: nat
  cot_refresh_token :: "string option"

definition cot_is_expired :: "CachedOAuthToken \<Rightarrow> nat \<Rightarrow> bool" where
  "cot_is_expired t now \<longleftrightarrow> now \<ge> cot_expires_at t"

definition cot_expires_within :: "CachedOAuthToken \<Rightarrow> nat \<Rightarrow> nat \<Rightarrow> bool" where
  "cot_expires_within t now d \<longleftrightarrow> now + d \<ge> cot_expires_at t"

lemma cot_expires_within_mono:
  "cot_expires_within t now d \<Longrightarrow> d \<le> d' \<Longrightarrow> cot_expires_within t now d'"
  by (simp add: cot_expires_within_def)

lemma cot_expires_within_0: "cot_expires_within t now 0 \<longleftrightarrow> cot_is_expired t now"
  by (simp add: cot_expires_within_def cot_is_expired_def)

end
