(* ===== verification/Token.thy ===== *)
theory Token
  imports Processor_Config Config
begin

text \<open>
  Sealed tokens and their payload, \<open>crates/icebreaker-common/src/token.rs\<close>: expiration with
  clock skew, the authority parser \<open>split_host_port\<close>, the host, method and path constraints, the
  payload builder, replay-protection and OAuth metadata, and the header form of a sealed token.

  Parameters that stand for code outside the repository: \<open>rx\<close> compiles a pattern under a size
  limit (\<open>regex::RegexBuilder\<close>), giving the error text or the compiled expression as its
  \<open>is_match\<close> function; \<open>B\<close> is the base64 engine and \<open>J\<close> the JSON serialisation of a
  \<open>SealedToken\<close>. The wall clock (\<open>SystemTime::now()\<close>, seconds since the epoch) is the argument
  \<open>now\<close>. Arithmetic on \<open>u64\<close> wraps, as it does in a release build.
\<close>

section \<open>Expiration status and upstream scheme\<close>

datatype ExpirationStatus = Valid | Expired | NoExpiration | FutureDated (seconds_ahead: u64)

fun es_is_valid :: "ExpirationStatus \<Rightarrow> bool" where
  "es_is_valid Valid = True"
| "es_is_valid NoExpiration = True"
| "es_is_valid _ = False"

fun es_is_expired :: "ExpirationStatus \<Rightarrow> bool" where
  "es_is_expired Expired = True"
| "es_is_expired _ = False"

fun es_is_future_dated :: "ExpirationStatus \<Rightarrow> bool" where
  "es_is_future_dated (FutureDated _) = True"
| "es_is_future_dated _ = False"

datatype UpstreamScheme = Http | Https

definition UpstreamScheme_default :: UpstreamScheme where
  "UpstreamScheme_default = Https"

fun scheme_str :: "UpstreamScheme \<Rightarrow> string" where
  "scheme_str Http = ''http''"
| "scheme_str Https = ''https''"

fun default_port :: "UpstreamScheme \<Rightarrow> u16" where
  "default_port Http = 80"
| "default_port Https = 443"

text \<open>\<open>{:?}\<close> of a string: quoted, with the quote, the backslash and the usual controls escaped.\<close>

definition str_debug :: "string \<Rightarrow> string" where
  "str_debug s = [CHR 0x22] @ concat (map (\<lambda>c.
     if c = CHR 0x22 then [CHR 0x5C, CHR 0x22]
     else if c = CHR 0x5C then [CHR 0x5C, CHR 0x5C]
     else if c = CHR 0x0A then [CHR 0x5C, CHR ''n'']
     else if c = CHR 0x0D then [CHR 0x5C, CHR ''r'']
     else if c = CHR 0x09 then [CHR 0x5C, CHR ''t'']
     else if c = CHR 0x00 then [CHR 0x5C, CHR ''0'']
     else [c]) s) @ [CHR 0x22]"

definition scheme_from_str :: "string \<Rightarrow> UpstreamScheme tresult" where
  "scheme_from_str s = (let t = to_lower s in
     if t = ''http'' then Ok Http
     else if t = ''https'' then Ok Https
     else Err (InvalidPayload (''invalid upstream scheme '' @ str_debug t @
       '': expected '' @ str_debug ''http'' @ '' or '' @ str_debug ''https'')))"

lemma scheme_from_str_roundtrip: "scheme_from_str (scheme_str s) = Ok s"
  by (cases s) (simp_all add: scheme_from_str_def to_lower_def ascii_lower_def
      ascii_upper_letters_def ascii_lower_letters_def)

section \<open>Sealed tokens and their header form\<close>

record SealedToken =
  st_version :: u8
  st_key_id :: string
  st_ciphertext :: string

definition CURRENT_VERSION :: u8 where
  "CURRENT_VERSION = 1"

definition SealedToken_new :: "string \<Rightarrow> string \<Rightarrow> SealedToken" where
  "SealedToken_new key_id ciphertext =
     \<lparr>st_version = CURRENT_VERSION, st_key_id = key_id, st_ciphertext = ciphertext\<rparr>"

text \<open>The base64 engine (\<open>general_purpose::STANDARD\<close>); the error is its rendered text.\<close>

record base64_lib =
  b64_encode :: "bytes \<Rightarrow> string"
  b64_decode :: "string \<Rightarrow> (string, bytes) result"

definition base64_laws :: "base64_lib \<Rightarrow> bool" where
  "base64_laws B \<longleftrightarrow> (\<forall>x. b64_decode B (b64_encode B x) = Ok x)"

text \<open>A serialiser for one type (\<open>serde_json\<close>, \<open>rmp_serde\<close>); errors are their rendered text.\<close>

record 'a serde_lib =
  ser :: "'a \<Rightarrow> (string, bytes) result"
  de :: "bytes \<Rightarrow> (string, 'a) result"

definition serde_laws :: "'a serde_lib \<Rightarrow> bool" where
  "serde_laws J \<longleftrightarrow> (\<forall>x y. ser J x = Ok y \<longrightarrow> de J y = Ok x)"

definition from_header :: "base64_lib \<Rightarrow> SealedToken serde_lib \<Rightarrow> string \<Rightarrow> SealedToken tresult" where
  "from_header B J header =
     bindR (ok_or (strip_prefix ''Tokenizer '' header) (InvalidPayload ''missing Tokenizer prefix''))
       (\<lambda>token_str.
     bindR (map_err (\<lambda>e. InvalidPayload (''base64 decode error: '' @ e)) (b64_decode B token_str))
       (\<lambda>json_bytes.
     map_err (\<lambda>e. InvalidPayload (''json parse error: '' @ e)) (de J json_bytes)))"

definition to_header :: "base64_lib \<Rightarrow> SealedToken serde_lib \<Rightarrow> SealedToken \<Rightarrow> string tresult" where
  "to_header B J t =
     bindR (map_err (\<lambda>e. InternalError (''failed to serialize sealed token: '' @ e)) (ser J t))
       (\<lambda>json. Ok (''Tokenizer '' @ b64_encode B json))"

lemma to_header_from_header:
  assumes "base64_laws B" and "serde_laws J" and "to_header B J t = Ok h"
  shows "from_header B J h = Ok t"
  using assms by (auto simp: to_header_def from_header_def base64_laws_def serde_laws_def)

lemma from_header_needs_prefix:
  "from_header B J h = Ok t \<Longrightarrow> \<exists>r. h = ''Tokenizer '' @ r"
  by (auto simp: from_header_def)

section \<open>Metadata, replay protection, OAuth metadata\<close>

record TokenMetadata =
  tm_token_id :: string
  tm_org_id :: "string option"
  tm_user_id :: "string option"
  tm_name :: "string option"
  tm_tags :: "string list"

definition TokenMetadata_new :: "string \<Rightarrow> TokenMetadata" where
  "TokenMetadata_new i = \<lparr>tm_token_id = i, tm_org_id = None, tm_user_id = None, tm_name = None, tm_tags = []\<rparr>"

record ReplayProtection =
  rp_nonce :: string
  rp_max_uses :: "u32 option"
  rp_nonce_ttl_seconds :: "u64 option"

definition single_use :: "string \<Rightarrow> ReplayProtection" where
  "single_use n = \<lparr>rp_nonce = n, rp_max_uses = Some 1, rp_nonce_ttl_seconds = None\<rparr>"

definition with_max_uses :: "string \<Rightarrow> u32 \<Rightarrow> ReplayProtection" where
  "with_max_uses n m = \<lparr>rp_nonce = n, rp_max_uses = Some m, rp_nonce_ttl_seconds = None\<rparr>"

definition audit_only :: "string \<Rightarrow> ReplayProtection" where
  "audit_only n = \<lparr>rp_nonce = n, rp_max_uses = None, rp_nonce_ttl_seconds = None\<rparr>"

definition rp_with_ttl :: "ReplayProtection \<Rightarrow> u64 \<Rightarrow> ReplayProtection" where
  "rp_with_ttl r t = r\<lparr>rp_nonce_ttl_seconds := Some t\<rparr>"

record OAuthMetadata =
  om_provider_id :: string
  om_refresh_token :: "string option"
  om_token_type :: string
  om_scopes :: "string list"
  om_access_token_expires_at :: "u64 option"

definition default_token_type :: string where
  "default_token_type = ''Bearer''"

definition OAuthMetadata_new :: "string \<Rightarrow> OAuthMetadata" where
  "OAuthMetadata_new p =
     \<lparr>om_provider_id = p, om_refresh_token = None, om_token_type = default_token_type,
      om_scopes = [], om_access_token_expires_at = None\<rparr>"

definition om_with_refresh_token :: "OAuthMetadata \<Rightarrow> string \<Rightarrow> OAuthMetadata" where
  "om_with_refresh_token m t = m\<lparr>om_refresh_token := Some t\<rparr>"
definition om_with_token_type :: "OAuthMetadata \<Rightarrow> string \<Rightarrow> OAuthMetadata" where
  "om_with_token_type m t = m\<lparr>om_token_type := t\<rparr>"
definition om_with_scopes :: "OAuthMetadata \<Rightarrow> string list \<Rightarrow> OAuthMetadata" where
  "om_with_scopes m s = m\<lparr>om_scopes := s\<rparr>"
definition om_with_expires_at :: "OAuthMetadata \<Rightarrow> u64 \<Rightarrow> OAuthMetadata" where
  "om_with_expires_at m t = m\<lparr>om_access_token_expires_at := Some t\<rparr>"
definition has_refresh_token :: "OAuthMetadata \<Rightarrow> bool" where
  "has_refresh_token m \<longleftrightarrow> om_refresh_token m \<noteq> None"

section \<open>The token payload and its builder\<close>

text \<open>
  The two \<open>OnceLock\<close> fields memoise the compiled patterns. No code changes a pattern after the
  payload is built, so the memo is transparent and the model compiles where the source reads it.
\<close>

record TokenPayload =
  tp_secret :: string
  tp_processor :: ProcessorConfig
  tp_auth :: AuthConfig
  tp_allowed_hosts :: "string list"
  tp_allowed_host_pattern :: "string option"
  tp_upstream_scheme :: "UpstreamScheme option"
  tp_expires_at :: "u64 option"
  tp_metadata :: "TokenMetadata option"
  tp_oauth :: "OAuthMetadata option"
  tp_allowed_methods :: "string list"
  tp_allowed_paths :: "string list"
  tp_allowed_path_pattern :: "string option"
  tp_replay_protection :: "ReplayProtection option"

text \<open>The builder has the same fields; \<open>build\<close> checks and copies them.\<close>

type_synonym TokenPayloadBuilder = TokenPayload

definition payload_builder :: "string \<Rightarrow> ProcessorConfig \<Rightarrow> TokenPayloadBuilder" where
  "payload_builder secret processor =
     \<lparr>tp_secret = secret, tp_processor = processor, tp_auth = AuthConfig_default,
      tp_allowed_hosts = [], tp_allowed_host_pattern = None, tp_upstream_scheme = None,
      tp_expires_at = None, tp_metadata = None, tp_oauth = None, tp_allowed_methods = [],
      tp_allowed_paths = [], tp_allowed_path_pattern = None, tp_replay_protection = None\<rparr>"

definition b_auth :: "TokenPayloadBuilder \<Rightarrow> AuthConfig \<Rightarrow> TokenPayloadBuilder" where
  "b_auth b a = b\<lparr>tp_auth := a\<rparr>"
definition b_allowed_host :: "TokenPayloadBuilder \<Rightarrow> string \<Rightarrow> TokenPayloadBuilder" where
  "b_allowed_host b h = b\<lparr>tp_allowed_hosts := tp_allowed_hosts b @ [h]\<rparr>"
definition b_allowed_hosts :: "TokenPayloadBuilder \<Rightarrow> string list \<Rightarrow> TokenPayloadBuilder" where
  "b_allowed_hosts b hs = b\<lparr>tp_allowed_hosts := hs\<rparr>"
definition b_allowed_host_pattern :: "TokenPayloadBuilder \<Rightarrow> string \<Rightarrow> TokenPayloadBuilder" where
  "b_allowed_host_pattern b p = b\<lparr>tp_allowed_host_pattern := Some p\<rparr>"
definition b_upstream_scheme :: "TokenPayloadBuilder \<Rightarrow> UpstreamScheme \<Rightarrow> TokenPayloadBuilder" where
  "b_upstream_scheme b s = b\<lparr>tp_upstream_scheme := Some s\<rparr>"
definition b_allowed_method :: "TokenPayloadBuilder \<Rightarrow> string \<Rightarrow> TokenPayloadBuilder" where
  "b_allowed_method b m = b\<lparr>tp_allowed_methods := tp_allowed_methods b @ [m]\<rparr>"
definition b_allowed_methods :: "TokenPayloadBuilder \<Rightarrow> string list \<Rightarrow> TokenPayloadBuilder" where
  "b_allowed_methods b ms = b\<lparr>tp_allowed_methods := ms\<rparr>"
definition b_allowed_path :: "TokenPayloadBuilder \<Rightarrow> string \<Rightarrow> TokenPayloadBuilder" where
  "b_allowed_path b p = b\<lparr>tp_allowed_paths := tp_allowed_paths b @ [p]\<rparr>"
definition b_allowed_paths :: "TokenPayloadBuilder \<Rightarrow> string list \<Rightarrow> TokenPayloadBuilder" where
  "b_allowed_paths b ps = b\<lparr>tp_allowed_paths := ps\<rparr>"
definition b_allowed_path_pattern :: "TokenPayloadBuilder \<Rightarrow> string \<Rightarrow> TokenPayloadBuilder" where
  "b_allowed_path_pattern b p = b\<lparr>tp_allowed_path_pattern := Some p\<rparr>"
definition b_expires_at :: "TokenPayloadBuilder \<Rightarrow> u64 \<Rightarrow> TokenPayloadBuilder" where
  "b_expires_at b t = b\<lparr>tp_expires_at := Some t\<rparr>"
definition b_metadata :: "TokenPayloadBuilder \<Rightarrow> TokenMetadata \<Rightarrow> TokenPayloadBuilder" where
  "b_metadata b m = b\<lparr>tp_metadata := Some m\<rparr>"
definition b_oauth :: "TokenPayloadBuilder \<Rightarrow> OAuthMetadata \<Rightarrow> TokenPayloadBuilder" where
  "b_oauth b m = b\<lparr>tp_oauth := Some m\<rparr>"
definition b_replay_protection :: "TokenPayloadBuilder \<Rightarrow> ReplayProtection \<Rightarrow> TokenPayloadBuilder" where
  "b_replay_protection b r = b\<lparr>tp_replay_protection := Some r\<rparr>"

definition build_payload :: "TokenPayloadBuilder \<Rightarrow> TokenPayload tresult" where
  "build_payload b =
     (if tp_replay_protection b \<noteq> None \<and> tp_expires_at b = None
      then Err ReplayProtectionRequiresExpiry
      else Ok b)"

text \<open>The well-formedness every built payload has: replay protection comes with an expiry.\<close>

definition payload_wf :: "TokenPayload \<Rightarrow> bool" where
  "payload_wf p \<longleftrightarrow> (tp_replay_protection p \<noteq> None \<longrightarrow> tp_expires_at p \<noteq> None)"

lemma build_payload_wf: "build_payload b = Ok p \<Longrightarrow> payload_wf p \<and> p = b"
  by (auto simp: build_payload_def payload_wf_def split: if_splits)

lemma build_payload_Err_iff: "(\<exists>e. build_payload b = Err e) \<longleftrightarrow> \<not> payload_wf b"
  by (auto simp: build_payload_def payload_wf_def)

section \<open>Expiration with clock skew\<close>

text \<open>
  \<open>TokenPayload::check_expiration\<close> and \<open>OAuthMetadata::check_access_token_expiration\<close> have the
  same body over their own expiry field; \<open>check_expiry\<close> is that body.
\<close>

definition check_expiry :: "ClockSkewConfig \<Rightarrow> u64 option \<Rightarrow> u64 \<Rightarrow> ExpirationStatus" where
  "check_expiry cs expires now =
     (case expires of
        None \<Rightarrow> NoExpiration
      | Some expires_at \<Rightarrow>
          (case max_future_seconds cs of
             Some max_future \<Rightarrow>
               if expires_at > now + max_future then FutureDated (expires_at - now - max_future)
               else if now > expires_at + tolerance_seconds cs then Expired else Valid
           | None \<Rightarrow> if now > expires_at + tolerance_seconds cs then Expired else Valid))"

definition check_expiration :: "TokenPayload \<Rightarrow> ClockSkewConfig \<Rightarrow> u64 \<Rightarrow> ExpirationStatus" where
  "check_expiration p cs now = check_expiry cs (tp_expires_at p) now"

definition check_access_token_expiration :: "OAuthMetadata \<Rightarrow> ClockSkewConfig \<Rightarrow> u64 \<Rightarrow> ExpirationStatus" where
  "check_access_token_expiration m cs now = check_expiry cs (om_access_token_expires_at m) now"

definition tp_is_expired :: "TokenPayload \<Rightarrow> u64 \<Rightarrow> bool" where
  "tp_is_expired p now = (case tp_expires_at p of Some e \<Rightarrow> now \<ge> e | None \<Rightarrow> False)"

definition is_access_token_expired :: "OAuthMetadata \<Rightarrow> u64 \<Rightarrow> bool" where
  "is_access_token_expired m now =
     (case om_access_token_expires_at m of Some e \<Rightarrow> now \<ge> e | None \<Rightarrow> False)"

text \<open>The same decision over unbounded naturals: what the documentation of the function states.\<close>

datatype expiry_spec = SValid | SExpired | SNone | SFuture nat

definition spec_expiry :: "nat \<Rightarrow> nat option \<Rightarrow> nat option \<Rightarrow> nat \<Rightarrow> expiry_spec" where
  "spec_expiry tol maxf expires now =
     (case expires of
        None \<Rightarrow> SNone
      | Some e \<Rightarrow>
          if (\<exists>m. maxf = Some m \<and> e > now + m) then SFuture (e - now - the maxf)
          else if now > e + tol then SExpired else SValid)"

fun abs_status :: "ExpirationStatus \<Rightarrow> expiry_spec" where
  "abs_status Valid = SValid"
| "abs_status Expired = SExpired"
| "abs_status NoExpiration = SNone"
| "abs_status (FutureDated s) = SFuture (unat s)"

definition no_clock_overflow :: "ClockSkewConfig \<Rightarrow> u64 option \<Rightarrow> u64 \<Rightarrow> bool" where
  "no_clock_overflow cs expires now \<longleftrightarrow>
     (case max_future_seconds cs of None \<Rightarrow> True | Some m \<Rightarrow> unat now + unat m < 2 ^ 64) \<and>
     (case expires of None \<Rightarrow> True | Some e \<Rightarrow> unat e + unat (tolerance_seconds cs) < 2 ^ 64)"

lemma check_expiry_refines_spec:
  assumes "no_clock_overflow cs expires now"
  shows "abs_status (check_expiry cs expires now) =
     spec_expiry (unat (tolerance_seconds cs)) (map_option unat (max_future_seconds cs))
       (map_option unat expires) (unat now)"
proof (cases expires)
  case None
  then show ?thesis by (simp add: check_expiry_def spec_expiry_def)
next
  case (Some e)
  have tol: "unat (e + tolerance_seconds cs) = unat e + unat (tolerance_seconds cs)"
    using assms Some by (intro unat_add_no_overflow) (simp add: no_clock_overflow_def)
  show ?thesis
  proof (cases "max_future_seconds cs")
    case None
    with Some tol show ?thesis
      by (simp add: check_expiry_def spec_expiry_def word_less_nat_alt)
  next
    case (Some m)
    have fut: "unat (now + m) = unat now + unat m"
      using assms Some by (intro unat_add_no_overflow) (simp add: no_clock_overflow_def)
    have diff: "unat (e - now - m) = unat e - unat now - unat m" if "unat e > unat now + unat m"
    proof -
      have "now \<le> e" using that by (simp add: word_le_nat_alt)
      then have "unat (e - now) = unat e - unat now" by (rule unat_sub)
      moreover from this that have "m \<le> e - now" by (simp add: word_le_nat_alt)
      then have "unat (e - now - m) = unat (e - now) - unat m" by (rule unat_sub)
      ultimately show ?thesis by simp
    qed
    show ?thesis
      using Some \<open>expires = Some e\<close> tol fut diff
      by (simp add: check_expiry_def spec_expiry_def word_less_nat_alt)
  qed
qed

lemma spec_expiry_mono_time:
  "spec_expiry tol maxf (Some e) now = SExpired \<Longrightarrow> now \<le> now' \<Longrightarrow>
   spec_expiry tol maxf (Some e) now' = SExpired"
  by (auto simp: spec_expiry_def split: if_splits)

section \<open>Properties\<close>

text \<open>
  A serialiser for sealed tokens and a byte-to-character codec, to show that the laws above can
  hold: the version, the length of the key id in unary, the key id, the ciphertext.
\<close>

definition plain_base64 :: base64_lib where
  "plain_base64 = \<lparr>b64_encode = chars_of, b64_decode = (\<lambda>s. Ok (as_bytes s))\<rparr>"

definition plain_token_serde :: "SealedToken serde_lib" where
  "plain_token_serde =
     \<lparr>ser = (\<lambda>t. Ok (st_version t # replicate (length (st_key_id t)) 1 @ 0 #
                      as_bytes (st_key_id t) @ as_bytes (st_ciphertext t))),
      de = (\<lambda>b. let n = length (takeWhile (\<lambda>x. x = 1) (tl b)); r = drop (n + 2) b
                in Ok \<lparr>st_version = hd b, st_key_id = chars_of (take n r),
                       st_ciphertext = chars_of (drop n r)\<rparr>)\<rparr>"

lemma plain_base64_laws: "base64_laws plain_base64"
  by (simp add: base64_laws_def plain_base64_def)

lemma plain_token_serde_laws: "serde_laws plain_token_serde"
  by (auto simp: serde_laws_def plain_token_serde_def Let_def takeWhile_append)

text \<open>
  Note. Printing a sealed token as a header value and parsing it back gives the token.
\<close>

theorem header_roundtrip:
  assumes "base64_laws B" and "serde_laws J" and "to_header B J t = Ok h"
  shows "from_header B J h = Ok t"
  using assms by (rule to_header_from_header)

theorem header_roundtrip_witness:
  "\<exists>h. to_header plain_base64 plain_token_serde (SealedToken_new ''k1'' ''xyz'') = Ok h \<and>
     from_header plain_base64 plain_token_serde h = Ok (SealedToken_new ''k1'' ''xyz'')"
proof -
  obtain h where h: "to_header plain_base64 plain_token_serde (SealedToken_new ''k1'' ''xyz'') = Ok h"
    by (simp add: to_header_def plain_token_serde_def)
  from header_roundtrip [OF plain_base64_laws plain_token_serde_laws h] h show ?thesis by blast
qed

text \<open>
  Property C39. While no sum overflows, the expiration check on 64-bit timestamps is the documented
  decision over the integers: future-dated beyond the allowance, expired past the tolerance, valid
  otherwise.
\<close>

theorem check_expiration_refines:
  assumes "no_clock_overflow cs (tp_expires_at p) now"
  shows "abs_status (check_expiration p cs now) =
     spec_expiry (unat (tolerance_seconds cs)) (map_option unat (max_future_seconds cs))
       (map_option unat (tp_expires_at p)) (unat now)"
  unfolding check_expiration_def using assms by (rule check_expiry_refines_spec)

theorem check_expiration_refines_witness:
  "abs_status (check_expiration (b_expires_at (payload_builder ''s'' (PcMulti [])) 1000)
      (with_tolerance 30) 1031) = SExpired"
  using check_expiration_refines [of "with_tolerance 30"
      "b_expires_at (payload_builder ''s'' (PcMulti [])) 1000" 1031]
  by (simp add: b_expires_at_def payload_builder_def with_tolerance_def no_clock_overflow_def
      spec_expiry_def ClockSkewConfig_default_def)

text \<open>
  Note. An expiry close to the largest timestamp wraps: with a positive tolerance the sum is
  small, and the check reports a token that expires in the far future as expired.
\<close>

theorem check_expiration_wraps:
  assumes "tp_expires_at p = Some (- 1)" and "max_future_seconds cs = None"
    and "0 < tolerance_seconds cs" and "tolerance_seconds cs \<le> now"
  shows "check_expiration p cs now = Expired"
proof -
  have "tolerance_seconds cs - 1 < now"
    using assms(3,4) by (metis measure_unat word_le_less_eq word_less_nat_alt order_less_le_trans
        word_gt_0)
  with assms(1,2) show ?thesis by (simp add: check_expiration_def check_expiry_def)
qed

theorem check_expiration_wraps_witness:
  "check_expiration (b_expires_at (payload_builder ''s'' (PcMulti [])) (- 1)) 
      (with_max_future (with_tolerance 30) None) 1000 = Expired"
  using check_expiration_wraps [of "b_expires_at (payload_builder ''s'' (PcMulti [])) (- 1)"
      "with_max_future (with_tolerance 30) None" 1000]
  by (simp add: b_expires_at_def payload_builder_def with_tolerance_def
      with_max_future_def)

text \<open>
  Note. The builder hands out a payload exactly when replay protection comes with an expiry,
  and the payload is what was configured.
\<close>

theorem build_payload_spec:
  "build_payload b = (if payload_wf b then Ok b else Err ReplayProtectionRequiresExpiry)"
  by (auto simp: build_payload_def payload_wf_def)

end
