(* ===== verification/Constraints.thy ===== *)
theory Constraints
  imports Token
begin

text \<open>
  The constraints a token puts on a request, \<open>crates/icebreaker-common/src/token.rs\<close>: the
  authority parser, the anchoring of patterns, and \<open>validate_host\<close>, \<open>validate_method\<close> and
  \<open>validate_path\<close>. The locale \<open>port_aware_matcher\<close> is the contract "a bare entry matches any port,
  a pinned entry only its port" that the token allowlist and the static host policy share; it is
  interpreted here for the token's loop and in \<open>Host_Policy\<close> for the policy's host sets.
\<close>

section \<open>The authority parser\<close>

definition split_host_port :: "string \<Rightarrow> string \<times> u16 option" where
  "split_host_port authority =
     (case strip_prefix ''['' authority of
        Some rest \<Rightarrow>
          (case find_char (CHR '']'') rest of
             Some e \<Rightarrow>
               (let host_with_brackets = take (e + 2) authority; after = drop (e + 2) authority
                in (host_with_brackets, Option.bind (strip_prefix '':'' after) parse_u16))
           | None \<Rightarrow> (authority, None))
      | None \<Rightarrow>
          (case rfind_char (CHR '':'') authority of
             Some idx \<Rightarrow>
               if CHR '':'' \<notin> set (take idx authority)
               then (case parse_u16 (drop (idx + 1) authority) of
                       Some port \<Rightarrow> (take idx authority, Some port)
                     | None \<Rightarrow> (authority, None))
               else (authority, None)
           | None \<Rightarrow> (authority, None)))"

text \<open>The authority text of a host and a port.\<close>

definition join_host_port :: "string \<Rightarrow> u16 \<Rightarrow> string" where
  "join_host_port h p = h @ '':'' @ nat_to_string (unat p)"

definition bare_host :: "string \<Rightarrow> bool" where
  "bare_host h \<longleftrightarrow> CHR '':'' \<notin> set h \<and> \<not> starts_with ''['' h"

definition bracketed_host :: "string \<Rightarrow> bool" where
  "bracketed_host h \<longleftrightarrow> (\<exists>m. h = ''['' @ m @ '']'' \<and> CHR '']'' \<notin> set m)"

lemma nat_to_string_no_colon [simp]: "CHR '':'' \<notin> set (nat_to_string n)"
  using nat_to_string_not_special [of "CHR '':''" n] by auto

lemma strip_bracket_None: "\<not> starts_with ''['' h \<Longrightarrow> strip_prefix ''['' h = None"
  unfolding starts_with_def by blast

lemma split_bare_host: "bare_host h \<Longrightarrow> split_host_port h = (h, None)"
proof -
  assume h: "bare_host h"
  then have "rfind_char (CHR '':'') h = None" and "strip_prefix ''['' h = None"
    by (simp_all add: bare_host_def strip_bracket_None)
  then show ?thesis by (simp only: split_host_port_def option.case)
qed

lemma starts_with_append: "\<not> starts_with [c] h \<Longrightarrow> h \<noteq> [] \<Longrightarrow> \<not> starts_with [c] (h @ t)"
  by (cases h) (auto simp: starts_with_def)

lemma split_bare_join:
  assumes "bare_host h"
  shows "split_host_port (join_host_port h p) = (h, Some p)"
proof -
  have col: "CHR '':'' \<notin> set h" and nb: "\<not> starts_with ''['' h"
    using assms by (auto simp: bare_host_def)
  have strip: "strip_prefix ''['' (join_host_port h p) = None"
  proof (cases "h = []")
    case True
    then show ?thesis by (simp add: join_host_port_def)
  next
    case False
    with nb show ?thesis
      by (simp add: join_host_port_def strip_bracket_None starts_with_append)
  qed
  have rf: "rfind_char (CHR '':'') (join_host_port h p) = Some (length h)"
    by (simp add: join_host_port_def)
  have tk: "take (length h) (join_host_port h p) = h"
    and dr: "drop (length h + 1) (join_host_port h p) = nat_to_string (unat p)"
    by (simp_all add: join_host_port_def)
  show ?thesis
    unfolding split_host_port_def strip rf option.case tk dr using col by simp
qed

lemma split_bracketed:
  assumes "bracketed_host h"
  shows "split_host_port h = (h, None)" and "split_host_port (join_host_port h p) = (h, Some p)"
proof -
  from assms obtain m where h: "h = ''['' @ m @ '']''" and m: "CHR '']'' \<notin> set m"
    by (auto simp: bracketed_host_def)
  have f: "find_char (CHR '']'') (m @ '']'' @ t) = Some (length m)" for t
    using m by simp
  have split: "split_host_port (h @ t) = (h, Option.bind (strip_prefix '':'' t) parse_u16)" for t
  proof -
    have s: "strip_prefix ''['' (h @ t) = Some (m @ '']'' @ t)" by (simp add: h)
    have "take (length m + 2) (h @ t) = h" "drop (length m + 2) (h @ t) = t"
      by (simp_all add: h)
    then show ?thesis
      unfolding split_host_port_def s option.case f by (simp add: Let_def)
  qed
  show "split_host_port h = (h, None)" using split [of "[]"] by simp
  show "split_host_port (join_host_port h p) = (h, Some p)"
    using split [of "'':'' @ nat_to_string (unat p)"] by (simp add: join_host_port_def)
qed

section \<open>The contract of a port-aware host list\<close>

definition entry_matches :: "string \<Rightarrow> string \<Rightarrow> u16 option \<Rightarrow> bool" where
  "entry_matches entry req_host req_port \<longleftrightarrow>
     (let (entry_host, entry_port) = split_host_port entry
      in entry_host = req_host \<and> (entry_port = None \<or> entry_port = req_port))"

locale port_aware_matcher =
  fixes matches :: "string list \<Rightarrow> string \<Rightarrow> u16 option \<Rightarrow> bool"
  assumes matches_Nil: "\<not> matches [] h p"
    and matches_Cons: "matches (e # es) h p \<longleftrightarrow> entry_matches e h p \<or> matches es h p"
begin

lemma matches_iff: "matches es h p \<longleftrightarrow> (\<exists>e \<in> set es. entry_matches e h p)"
  by (induction es) (simp_all add: matches_Nil matches_Cons)

lemma matches_set: "set es = set es' \<Longrightarrow> matches es h p \<longleftrightarrow> matches es' h p"
  by (simp add: matches_iff)

lemma matches_mono: "set es \<subseteq> set es' \<Longrightarrow> matches es h p \<Longrightarrow> matches es' h p"
  by (auto simp: matches_iff)

lemma bare_entry_any_port: "h \<in> set es \<Longrightarrow> split_host_port h = (h, None) \<Longrightarrow> matches es h p"
  unfolding matches_iff by (rule bexI [of _ h]) (simp_all add: entry_matches_def)

lemma only_pinned_entry:
  assumes "\<forall>e \<in> set es. fst (split_host_port e) = h \<longrightarrow> snd (split_host_port e) = Some q"
    and "matches es h p"
  shows "p = Some q"
  using assms by (auto simp: matches_iff entry_matches_def)

end

section \<open>Anchoring and compiling a pattern\<close>

type_synonym regex = "string \<Rightarrow> bool"
type_synonym regex_lib = "string \<Rightarrow> nat \<Rightarrow> (string, regex) result"

definition HOST_PATTERN_REGEX_SIZE_LIMIT :: nat where
  "HOST_PATTERN_REGEX_SIZE_LIMIT = 10 * 1024"

definition PATH_PATTERN_REGEX_SIZE_LIMIT :: nat where
  "PATH_PATTERN_REGEX_SIZE_LIMIT = 10 * 1024"

definition anchor_pattern :: "string \<Rightarrow> string" where
  "anchor_pattern pattern =
     (if starts_with ''^'' pattern \<and> ends_with ''$'' pattern then pattern
      else if starts_with ''^'' pattern then pattern @ ''$''
      else if ends_with ''$'' pattern then ''^'' @ pattern
      else ''^(?:'' @ pattern @ '')$'')"

definition compile_anchored_regex :: "regex_lib \<Rightarrow> string \<Rightarrow> nat \<Rightarrow> (string, regex) result" where
  "compile_anchored_regex rx pattern size_limit = rx (anchor_pattern pattern) size_limit"

lemma anchor_pattern_anchored:
  "starts_with ''^'' (anchor_pattern p) \<and> ends_with ''$'' (anchor_pattern p)"
proof -
  consider (both) "starts_with ''^'' p" "ends_with ''$'' p"
    | (start) "starts_with ''^'' p" "\<not> ends_with ''$'' p"
    | (stop) "\<not> starts_with ''^'' p" "ends_with ''$'' p"
    | (none) "\<not> starts_with ''^'' p" "\<not> ends_with ''$'' p" by blast
  then show ?thesis
  proof cases
    case both
    then show ?thesis by (simp add: anchor_pattern_def)
  next
    case start
    then have "anchor_pattern p = p @ ''$''" by (simp add: anchor_pattern_def)
    with start(1) show ?thesis by (auto simp: str_simps)
  next
    case stop
    then have "anchor_pattern p = ''^'' @ p" by (simp add: anchor_pattern_def)
    with stop(2) show ?thesis by (auto simp: str_simps)
  next
    case none
    then have "anchor_pattern p = ''^(?:'' @ p @ '')$''" by (simp add: anchor_pattern_def)
    then have "anchor_pattern p = ''^'' @ (''(?:'' @ p @ '')$'')"
      and "anchor_pattern p = (''^(?:'' @ p @ '')'') @ ''$''" by simp_all
    then show ?thesis unfolding starts_with_iff ends_with_iff by blast
  qed
qed

lemma anchor_pattern_idem: "anchor_pattern (anchor_pattern p) = anchor_pattern p"
  using anchor_pattern_anchored [of p] by (simp add: anchor_pattern_def [of "anchor_pattern p"])

section \<open>Host, method and path\<close>

text \<open>The loop over \<open>allowed_hosts\<close>: \<open>True\<close> is the early \<open>return Ok(())\<close>.\<close>

fun host_loop :: "string list \<Rightarrow> string \<Rightarrow> u16 option \<Rightarrow> bool" where
  "host_loop [] req_host req_port = False"
| "host_loop (entry # rest) req_host req_port =
     (let (entry_host, entry_port) = split_host_port entry in
      if entry_host \<noteq> req_host then host_loop rest req_host req_port
      else case entry_port of
             None \<Rightarrow> True
           | Some p \<Rightarrow> if Some p = req_port then True else host_loop rest req_host req_port)"

definition validate_host :: "regex_lib \<Rightarrow> TokenPayload \<Rightarrow> string \<Rightarrow> unit tresult" where
  "validate_host rx self host =
     (let (req_host, req_port) = split_host_port host in
      if host_loop (tp_allowed_hosts self) req_host req_port then Ok ()
      else case tp_allowed_host_pattern self of
             Some pattern \<Rightarrow>
               bindR (map_err (\<lambda>e. ConfigError (''invalid host pattern: '' @ e))
                        (compile_anchored_regex rx pattern HOST_PATTERN_REGEX_SIZE_LIMIT))
                 (\<lambda>re. if re req_host then Ok () else Err (HostNotAllowed host))
           | None \<Rightarrow> Err (HostNotAllowed host))"

definition validate_method :: "TokenPayload \<Rightarrow> string \<Rightarrow> unit tresult" where
  "validate_method self method =
     (if tp_allowed_methods self = [] then Ok ()
      else if list_ex (\<lambda>m. eq_ignore_ascii_case m method) (tp_allowed_methods self) then Ok ()
      else Err (MethodNotAllowed method))"

definition validate_path :: "regex_lib \<Rightarrow> TokenPayload \<Rightarrow> string \<Rightarrow> unit tresult" where
  "validate_path rx self path =
     (if tp_allowed_paths self = [] \<and> tp_allowed_path_pattern self = None then Ok ()
      else if list_ex (\<lambda>p. p = path) (tp_allowed_paths self) then Ok ()
      else case tp_allowed_path_pattern self of
             Some pattern \<Rightarrow>
               bindR (map_err (\<lambda>e. ConfigError (''invalid path pattern: '' @ e))
                        (compile_anchored_regex rx pattern PATH_PATTERN_REGEX_SIZE_LIMIT))
                 (\<lambda>re. if re path then Ok () else Err (PathNotAllowed path))
           | None \<Rightarrow> Err (PathNotAllowed path))"

interpretation token_hosts: port_aware_matcher host_loop
  by unfold_locales (auto simp: entry_matches_def split: prod.splits option.splits)

text \<open>A pattern that compiles and accepts.\<close>

definition pattern_accepts :: "regex_lib \<Rightarrow> string option \<Rightarrow> nat \<Rightarrow> string \<Rightarrow> bool" where
  "pattern_accepts rx pat limit s =
     (case pat of None \<Rightarrow> False
      | Some p \<Rightarrow> (case compile_anchored_regex rx p limit of Inl _ \<Rightarrow> False | Inr re \<Rightarrow> re s))"

lemma validate_host_Ok_iff:
  "validate_host rx p host = Ok () \<longleftrightarrow>
     (\<exists>e \<in> set (tp_allowed_hosts p).
        entry_matches e (fst (split_host_port host)) (snd (split_host_port host))) \<or>
     pattern_accepts rx (tp_allowed_host_pattern p) HOST_PATTERN_REGEX_SIZE_LIMIT (fst (split_host_port host))"
  by (auto simp: validate_host_def pattern_accepts_def token_hosts.matches_iff
      split: prod.splits option.splits sum.splits)

lemma validate_host_error:
  "validate_host rx p host = Err e \<Longrightarrow> e = HostNotAllowed host \<or> (\<exists>m. e = ConfigError m)"
  by (auto simp: validate_host_def bindR_eq_Inl map_err_eq_Inl
      split: prod.splits option.splits if_splits)

lemma validate_host_no_constraint:
  "tp_allowed_hosts p = [] \<Longrightarrow> tp_allowed_host_pattern p = None \<Longrightarrow>
   validate_host rx p host = Err (HostNotAllowed host)"
  by (simp add: validate_host_def split: prod.splits)

lemma validate_method_Ok_iff:
  "validate_method p m = Ok () \<longleftrightarrow>
     tp_allowed_methods p = [] \<or> (\<exists>x \<in> set (tp_allowed_methods p). eq_ignore_ascii_case x m)"
  by (auto simp: validate_method_def list_ex_iff)

lemma validate_path_Ok_iff:
  "validate_path rx p path = Ok () \<longleftrightarrow>
     (tp_allowed_paths p = [] \<and> tp_allowed_path_pattern p = None) \<or> path \<in> set (tp_allowed_paths p) \<or>
     pattern_accepts rx (tp_allowed_path_pattern p) PATH_PATTERN_REGEX_SIZE_LIMIT path"
  by (auto simp: validate_path_def pattern_accepts_def list_ex_iff split: option.splits sum.splits)

text \<open>
  A pattern that already has both anchors is compiled as it is, without a group. Over an
  expression library in which \<open>|\<close> separates alternatives of the whole pattern and \<open>^lit\<close>
  matches every text that starts with the literal, such a pattern accepts host names that only
  start with one of its alternatives.
\<close>

definition alternation_law :: "regex_lib \<Rightarrow> string \<Rightarrow> string \<Rightarrow> bool" where
  "alternation_law rx l r \<longleftrightarrow>
     (\<forall>n. \<exists>f g. rx (''^'' @ l) n = Ok f \<and> (\<forall>s. f s = starts_with l s) \<and>
        rx (''^'' @ l @ ''|'' @ r @ ''$'') n = Ok g \<and> (\<forall>s. f s \<longrightarrow> g s))"

lemma anchored_alternation_is_open:
  assumes "alternation_law rx l r"
    and "tp_allowed_host_pattern p = Some (''^'' @ l @ ''|'' @ r @ ''$'')"
    and "split_host_port (l @ t) = (l @ t, None)"
  shows "validate_host rx p (l @ t) = Ok ()"
proof -
  let ?pat = "''^'' @ l @ ''|'' @ r @ ''$''"
  have "starts_with ''^'' ?pat" and "ends_with ''$'' ?pat"
    unfolding starts_with_iff ends_with_iff
    by (blast, rule exI [of _ "''^'' @ l @ ''|'' @ r"], simp)
  then have "anchor_pattern ?pat = ?pat" by (simp add: anchor_pattern_def)
  moreover from assms(1) obtain g where
    "rx ?pat HOST_PATTERN_REGEX_SIZE_LIMIT = Ok g" "\<forall>s. starts_with l s \<longrightarrow> g s"
    unfolding alternation_law_def by metis
  moreover have "starts_with l (l @ t)" by (simp add: starts_with_iff)
  ultimately have "pattern_accepts rx (Some ?pat) HOST_PATTERN_REGEX_SIZE_LIMIT (l @ t)"
    by (simp add: pattern_accepts_def compile_anchored_regex_def)
  with assms(2,3) show ?thesis by (simp add: validate_host_Ok_iff)
qed

section \<open>Properties\<close>

text \<open>
  Note. A token lets a request's authority through exactly when an allowlist entry names
  its host, with no port or the same one, or the token's pattern compiles and accepts the host.
\<close>

theorem validate_host_exact:
  "validate_host rx p host = Ok () \<longleftrightarrow>
     (\<exists>e \<in> set (tp_allowed_hosts p).
        entry_matches e (fst (split_host_port host)) (snd (split_host_port host))) \<or>
     pattern_accepts rx (tp_allowed_host_pattern p) HOST_PATTERN_REGEX_SIZE_LIMIT
       (fst (split_host_port host))"
  by (rule validate_host_Ok_iff)

theorem validate_host_exact_witness:
  "validate_host (\<lambda>_ _. Err ''no regex'') (b_allowed_host (payload_builder ''s'' (PcMulti [])) ''a.io:443'')
     ''a.io:443'' = Ok ()"
  using validate_host_exact [of "\<lambda>_ _. Err ''no regex''"
      "b_allowed_host (payload_builder ''s'' (PcMulti [])) ''a.io:443''" "''a.io:443''"]
  by (simp add: b_allowed_host_def payload_builder_def entry_matches_def split: prod.split)

text \<open>
  Note. A host that the allowlist pins to one port, with no pattern, is refused on every
  other port and when the authority gives no port.
\<close>

theorem pinned_port_enforced:
  assumes "bare_host h \<or> bracketed_host h" and "tp_allowed_hosts p = [join_host_port h q]"
    and "tp_allowed_host_pattern p = None"
  shows "validate_host rx p (join_host_port h r) =
           (if r = q then Ok () else Err (HostNotAllowed (join_host_port h r))) \<and>
         validate_host rx p h = Err (HostNotAllowed h)"
proof -
  have "split_host_port (join_host_port h r) = (h, Some r)" for r
    using assms(1) split_bare_join split_bracketed(2) by blast
  moreover have "split_host_port h = (h, None)"
    using assms(1) split_bare_host split_bracketed(1) by blast
  ultimately show ?thesis using assms(2,3) by (simp add: validate_host_def)
qed

theorem pinned_port_enforced_witness:
  "validate_host (\<lambda>_ _. Err []) (b_allowed_host (payload_builder ''s'' (PcMulti [])) (join_host_port ''a.io'' 443))
     (join_host_port ''a.io'' 80) = Err (HostNotAllowed (join_host_port ''a.io'' 80))"
  using pinned_port_enforced [of "''a.io''"
      "b_allowed_host (payload_builder ''s'' (PcMulti [])) (join_host_port ''a.io'' 443)" 443 "\<lambda>_ _. Err []" 80]
  by (simp add: bare_host_def b_allowed_host_def payload_builder_def starts_with_def)

text \<open>
  Note. A pattern written with both anchors around an alternation is compiled without a
  group, so it accepts every host that starts with its first alternative.
\<close>

theorem anchored_alternation_admits_prefix:
  assumes "alternation_law rx l r"
    and "tp_allowed_host_pattern p = Some (''^'' @ l @ ''|'' @ r @ ''$'')"
    and "split_host_port (l @ t) = (l @ t, None)"
  shows "validate_host rx p (l @ t) = Ok ()"
  using assms by (rule anchored_alternation_is_open)

text \<open>The expressions \<open>^a\<close> and \<open>^a|b$\<close> as the \<open>regex\<close> crate documents them.\<close>

definition two_regex :: regex_lib where
  "two_regex pat lim =
     (if pat = ''^a'' then Ok (starts_with ''a'')
      else if pat = ''^a|b$'' then Ok (\<lambda>s. starts_with ''a'' s \<or> ends_with ''b'' s)
      else Err ''unsupported'')"

theorem anchored_alternation_admits_prefix_witness:
  "validate_host two_regex (b_allowed_host_pattern (payload_builder ''s'' (PcMulti [])) ''^a|b$'') ''a.evil.io'' = Ok ()"
proof -
  have "split_host_port ''a.evil.io'' = (''a.evil.io'', None)"
    by (rule split_bare_host) (simp add: bare_host_def starts_with_def)
  then show ?thesis
    using anchored_alternation_admits_prefix [of two_regex "''a''" "''b''"
        "b_allowed_host_pattern (payload_builder ''s'' (PcMulti [])) ''^a|b$''" "''.evil.io''"]
    by (simp add: alternation_law_def two_regex_def b_allowed_host_pattern_def)
qed

end
