(* ===== verification/Nonce.thy ===== *)
theory Nonce
  imports Token
begin

text \<open>
  Replay protection, \<open>crates/icebreaker-nonce/src/store.rs\<close>: the results of a nonce check, the
  no-op store and the in-memory store with its background cleanup. A monotonic clock reading
  (\<open>Instant::now()\<close>) is an argument, in nanoseconds; adding a duration to it panics when the
  result is not representable. The locale \<open>nonce_store\<close> is what the proxy relies on: a use that
  is allowed is remembered up to a deadline, and no more than \<open>max_uses\<close> are. The theorem
  \<open>allowed_bounded\<close> bounds the uses over any interleaving of checks and cleanups; it is
  interpreted on the in-memory store.
\<close>

section \<open>Panics and instants\<close>

text \<open>An operation returns or panics with a message; a panic leaves the shared state alone.\<close>

datatype 'a outcome = Panic string | Returns 'a

text \<open>
  \<open>Instant\<close> on a 64-bit Unix system: seconds in an \<open>i64\<close> and nanoseconds. The reading is never
  negative here, so the bound is the largest representable instant.
\<close>

type_synonym instant = nat

definition instant_max :: instant where
  "instant_max = 2 ^ 63 * nanos_per_sec - 1"

definition instant_add :: "instant \<Rightarrow> duration \<Rightarrow> instant outcome" where
  "instant_add t d =
     (if t + d \<le> instant_max then Returns (t + d)
      else Panic ''overflow when adding duration to instant'')"

section \<open>Check results and the no-op store\<close>

datatype CheckResult =
    Allowed (allowed_current: u32) (allowed_max: "u32 option")
  | Denied (denied_current: u32) (denied_max: u32)

fun cr_is_allowed :: "CheckResult \<Rightarrow> bool" where
  "cr_is_allowed (Allowed _ _) = True"
| "cr_is_allowed (Denied _ _) = False"

fun cr_is_denied :: "CheckResult \<Rightarrow> bool" where
  "cr_is_denied (Denied _ _) = True"
| "cr_is_denied (Allowed _ _) = False"

definition noop_check_and_record :: "string \<Rightarrow> u32 option \<Rightarrow> duration \<Rightarrow> CheckResult tresult" where
  "noop_check_and_record nonce max_uses ttl = Ok (Allowed 1 max_uses)"

definition noop_get_use_count :: "string \<Rightarrow> u32 option tresult" where
  "noop_get_use_count nonce = Ok None"

section \<open>The in-memory store\<close>

record NonceEntry =
  ne_uses :: u32
  ne_expires_at :: instant

record InMemoryNonceStore =
  entries :: "string \<rightharpoonup> NonceEntry"
  cleanup_interval :: duration

definition InMemoryNonceStore_with_cleanup_interval :: "duration \<Rightarrow> InMemoryNonceStore" where
  "InMemoryNonceStore_with_cleanup_interval i = \<lparr>entries = Map.empty, cleanup_interval = i\<rparr>"

definition InMemoryNonceStore_new :: InMemoryNonceStore where
  "InMemoryNonceStore_new = InMemoryNonceStore_with_cleanup_interval (from_secs 60)"

text \<open>\<open>cleanup\<close>, also the body of the background task: \<open>retain\<close> the entries that expire later.\<close>

definition cleanup :: "InMemoryNonceStore \<Rightarrow> instant \<Rightarrow> InMemoryNonceStore" where
  "cleanup s now = s\<lparr>entries := (\<lambda>nonce. case entries s nonce of
     None \<Rightarrow> None
   | Some entry \<Rightarrow> if ne_expires_at entry > now then Some entry else None)\<rparr>"

definition check_and_record ::
  "InMemoryNonceStore \<Rightarrow> string \<Rightarrow> u32 option \<Rightarrow> duration \<Rightarrow> instant \<Rightarrow>
     (CheckResult tresult \<times> InMemoryNonceStore) outcome" where
  "check_and_record s nonce max_uses ttl now =
     (case instant_add now ttl of
        Panic m \<Rightarrow> Panic m
      | Returns expires_at \<Rightarrow> Returns
          (case entries s nonce of
             Some entry \<Rightarrow>
               if ne_expires_at entry \<le> now
               then (Ok (Allowed 1 max_uses),
                     s\<lparr>entries := (entries s)(nonce \<mapsto> \<lparr>ne_uses = 1, ne_expires_at = expires_at\<rparr>)\<rparr>)
               else
                 (let new_count = saturating_add (ne_uses entry) 1 in
                  case max_uses of
                    Some lim \<Rightarrow>
                      if new_count > lim
                      then (Ok (Denied (ne_uses entry) lim), s)
                      else (Ok (Allowed new_count max_uses),
                            s\<lparr>entries := (entries s)(nonce \<mapsto> \<lparr>ne_uses = new_count, ne_expires_at = expires_at\<rparr>)\<rparr>)
                  | None \<Rightarrow>
                      (Ok (Allowed new_count max_uses),
                       s\<lparr>entries := (entries s)(nonce \<mapsto> \<lparr>ne_uses = new_count, ne_expires_at = expires_at\<rparr>)\<rparr>))
           | None \<Rightarrow>
               if max_uses = Some 0 then (Ok (Denied 0 0), s)
               else (Ok (Allowed 1 max_uses),
                     s\<lparr>entries := (entries s)(nonce \<mapsto> \<lparr>ne_uses = 1, ne_expires_at = expires_at\<rparr>)\<rparr>)))"

definition get_use_count :: "InMemoryNonceStore \<Rightarrow> string \<Rightarrow> instant \<Rightarrow> u32 option tresult" where
  "get_use_count s nonce now =
     (case entries s nonce of
        Some entry \<Rightarrow> if ne_expires_at entry > now then Ok (Some (ne_uses entry)) else Ok None
      | None \<Rightarrow> Ok None)"

text \<open>\<open>len\<close> and \<open>is_empty\<close>; expired entries count until a cleanup.\<close>

definition store_len :: "InMemoryNonceStore \<Rightarrow> nat" where
  "store_len s = card (dom (entries s))"

definition store_is_empty :: "InMemoryNonceStore \<Rightarrow> bool" where
  "store_is_empty s \<longleftrightarrow> dom (entries s) = {}"

text \<open>The loop of \<open>start_cleanup_task\<close>, over the instants at which it has slept out its interval.\<close>

fun cleanup_task :: "InMemoryNonceStore \<Rightarrow> instant list \<Rightarrow> InMemoryNonceStore" where
  "cleanup_task s [] = s"
| "cleanup_task s (now # wakes) = cleanup_task (cleanup s now) wakes"

section \<open>The contract of a nonce store\<close>

text \<open>Calls on a store, in the order in which its write lock serialises them.\<close>

datatype store_event =
    Check (ev_nonce: string) (ev_max: "u32 option") (ev_ttl: duration) (ev_now: instant)
  | Tick (ev_now: instant)

type_synonym 's check_fn =
  "'s \<Rightarrow> string \<Rightarrow> u32 option \<Rightarrow> duration \<Rightarrow> instant \<Rightarrow> (CheckResult tresult \<times> 's) outcome"

fun allowed_of :: "CheckResult tresult \<Rightarrow> bool" where
  "allowed_of (Inr (Allowed _ _)) = True"
| "allowed_of _ = False"

text \<open>How many checks of \<open>n\<close> a run allows.\<close>

fun allowed_count :: "'s check_fn \<Rightarrow> ('s \<Rightarrow> instant \<Rightarrow> 's) \<Rightarrow> string \<Rightarrow> 's \<Rightarrow> store_event list \<Rightarrow> nat" where
  "allowed_count chk tick n s [] = 0"
| "allowed_count chk tick n s (Tick now # es) = allowed_count chk tick n (tick s now) es"
| "allowed_count chk tick n s (Check n' mx ttl now # es) =
     (case chk s n' mx ttl now of
        Panic _ \<Rightarrow> allowed_count chk tick n s es
      | Returns (r, s') \<Rightarrow>
          (if n' = n \<and> allowed_of r then 1 else 0) + allowed_count chk tick n s' es)"

text \<open>
  The calls a token with \<open>max_uses = m\<close> makes before a deadline its nonce outlives. \<open>life\<close> is how long
  the store keeps an entry with the given time-to-live.
\<close>

fun event_ok :: "(duration \<Rightarrow> duration) \<Rightarrow> string \<Rightarrow> u32 \<Rightarrow> instant \<Rightarrow> store_event \<Rightarrow> bool" where
  "event_ok life n m D (Tick now) = (now \<le> D)"
| "event_ok life n m D (Check n' mx ttl now) = (n' = n \<longrightarrow> mx = Some m \<and> now \<le> D \<and> D < now + life ttl)"

locale nonce_store =
  fixes chk :: "'s check_fn" and tick :: "'s \<Rightarrow> instant \<Rightarrow> 's"
    and held :: "'s \<Rightarrow> string \<Rightarrow> instant \<Rightarrow> nat" and life :: "duration \<Rightarrow> duration"
  assumes allowed_grows:
      "chk s n (Some m) ttl now = Returns (Ok (Allowed c mx), s') \<Longrightarrow> now \<le> D \<Longrightarrow> D < now + life ttl \<Longrightarrow>
       unat m < 2 ^ 32 - 1 \<Longrightarrow> Suc (held s n D) \<le> held s' n D \<and> (m \<noteq> 0 \<longrightarrow> held s' n D \<le> unat m)"
    and denied_keeps:
      "chk s n (Some m) ttl now = Returns (r, s') \<Longrightarrow> \<not> allowed_of r \<Longrightarrow> now \<le> D \<Longrightarrow> D < now + life ttl \<Longrightarrow>
       held s n D \<le> held s' n D"
    and other_nonce:
      "chk s n' mx ttl now = Returns (r, s') \<Longrightarrow> n' \<noteq> n \<Longrightarrow> held s' n D = held s n D"
    and tick_keeps: "now \<le> D \<Longrightarrow> held (tick s now) n D = held s n D"
begin

text \<open>Each allowed use adds to what is held, and what is held never passes the limit.\<close>

lemma check_step:
  assumes r: "chk s n' mx ttl now = Returns (r, s')" and ok: "event_ok life n m D (Check n' mx ttl now)"
    and m: "unat m < 2 ^ 32 - 1" "m \<noteq> 0" and rest: "held s' n D + k \<le> max (held s' n D) (unat m)"
  shows "held s n D + ((if n' = n \<and> allowed_of r then 1 else 0) + k) \<le> max (held s n D) (unat m)"
proof (cases "n' = n")
  case False
  with r have "held s' n D = held s n D" by (rule other_nonce)
  with rest False show ?thesis by simp
next
  case True
  with ok have ev: "mx = Some m" "now \<le> D" "D < now + life ttl" by auto
  show ?thesis
  proof (cases "allowed_of r")
    case False
    then have "held s n D \<le> held s' n D" using denied_keeps r True ev by blast
    with rest False True show ?thesis by simp
  next
    case al: True
    then obtain c mx' where "r = Ok (Allowed c mx')" by (cases r rule: allowed_of.cases) auto
    with r True ev(1) have "chk s n (Some m) ttl now = Returns (Ok (Allowed c mx'), s')" by simp
    from allowed_grows [OF this ev(2,3) m(1)] m(2)
    have "Suc (held s n D) \<le> held s' n D" "held s' n D \<le> unat m" by auto
    with rest al True show ?thesis by simp
  qed
qed

lemma allowed_bounded:
  assumes "\<forall>e \<in> set es. event_ok life n m D e" and "unat m < 2 ^ 32 - 1" and "m \<noteq> 0"
  shows "held s n D + allowed_count chk tick n s es \<le> max (held s n D) (unat m)"
  using assms(1)
proof (induction es arbitrary: s)
  case (Cons e es)
  show ?case
  proof (cases e)
    case (Tick now)
    with Cons.prems have "held (tick s now) n D = held s n D" by (intro tick_keeps) simp
    with Cons.IH [of "tick s now"] Cons.prems Tick show ?thesis by simp
  next
    case (Check n' mx ttl now)
    show ?thesis
    proof (cases "chk s n' mx ttl now")
      case (Panic msg)
      with Check Cons.IH [of s] Cons.prems show ?thesis by simp
    next
      case (Returns rs)
      then obtain r s' where r: "chk s n' mx ttl now = Returns (r, s')" by (cases rs) auto
      have "event_ok life n m D (Check n' mx ttl now)" using Cons.prems Check by simp
      from check_step [OF r this assms(2,3) Cons.IH] Cons.prems r Check show ?thesis by simp
    qed
  qed
qed simp

end

section \<open>The in-memory store keeps the contract\<close>

text \<open>What the store remembers of a nonce up to \<open>D\<close>: its count, if the entry outlives \<open>D\<close>.\<close>

definition held_uses :: "InMemoryNonceStore \<Rightarrow> string \<Rightarrow> instant \<Rightarrow> nat" where
  "held_uses s n D =
     (case entries s n of None \<Rightarrow> 0
      | Some e \<Rightarrow> if ne_expires_at e > D then unat (ne_uses e) else 0)"

lemma instant_add_Returns: "instant_add t d = Returns x \<Longrightarrow> x = t + d"
  by (auto simp: instant_add_def split: if_splits)

lemma check_Returns_cases:
  assumes "check_and_record s n mx ttl now = Returns (r, s')"
  obtains (fresh) "r = Ok (Allowed 1 mx)"
      "s' = s\<lparr>entries := (entries s)(n \<mapsto> \<lparr>ne_uses = 1, ne_expires_at = now + ttl\<rparr>)\<rparr>"
      "entries s n = None \<and> mx \<noteq> Some 0 \<or> (\<exists>e. entries s n = Some e \<and> ne_expires_at e \<le> now)"
    | (again) e where "entries s n = Some e" "ne_expires_at e > now"
      "r = Ok (Allowed (saturating_add (ne_uses e) 1) mx)"
      "s' = s\<lparr>entries := (entries s)(n \<mapsto>
          \<lparr>ne_uses = saturating_add (ne_uses e) 1, ne_expires_at = now + ttl\<rparr>)\<rparr>"
      "\<forall>m. mx = Some m \<longrightarrow> saturating_add (ne_uses e) 1 \<le> m"
    | (denied) c m where "r = Ok (Denied c m)" "s' = s" "mx = Some m"
  using assms
  by (fastforce simp: check_and_record_def Let_def not_less dest: instant_add_Returns
      split: outcome.splits option.splits if_splits)

lemma check_frame:
  assumes "check_and_record s n' mx ttl now = Returns (r, s')" and "n' \<noteq> n"
  shows "entries s' n = entries s n"
  using assms(1) by (cases rule: check_Returns_cases) (use assms(2) in auto)

lemma check_allowed_grows:
  assumes chk: "check_and_record s n (Some m) ttl now = Returns (Ok (Allowed c mx), s')"
    and D: "now \<le> D" "D < now + ttl" and m: "unat m < 2 ^ 32 - 1"
  shows "Suc (held_uses s n D) \<le> held_uses s' n D \<and> (m \<noteq> 0 \<longrightarrow> held_uses s' n D \<le> unat m)"
  using chk
proof (cases rule: check_Returns_cases)
  case fresh
  then have "held_uses s n D = 0" using D(1) by (auto simp: held_uses_def)
  moreover have "held_uses s' n D = 1" using fresh(2) D(2) by (simp add: held_uses_def)
  moreover have "m \<noteq> 0 \<Longrightarrow> 1 \<le> unat m" by (simp add: Suc_le_eq unat_gt_0)
  ultimately show ?thesis by simp
next
  case (again e)
  have le: "unat (saturating_add (ne_uses e) 1) \<le> unat m"
    using again(5) by (simp add: word_le_nat_alt)
  then have "unat (saturating_add (ne_uses e) 1) = Suc (unat (ne_uses e))"
    using m by (simp add: unat_saturating_add)
  moreover have "held_uses s' n D = unat (saturating_add (ne_uses e) 1)"
    using again(4) D(2) by (simp add: held_uses_def)
  moreover have "held_uses s n D \<le> unat (ne_uses e)"
    using again(1) by (simp add: held_uses_def)
  ultimately show ?thesis using le by simp
next
  case (denied c' m')
  then show ?thesis by simp
qed

interpretation mem: nonce_store check_and_record cleanup held_uses "\<lambda>ttl. ttl"
proof (unfold_locales, goal_cases)
  case (1 s n m ttl now c mx s' D)
  then show ?case by (rule check_allowed_grows)
next
  case (2 s n m ttl now r s' D)
  from 2(1) show ?case
    by (cases rule: check_Returns_cases) (use 2(2) in auto)
next
  case (3 s n' mx ttl now r s' n D)
  then show ?case using check_frame [OF 3] by (simp add: held_uses_def)
next
  case (4 now D s n)
  then show ?case by (auto simp: held_uses_def cleanup_def split: option.splits)
qed

text \<open>Cleanups forget exactly what has expired, so that the task as a whole is its latest wake-up.\<close>

lemma entries_cleanup: "entries (cleanup s now) n = Some e \<longleftrightarrow> entries s n = Some e \<and> now < ne_expires_at e"
  by (auto simp: cleanup_def split: option.splits)

lemma cleanup_task_entries:
  "entries (cleanup_task s wakes) n = Some e \<longleftrightarrow> entries s n = Some e \<and> (\<forall>now \<in> set wakes. now < ne_expires_at e)"
  by (induction s wakes rule: cleanup_task.induct) (auto simp: entries_cleanup)

lemma store_len_cleanup_le:
  assumes "finite (dom (entries s))"
  shows "store_len (cleanup_task s wakes) \<le> store_len s"
  unfolding store_len_def using assms by (intro card_mono) (auto simp: dom_def cleanup_task_entries)

lemma store_is_empty_len: "finite (dom (entries s)) \<Longrightarrow> store_is_empty s \<longleftrightarrow> store_len s = 0"
  by (simp add: store_is_empty_def store_len_def)

text \<open>A store grows by one entry per check at most, and only by the nonce it was asked about.\<close>

lemma store_len_check:
  assumes "check_and_record s n mx ttl now = Returns (r, s')" and "finite (dom (entries s))"
  shows "finite (dom (entries s'))" "store_len s' \<le> Suc (store_len s)"
proof -
  have d: "dom (entries s') \<subseteq> insert n (dom (entries s))"
    using check_frame [OF assms(1)] by (fastforce simp: dom_def)
  then show f: "finite (dom (entries s'))" using assms(2) by (meson finite_insert finite_subset)
  have "card (dom (entries s')) \<le> card (insert n (dom (entries s)))" using d assms(2) by (intro card_mono) auto
  also have "\<dots> \<le> Suc (card (dom (entries s)))" using assms(2) by (simp add: card_insert_if)
  finally show "store_len s' \<le> Suc (store_len s)" by (simp add: store_len_def)
qed

lemma cleanup_get_use_count:
  "now \<le> now' \<Longrightarrow> get_use_count (cleanup s now) n now' = get_use_count s n now'"
  by (auto simp: get_use_count_def cleanup_def split: option.splits)

lemma cleanup_check:
  assumes "now \<le> now'" and "mx \<noteq> Some 0"
  shows "map_outcome fst (check_and_record (cleanup s now) n mx ttl now') =
    map_outcome fst (check_and_record s n mx ttl now')"
proof (cases "entries s n")
  case None
  then show ?thesis by (simp add: check_and_record_def cleanup_def split: outcome.split)
next
  case (Some e)
  show ?thesis
  proof (cases "ne_expires_at e > now")
    case True
    with Some have "entries (cleanup s now) n = entries s n" by (simp add: cleanup_def)
    then show ?thesis using Some
      by (simp add: check_and_record_def Let_def split: outcome.split option.split)
  next
    case False
    with Some have "entries (cleanup s now) n = None" by (simp add: cleanup_def)
    moreover have "ne_expires_at e \<le> now'" using False assms(1) by simp
    ultimately show ?thesis using Some assms(2)
      by (simp add: check_and_record_def split: outcome.split)
  qed
qed

section \<open>Properties\<close>

text \<open>
  Property C9. Whatever other nonces are checked and however often the cleanup runs, the
  in-memory store allows a nonce limited to \<open>m\<close> uses at most \<open>m\<close> times up to a deadline \<open>D\<close> that
  every check's time-to-live reaches past.
\<close>

theorem replay_limit:
  assumes "\<forall>e \<in> set es. event_ok (\<lambda>ttl. ttl) n m D e" and "unat m < 2 ^ 32 - 1" and "m \<noteq> 0"
    and "entries s n = None"
  shows "allowed_count check_and_record cleanup n s es \<le> unat m"
  using mem.allowed_bounded [OF assms(1-3), of s] assms(4) by (simp add: held_uses_def)

theorem replay_limit_witness:
  "allowed_count check_and_record cleanup ''n'' InMemoryNonceStore_new
     [Check ''n'' (Some 1) 100 0, Tick 20, Check ''k'' None 5 30, Check ''n'' (Some 1) 100 40] \<le> 1"
  using replay_limit [of "[Check ''n'' (Some 1) 100 0, Tick 20, Check ''k'' None 5 30,
      Check ''n'' (Some 1) 100 40]" "''n''" 1 50 InMemoryNonceStore_new]
  by (simp add: InMemoryNonceStore_new_def InMemoryNonceStore_with_cleanup_interval_def)

text \<open>
  Note. The background cleanup is invisible: whatever it removes, later readings of the use
  count and later checks answer as if it had not run.
\<close>

theorem cleanup_invisible:
  assumes "now \<le> now'" and "mx \<noteq> Some 0"
  shows "get_use_count (cleanup s now) n now' = get_use_count s n now' \<and>
     map_outcome fst (check_and_record (cleanup s now) n mx ttl now') =
       map_outcome fst (check_and_record s n mx ttl now')"
  using cleanup_get_use_count [OF assms(1)] cleanup_check [OF assms] by simp

theorem cleanup_invisible_witness:
  "get_use_count (cleanup InMemoryNonceStore_new 3) ''n'' 4 = get_use_count InMemoryNonceStore_new ''n'' 4"
  using cleanup_invisible [of 3 4 None InMemoryNonceStore_new "''n''"] by simp

text \<open>
  Note. The store's answers in full: a fresh or expired nonce is allowed and counted as one
  use with a new lifetime; a live one is allowed exactly while one more use stays within the limit,
  its count grows by one and its lifetime restarts; a denied check changes nothing.
\<close>

theorem check_and_record_spec:
  assumes "now + ttl \<le> instant_max"
  shows "check_and_record s n mx ttl now = Returns (
    case get_use_count s n now of
      Inr (Some k) \<Rightarrow>
        if (\<exists>m. mx = Some m \<and> saturating_add k 1 > m) then (Ok (Denied k (the mx)), s)
        else (Ok (Allowed (saturating_add k 1) mx),
              s\<lparr>entries := (entries s)(n \<mapsto> \<lparr>ne_uses = saturating_add k 1, ne_expires_at = now + ttl\<rparr>)\<rparr>)
    | _ \<Rightarrow>
        if entries s n = None \<and> mx = Some 0 then (Ok (Denied 0 0), s)
        else (Ok (Allowed 1 mx),
              s\<lparr>entries := (entries s)(n \<mapsto> \<lparr>ne_uses = 1, ne_expires_at = now + ttl\<rparr>)\<rparr>))"
  using assms
  by (auto simp: check_and_record_def get_use_count_def instant_add_def Let_def
      split: option.splits)

theorem check_and_record_spec_witness:
  "check_and_record InMemoryNonceStore_new ''n'' (Some 1) 10 5 =
     Returns (Ok (Allowed 1 (Some 1)),
       InMemoryNonceStore_new\<lparr>entries := [''n'' \<mapsto> \<lparr>ne_uses = 1, ne_expires_at = 15\<rparr>]\<rparr>)"
  using check_and_record_spec [of 5 10 InMemoryNonceStore_new "''n''" "Some 1"]
  by (simp add: InMemoryNonceStore_new_def InMemoryNonceStore_with_cleanup_interval_def
      get_use_count_def instant_max_def nanos_per_sec_def)

text \<open>
  Note. A limit of zero is not enforced once an entry of the nonce has expired: the expired
  branch records and allows a use without looking at the limit.
\<close>

theorem zero_limit_allowed_after_expiry:
  assumes "entries s n = Some e" and "ne_expires_at e \<le> now" and "now + ttl \<le> instant_max"
  shows "\<exists>s'. check_and_record s n (Some 0) ttl now = Returns (Ok (Allowed 1 (Some 0)), s')"
  using assms by (simp add: check_and_record_def instant_add_def)

theorem zero_limit_allowed_after_expiry_witness:
  "\<exists>s'. check_and_record (InMemoryNonceStore_new\<lparr>entries := [''n'' \<mapsto> \<lparr>ne_uses = 0, ne_expires_at = 3\<rparr>]\<rparr>)
     ''n'' (Some 0) 10 5 = Returns (Ok (Allowed 1 (Some 0)), s')"
  using zero_limit_allowed_after_expiry
    [of "InMemoryNonceStore_new\<lparr>entries := [''n'' \<mapsto> \<lparr>ne_uses = 0, ne_expires_at = 3\<rparr>]\<rparr>" "''n''"
      "\<lparr>ne_uses = 0, ne_expires_at = 3\<rparr>" 5 10]
  by (simp add: instant_max_def nanos_per_sec_def)

end
