(* ===== verification/Metrics.thy ===== *)
theory Metrics
  imports Errors Config
begin

text \<open>
  The counters of \<open>crates/icebreaker-proxy/src/metrics/mod.rs\<close>. A handler of the model returns
  the list of the recordings it makes, in order, one \<open>metric\<close> per call of a \<open>record_\<close> function;
  \<open>sample\<close> gives the name and the labels of the series the call is about and \<open>operation\<close> what it does to
  it; \<open>record_all\<close> is their effect on a registry of counters, gauges and histograms, as the \<open>metrics\<close>
  crate documents it. Exporting the registry is not modelled.
\<close>

datatype TokenValidationResult =
    Success | TvExpired | Invalid | DecryptionFailed | Missing | HostValidationFailed
  | MethodValidationFailed | PathValidationFailed | TvReplayProtectionUnavailable | Skipped

fun tv_as_str :: "TokenValidationResult \<Rightarrow> string" where
  "tv_as_str Success = ''success''"
| "tv_as_str TvExpired = ''expired''"
| "tv_as_str Invalid = ''invalid''"
| "tv_as_str DecryptionFailed = ''decryption_failed''"
| "tv_as_str Missing = ''missing''"
| "tv_as_str HostValidationFailed = ''host_validation_failed''"
| "tv_as_str MethodValidationFailed = ''method_validation_failed''"
| "tv_as_str PathValidationFailed = ''path_validation_failed''"
| "tv_as_str TvReplayProtectionUnavailable = ''replay_protection_unavailable''"
| "tv_as_str Skipped = ''skipped''"

datatype BlockReason = PrivateNetwork | Loopback | LinkLocal | BlockedCidr | BlockedHostname

fun br_as_str :: "BlockReason \<Rightarrow> string" where
  "br_as_str PrivateNetwork = ''private_network''"
| "br_as_str Loopback = ''loopback''"
| "br_as_str LinkLocal = ''link_local''"
| "br_as_str BlockedCidr = ''blocked_cidr''"
| "br_as_str BlockedHostname = ''blocked_hostname''"

text \<open>One constructor per recording function.\<close>

datatype metric =
    record_request string u16 "string option"
  | record_request_error string
  | record_token_validation TokenValidationResult
  | record_host_rejection string
  | record_token_optional_host_rejection
  | record_method_rejection string
  | record_path_rejection string
  | record_secret_leak_detected
  | record_unsupported_encoding_blocked string
  | record_replay_attempt
  | record_blocked_address BlockReason
  | record_connect_tunnel
  | record_processor_used string
  | record_request_duration duration
  | record_request_bytes u64
  | record_response_bytes u64
  | set_active_connections u64
  | increment_active_connections
  | decrement_active_connections

definition status_class :: "u16 \<Rightarrow> string" where
  "status_class status =
     (if 200 \<le> status \<and> status \<le> 299 then ''2xx''
      else if 300 \<le> status \<and> status \<le> 399 then ''3xx''
      else if 400 \<le> status \<and> status \<le> 499 then ''4xx''
      else if 500 \<le> status \<and> status \<le> 599 then ''5xx''
      else ''other'')"

definition processor_label :: "string option \<Rightarrow> string" where
  "processor_label p = (case p of None \<Rightarrow> ''none'' | Some s \<Rightarrow> s)"

fun sample :: "metric \<Rightarrow> string \<times> (string \<times> string) list" where
  "sample (record_request m status p) =
     (''icebreaker_requests_total'',
      [(''method'', m), (''status'', status_class status), (''processor'', processor_label p)])"
| "sample (record_request_error c) = (''icebreaker_request_errors_total'', [(''class'', c)])"
| "sample (record_token_validation r) =
     (''icebreaker_token_validations_total'', [(''result'', tv_as_str r)])"
| "sample (record_host_rejection h) = (''icebreaker_host_rejections_total'', [(''host'', h)])"
| "sample record_token_optional_host_rejection =
     (''icebreaker_token_optional_host_rejections_total'', [])"
| "sample (record_method_rejection m) = (''icebreaker_method_rejections_total'', [(''method'', m)])"
| "sample (record_path_rejection p) = (''icebreaker_path_rejections_total'', [(''path'', p)])"
| "sample record_secret_leak_detected = (''icebreaker_secret_leaks_detected_total'', [])"
| "sample (record_unsupported_encoding_blocked e) =
     (''icebreaker_unsupported_encoding_blocked_total'', [(''encoding'', e)])"
| "sample record_replay_attempt = (''icebreaker_replay_detections_total'', [])"
| "sample (record_blocked_address r) =
     (''icebreaker_blocked_addresses_total'', [(''reason'', br_as_str r)])"
| "sample record_connect_tunnel = (''icebreaker_connect_tunnels_total'', [])"
| "sample (record_processor_used t) = (''icebreaker_processor_invocations_total'', [(''type'', t)])"
| "sample (record_request_duration _) = (''icebreaker_request_duration_seconds'', [])"
| "sample (record_request_bytes _) = (''icebreaker_request_bytes_total'', [])"
| "sample (record_response_bytes _) = (''icebreaker_response_bytes_total'', [])"
| "sample (set_active_connections _) = (''icebreaker_active_connections'', [])"
| "sample increment_active_connections = (''icebreaker_active_connections'', [])"
| "sample decrement_active_connections = (''icebreaker_active_connections'', [])"

datatype metric_op = CounterAdd u64 | GaugeSet u64 | GaugeAdd int | Observe duration

fun operation :: "metric \<Rightarrow> metric_op" where
  "operation (record_request_duration d) = Observe d"
| "operation (record_request_bytes n) = CounterAdd n"
| "operation (record_response_bytes n) = CounterAdd n"
| "operation (set_active_connections n) = GaugeSet n"
| "operation increment_active_connections = GaugeAdd 1"
| "operation decrement_active_connections = GaugeAdd (- 1)"
| "operation _ = CounterAdd 1"

type_synonym series = "string \<times> (string \<times> string) list"

record registry =
  counters :: "series \<Rightarrow> nat"
  gauges :: "series \<Rightarrow> int"
  histograms :: "series \<Rightarrow> duration list"

definition record_one :: "metric \<Rightarrow> registry \<Rightarrow> registry" where
  "record_one m r =
     (case operation m of
        CounterAdd n \<Rightarrow> r\<lparr>counters := (counters r)(sample m := counters r (sample m) + unat n)\<rparr>
      | GaugeSet n \<Rightarrow> r\<lparr>gauges := (gauges r)(sample m := uint n)\<rparr>
      | GaugeAdd k \<Rightarrow> r\<lparr>gauges := (gauges r)(sample m := gauges r (sample m) + k)\<rparr>
      | Observe d \<Rightarrow> r\<lparr>histograms := (histograms r)(sample m := histograms r (sample m) @ [d])\<rparr>)"

definition record_all :: "metric list \<Rightarrow> registry \<Rightarrow> registry" where
  "record_all ms r = fold record_one ms r"

lemma tv_as_str_inj: "tv_as_str r = tv_as_str s \<Longrightarrow> r = s"
  by (cases r; cases s; simp)

lemma br_as_str_inj: "br_as_str r = br_as_str s \<Longrightarrow> r = s"
  by (cases r; cases s; simp)

text \<open>A series counts exactly the recordings made of it; counters never go down.\<close>

lemma counters_record_all:
  assumes "\<forall>m \<in> set ms. sample m = x \<longrightarrow> operation m = CounterAdd 1"
  shows "counters (record_all ms r) x = counters r x + length (filter (\<lambda>m. sample m = x) ms)"
  using assms
proof (induction ms arbitrary: r)
  case (Cons m ms)
  then have "counters (record_all ms (record_one m r)) x =
      counters (record_one m r) x + length (filter (\<lambda>m. sample m = x) ms)" by simp
  moreover have "counters (record_one m r) x = counters r x + (if sample m = x then 1 else 0)"
    using Cons.prems by (auto simp: record_one_def split: metric_op.split)
  ultimately show ?case by (simp add: record_all_def)
qed (simp add: record_all_def)

lemma counters_mono: "counters r x \<le> counters (record_all ms r) x"
proof (induction ms arbitrary: r)
  case (Cons m ms)
  have "counters r x \<le> counters (record_one m r) x" by (simp add: record_one_def split: metric_op.split)
  also note Cons.IH [of "record_one m r"]
  finally show ?case by (simp add: record_all_def)
qed (simp add: record_all_def)

text \<open>Every opening paired with a closing leaves the gauge of active connections where it was.\<close>

lemma active_connections_balance:
  assumes "set ms \<subseteq> {increment_active_connections, decrement_active_connections}"
  shows "gauges (record_all ms r) (''icebreaker_active_connections'', []) =
    gauges r (''icebreaker_active_connections'', []) + int (count_list ms increment_active_connections)
      - int (count_list ms decrement_active_connections)"
  using assms
proof (induction ms arbitrary: r)
  case (Cons m ms)
  from Cons.IH [of "record_one m r"] Cons.prems show ?case
    by (auto simp: record_all_def record_one_def)
qed (simp add: record_all_def)

text \<open>An error is counted as 4xx or 5xx, unless it carries the status of an upstream.\<close>

lemma status_class_of_error:
  "status_class (status_code e) \<in> {''4xx'', ''5xx''} \<or> (\<exists>s m. e = UpstreamError s m)"
  by (cases e) (simp_all add: status_class_def)

end
