(* ===== verification/Http.thy ===== *)
theory Http
  imports Metrics Token
begin

text \<open>
  The HTTP data the handlers exchange. Header maps, header names and header values are those of
  the \<open>http\<close> crate, a parameter \<open>header_lib\<close> over an arbitrary type \<open>'h\<close> of maps; \<open>header_laws\<close>
  states the documented behaviour that proofs rely on, and \<open>assoc_headers\<close>, maps as lists of
  lower-case names and values, shows that the laws can hold. A request has the parsed parts of its
  URI, its header map, and the typed extensions that the handlers insert and read; a response has
  its status and header map. A boxed error is a \<open>TokenizerError\<close> or the text of a foreign one.
\<close>

section \<open>Header maps\<close>

record 'h header_lib =
  h_get :: "'h \<Rightarrow> string \<Rightarrow> string option"
  h_insert :: "'h \<Rightarrow> string \<Rightarrow> string \<Rightarrow> 'h"
  h_remove :: "'h \<Rightarrow> string \<Rightarrow> 'h"
  h_values :: "'h \<Rightarrow> string list"
  h_name :: "string \<Rightarrow> (string, string) result"
  h_value :: "string \<Rightarrow> (string, string) result"
  h_to_str :: "string \<Rightarrow> (string, string) result"

text \<open>
  \<open>get\<close> sees the value last inserted under the same name, names compared without case; \<open>remove\<close>
  removes every value of a name and adds none; a value that is read occurs among the values; parsing a name
  keeps it up to case, parsing a value and reading it as text keep its bytes.
\<close>

definition header_laws :: "'h header_lib \<Rightarrow> bool" where
  "header_laws H \<longleftrightarrow>
     (\<forall>h n v m. h_get H (h_insert H h n v) m =
        (if eq_ignore_ascii_case n m then Some v else h_get H h m)) \<and>
     (\<forall>h n m. h_get H (h_remove H h n) m = (if eq_ignore_ascii_case n m then None else h_get H h m)) \<and>
     (\<forall>h n v. h_get H h n = Some v \<longrightarrow> v \<in> set (h_values H h)) \<and>
     (\<forall>h n. set (h_values H (h_remove H h n)) \<subseteq> set (h_values H h)) \<and>
     (\<forall>n m. h_name H n = Ok m \<longrightarrow> eq_ignore_ascii_case n m) \<and>
     (\<forall>s v. h_value H s = Ok v \<longrightarrow> v = s) \<and>
     (\<forall>v s. h_to_str H v = Ok s \<longrightarrow> s = v)"

lemma header_lawsD:
  assumes "header_laws H"
  shows "h_get H (h_insert H h n v) m = (if eq_ignore_ascii_case n m then Some v else h_get H h m)"
    and "h_get H (h_remove H h n) m = (if eq_ignore_ascii_case n m then None else h_get H h m)"
    and "h_get H h n = Some v \<Longrightarrow> v \<in> set (h_values H h)"
    and "set (h_values H (h_remove H h n)) \<subseteq> set (h_values H h)"
    and "h_name H n = Ok m \<Longrightarrow> eq_ignore_ascii_case n m"
    and "h_value H s = Ok v \<Longrightarrow> v = s"
    and "h_to_str H v = Ok s \<Longrightarrow> s = v"
  using assms unfolding header_laws_def by blast+

text \<open>A header map as a list of lower-case names and values.\<close>

definition visible_ascii :: "string \<Rightarrow> bool" where
  "visible_ascii s \<longleftrightarrow> list_all (\<lambda>c. (32 \<le> (of_char c :: nat) \<and> (of_char c :: nat) < 127) \<or> (of_char c :: nat) = 9) s"

definition assoc_headers :: "(string \<times> string) list header_lib" where
  "assoc_headers =
     \<lparr>h_get = (\<lambda>h n. map_of h (to_lower n)),
      h_insert = (\<lambda>h n v. (to_lower n, v) # filter (\<lambda>e. fst e \<noteq> to_lower n) h),
      h_remove = (\<lambda>h n. filter (\<lambda>e. fst e \<noteq> to_lower n) h),
      h_values = map snd,
      h_name = (\<lambda>n. if n = [] then Err ''invalid HTTP header name'' else Ok (to_lower n)),
      h_value = (\<lambda>v. if visible_ascii v then Ok v else Err ''failed to parse header value''),
      h_to_str = (\<lambda>v. if visible_ascii v then Ok v else Err ''failed to convert header to a str'')\<rparr>"

lemma map_of_filter_fst: "map_of (filter (\<lambda>e. fst e \<noteq> k) h) m = (if m = k then None else map_of h m)"
  by (induction h) auto

lemma assoc_headers_laws: "header_laws assoc_headers"
  unfolding header_laws_def assoc_headers_def
  by (auto simp: map_of_filter_fst eq_ignore_ascii_case_def dest: map_of_SomeD split: if_splits)
     (metis map_of_SomeD image_eqI snd_conv)

section \<open>Errors at the service boundary\<close>

datatype box_error = BoxTok TokenizerError | BoxOther string

section \<open>Connections\<close>

record TlsConnectionInfo =
  cert_fingerprint :: "string option"
  subject_dn :: "string option"

definition TlsConnectionInfo_new :: TlsConnectionInfo where
  "TlsConnectionInfo_new = \<lparr>cert_fingerprint = None, subject_dn = None\<rparr>"

definition with_fingerprint :: "string \<Rightarrow> TlsConnectionInfo" where
  "with_fingerprint f = \<lparr>cert_fingerprint = Some f, subject_dn = None\<rparr>"

definition with_subject_dn :: "TlsConnectionInfo \<Rightarrow> string \<Rightarrow> TlsConnectionInfo" where
  "with_subject_dn t d = t\<lparr>subject_dn := Some d\<rparr>"

text \<open>The socket address is given by the text of its IP address, the part that is read.\<close>

record ConnectionInfo =
  ci_remote_ip :: string
  ci_tls_info :: "TlsConnectionInfo option"

definition ConnectionInfo_new :: "string \<Rightarrow> ConnectionInfo" where
  "ConnectionInfo_new a = \<lparr>ci_remote_ip = a, ci_tls_info = None\<rparr>"

definition with_tls :: "ConnectionInfo \<Rightarrow> TlsConnectionInfo \<Rightarrow> ConnectionInfo" where
  "with_tls c t = c\<lparr>ci_tls_info := Some t\<rparr>"

definition rate_limit_key :: "ConnectionInfo \<Rightarrow> string" where
  "rate_limit_key c =
     (case ci_tls_info c of
        Some tls \<Rightarrow> (case cert_fingerprint tls of Some fp \<Rightarrow> fp | None \<Rightarrow> ci_remote_ip c)
      | None \<Rightarrow> ci_remote_ip c)"

section \<open>Requests and responses\<close>

record authority =
  au_str :: string
  au_host :: string
  au_port :: "u16 option"

record uri =
  u_scheme :: "string option"
  u_authority :: "authority option"
  u_path :: string
  u_query :: "string option"

record ('h, 'b) request =
  rq_method :: string
  rq_uri :: uri
  rq_headers :: 'h
  rq_ext_tls :: "TlsConnectionInfo option"
  rq_ext_conn :: "ConnectionInfo option"
  rq_ext_scheme :: "UpstreamScheme option"
  rq_ext_patterns :: "bytes list option"
  rq_body :: 'b

record ('h, 'b) response =
  rs_status :: u16
  rs_headers :: 'h
  rs_body :: 'b

end
