(* ===== verification/Body_Scan.thy ===== *)
theory Body_Scan
  imports Http
begin

text \<open>
  Leak detection in a streamed body: \<open>crates/icebreaker-proxy/src/body/overlap_buffer.rs\<close> and
  \<open>body/scanning.rs\<close>. The scanner keeps the last bytes of what it has seen so that a pattern
  split over chunks is found. The locale \<open>stream_scanner\<close> is the contract between the scanner and
  the body wrapper: a scan answers whether a pattern occurs in everything scanned so far. Inside it
  the wrapper is shown never to let a pattern through, for any consumer and any chunking, and to
  pass a clean stream unchanged; it is interpreted on \<open>scan_chunk\<close>.
\<close>

section \<open>The overlap buffer\<close>

definition DEFAULT_OVERLAP_SIZE :: nat where
  "DEFAULT_OVERLAP_SIZE = 256"

record OverlapBuffer =
  ob_overlap :: bytes
  ob_overlap_size :: nat

definition OverlapBuffer_new :: "nat \<Rightarrow> OverlapBuffer" where
  "OverlapBuffer_new n = \<lparr>ob_overlap = [], ob_overlap_size = n\<rparr>"

definition OverlapBuffer_default :: OverlapBuffer where
  "OverlapBuffer_default = OverlapBuffer_new DEFAULT_OVERLAP_SIZE"

text \<open>
  The capacity of the buffer is at least \<open>overlap_size\<close> from its creation on, so the test
  \<open>capacity() > 0\<close> in the branch for short chunks is \<open>overlap_size > 0\<close>.
\<close>

definition process_chunk :: "OverlapBuffer \<Rightarrow> bytes \<Rightarrow> bool \<Rightarrow> bytes \<times> OverlapBuffer" where
  "process_chunk self chunk is_last =
     (if is_last then (ob_overlap self @ chunk, self\<lparr>ob_overlap := []\<rparr>)
      else
        (let searchable = ob_overlap self @ chunk;
             size = ob_overlap_size self;
             combined_len = length searchable;
             overlap =
               (if length chunk \<ge> size then drop (length chunk - size) chunk
                else if size > 0 then
                  (if combined_len \<ge> size then drop (combined_len - size) searchable else searchable)
                else [])
         in (searchable, self\<lparr>ob_overlap := overlap\<rparr>)))"

definition reset_buffer :: "OverlapBuffer \<Rightarrow> OverlapBuffer" where
  "reset_buffer b = b\<lparr>ob_overlap := []\<rparr>"

definition has_overlap :: "OverlapBuffer \<Rightarrow> bool" where
  "has_overlap b \<longleftrightarrow> ob_overlap b \<noteq> []"

definition current_overlap_len :: "OverlapBuffer \<Rightarrow> nat" where
  "current_overlap_len b = length (ob_overlap b)"

section \<open>The stream scanner\<close>

record StreamScanner =
  ss_buffer :: OverlapBuffer
  ss_patterns :: "bytes list"

definition max_pattern_len :: "bytes list \<Rightarrow> nat" where
  "max_pattern_len patterns = fold max (map length patterns) 0"

definition StreamScanner_new :: "bytes list \<Rightarrow> StreamScanner" where
  "StreamScanner_new patterns =
     \<lparr>ss_buffer = OverlapBuffer_new (max (max_pattern_len patterns) DEFAULT_OVERLAP_SIZE),
      ss_patterns = patterns\<rparr>"

definition contains_pattern :: "bytes \<Rightarrow> bytes \<Rightarrow> bool" where
  "contains_pattern haystack needle =
     (if needle = [] \<or> length needle > length haystack then needle = []
      else any_window needle haystack)"

definition scan_chunk :: "StreamScanner \<Rightarrow> bytes \<Rightarrow> bool \<Rightarrow> bool \<times> StreamScanner" where
  "scan_chunk self chunk is_last =
     (let (searchable, buffer) = process_chunk (ss_buffer self) chunk is_last
      in (list_ex (contains_pattern searchable) (ss_patterns self), self\<lparr>ss_buffer := buffer\<rparr>))"

definition reset_scanner :: "StreamScanner \<Rightarrow> StreamScanner" where
  "reset_scanner s = s\<lparr>ss_buffer := reset_buffer (ss_buffer s)\<rparr>"

definition add_pattern :: "StreamScanner \<Rightarrow> bytes \<Rightarrow> StreamScanner" where
  "add_pattern s p = s\<lparr>ss_patterns := ss_patterns s @ [p]\<rparr>"

section \<open>The body wrapper\<close>

text \<open>
  A frame holds data or trailers. The wrapped body is the sequence of the answers its polls give;
  once they are used up it has ended. A poll of the wrapper also returns what it records.
\<close>

datatype 'h frame = DataFrame bytes | Trailers 'h

datatype ('e, 'h) poll = Pending | ReadyNone | ReadyOk "'h frame" | ReadyErr 'e

record 'h ScanningBody =
  sb_inner :: "(box_error, 'h) poll list"
  sb_scanner :: StreamScanner
  sb_detected :: bool
  sb_completed :: bool

definition ScanningBody_with_scanner :: "(box_error, 'h) poll list \<Rightarrow> StreamScanner \<Rightarrow> 'h ScanningBody" where
  "ScanningBody_with_scanner inner scanner =
     \<lparr>sb_inner = inner, sb_scanner = scanner, sb_detected = False, sb_completed = False\<rparr>"

definition ScanningBody_new :: "(box_error, 'h) poll list \<Rightarrow> bytes list \<Rightarrow> 'h ScanningBody" where
  "ScanningBody_new inner patterns = ScanningBody_with_scanner inner (StreamScanner_new patterns)"

definition secret_leak_error :: "metric list \<times> (box_error, 'h) poll" where
  "secret_leak_error = ([record_secret_leak_detected], ReadyErr (BoxTok SecretLeakDetected))"

text \<open>The loop over header values, with the scanner's operation as an argument.\<close>

fun scan_values :: "('s \<Rightarrow> bytes \<Rightarrow> bool \<Rightarrow> bool \<times> 's) \<Rightarrow> string list \<Rightarrow> 's \<Rightarrow> bool \<times> 's" where
  "scan_values scan [] s = (False, s)"
| "scan_values scan (v # vs) s =
     (case scan s (as_bytes v) False of
        (True, s') \<Rightarrow> (True, s')
      | (False, s') \<Rightarrow> scan_values scan vs s')"

definition scan_header_values :: "'h header_lib \<Rightarrow> 'h \<Rightarrow> StreamScanner \<Rightarrow> bool \<times> StreamScanner" where
  "scan_header_values H headers scanner = scan_values scan_chunk (h_values H headers) scanner"

text \<open>\<open>inner.poll_frame\<close>: the next answer and the rest.\<close>

fun poll_inner :: "(box_error, 'h) poll list \<Rightarrow> (box_error, 'h) poll \<times> (box_error, 'h) poll list" where
  "poll_inner [] = (ReadyNone, [])"
| "poll_inner (p # ps) = (p, ps)"

definition poll_frame :: "'h header_lib \<Rightarrow> 'h ScanningBody \<Rightarrow>
    (metric list \<times> (box_error, 'h) poll) \<times> 'h ScanningBody" where
  "poll_frame H self =
     (if sb_detected self then (([], ReadyErr (BoxTok SecretLeakDetected)), self)
      else if sb_completed self then (([], ReadyNone), self)
      else
        (case poll_inner (sb_inner self) of
           (Pending, rest) \<Rightarrow> (([], Pending), self\<lparr>sb_inner := rest\<rparr>)
         | (ReadyOk (DataFrame data), rest) \<Rightarrow>
             (case scan_chunk (sb_scanner self) data False of
                (True, sc) \<Rightarrow>
                  (secret_leak_error, self\<lparr>sb_inner := rest, sb_scanner := sc, sb_detected := True\<rparr>)
              | (False, sc) \<Rightarrow>
                  (([], ReadyOk (DataFrame data)), self\<lparr>sb_inner := rest, sb_scanner := sc\<rparr>))
         | (ReadyOk (Trailers trailers), rest) \<Rightarrow>
             (case scan_header_values H trailers (sb_scanner self) of
                (True, sc) \<Rightarrow>
                  (secret_leak_error, self\<lparr>sb_inner := rest, sb_scanner := sc, sb_detected := True\<rparr>)
              | (False, sc) \<Rightarrow>
                  (([], ReadyOk (Trailers trailers)), self\<lparr>sb_inner := rest, sb_scanner := sc\<rparr>))
         | (ReadyErr e, rest) \<Rightarrow> (([], ReadyErr e), self\<lparr>sb_inner := rest\<rparr>)
         | (ReadyNone, rest) \<Rightarrow>
             (case scan_chunk (sb_scanner self) [] True of
                (True, sc) \<Rightarrow>
                  (secret_leak_error,
                   self\<lparr>sb_inner := rest, sb_scanner := sc, sb_completed := True, sb_detected := True\<rparr>)
              | (False, sc) \<Rightarrow>
                  (([], ReadyNone), self\<lparr>sb_inner := rest, sb_scanner := sc, sb_completed := True\<rparr>))))"

definition is_end_stream :: "'h ScanningBody \<Rightarrow> bool" where
  "is_end_stream self \<longleftrightarrow> sb_completed self \<or> sb_detected self"

text \<open>What a consumer that polls \<open>n\<close> times is given.\<close>

fun polls :: "'h header_lib \<Rightarrow> nat \<Rightarrow> 'h ScanningBody \<Rightarrow> (box_error, 'h) poll list" where
  "polls H 0 s = []"
| "polls H (Suc n) s = (let ((_, p), s') = poll_frame H s in p # polls H n s')"

section \<open>The scanner's memory\<close>

definition last_bytes :: "nat \<Rightarrow> 'a list \<Rightarrow> 'a list" where
  "last_bytes n xs = drop (length xs - n) xs"

lemma last_bytes_split: "xs = take (length xs - n) xs @ last_bytes n xs"
  by (simp add: last_bytes_def)

lemma last_bytes_append_ge: "length c \<ge> n \<Longrightarrow> last_bytes n (x @ c) = last_bytes n c"
  by (simp add: last_bytes_def)

lemma last_bytes_append_last: "last_bytes n (last_bytes n x @ c) = last_bytes n (x @ c)"
proof (cases "n \<le> length x")
  case True
  then show ?thesis by (simp add: last_bytes_def min_def add.commute)
next
  case False
  then show ?thesis by (simp add: last_bytes_def)
qed

lemma process_chunk_keeps:
  assumes "ob_overlap b = last_bytes (ob_overlap_size b) x"
  shows "fst (process_chunk b c l) = last_bytes (ob_overlap_size b) x @ c"
    and "ob_overlap (snd (process_chunk b c False)) = last_bytes (ob_overlap_size b) (x @ c)"
    and "ob_overlap_size (snd (process_chunk b c l)) = ob_overlap_size b"
proof -
  show "fst (process_chunk b c l) = last_bytes (ob_overlap_size b) x @ c"
    by (simp add: process_chunk_def assms Let_def)
  show "ob_overlap_size (snd (process_chunk b c l)) = ob_overlap_size b"
    by (simp add: process_chunk_def Let_def)
  have "ob_overlap (snd (process_chunk b c False)) = last_bytes (ob_overlap_size b) (ob_overlap b @ c)"
    by (auto simp: process_chunk_def Let_def last_bytes_def)
  then show "ob_overlap (snd (process_chunk b c False)) = last_bytes (ob_overlap_size b) (x @ c)"
    by (simp add: assms last_bytes_append_last)
qed

lemma contains_pattern_iff: "contains_pattern h p \<longleftrightarrow> sublist p h"
  by (auto simp: contains_pattern_def any_window_iff_sublist dest: sublist_length_le)

lemma fold_max_ge: "(a :: nat) \<le> fold max xs a"
  by (induction xs arbitrary: a) (simp, metis fold_simps(2) max.bounded_iff)

lemma fold_max_mem: "x \<in> set xs \<Longrightarrow> (x :: nat) \<le> fold max xs a"
proof (induction xs arbitrary: a)
  case (Cons y ys)
  have "x \<le> fold max ys (max y a)" if "x = y"
    using fold_max_ge [of "max y a" ys] that by simp
  with Cons show ?case by auto
qed simp

lemma max_pattern_len_ge: "p \<in> set ps \<Longrightarrow> length p \<le> max_pattern_len ps"
  by (simp add: max_pattern_len_def fold_max_mem)

text \<open>A stream in which no pattern occurs.\<close>

definition clean :: "bytes list \<Rightarrow> bytes \<Rightarrow> bool" where
  "clean ps x \<longleftrightarrow> list_all (\<lambda>p. \<not> sublist p x) ps"

text \<open>
  The scanner's state after a clean stream \<open>x\<close>: the same patterns, none longer than the overlap,
  and the overlap the end of \<open>x\<close>.
\<close>

definition scanned :: "bytes list \<Rightarrow> StreamScanner \<Rightarrow> bytes \<Rightarrow> bool" where
  "scanned ps sc x \<longleftrightarrow>
     ss_patterns sc = ps \<and> clean ps x \<and>
     ob_overlap (ss_buffer sc) = last_bytes (ob_overlap_size (ss_buffer sc)) x \<and>
     (\<forall>p \<in> set ps. length p \<le> ob_overlap_size (ss_buffer sc))"

lemma scanned_new: "[] \<notin> set ps \<Longrightarrow> scanned ps (StreamScanner_new ps) []"
  by (auto simp: scanned_def StreamScanner_new_def OverlapBuffer_new_def clean_def list_all_iff
      last_bytes_def intro: max_pattern_len_ge max.coboundedI1)

lemma scan_chunk_found:
  assumes "scanned ps sc x"
  shows "fst (scan_chunk sc c l) \<longleftrightarrow> \<not> clean ps (x @ c)"
proof -
  let ?n = "ob_overlap_size (ss_buffer sc)"
  have sub: "sublist p (last_bytes ?n x @ c) \<longleftrightarrow> sublist p (x @ c)" if p: "p \<in> set ps" for p
  proof
    assume "sublist p (last_bytes ?n x @ c)"
    also have "sublist (last_bytes ?n x @ c) (take (length x - ?n) x @ last_bytes ?n x @ c)"
      by (rule sublist_append_leftI)
    also have "take (length x - ?n) x @ last_bytes ?n x @ c = x @ c"
      by (simp add: last_bytes_def)
    finally show "sublist p (x @ c)" .
  next
    assume "sublist p (x @ c)"
    moreover have "\<not> sublist p x" using assms p by (auto simp: scanned_def clean_def list_all_iff)
    moreover have "length p \<le> length (last_bytes ?n x) \<or> take (length x - ?n) x = []"
      using assms p by (auto simp: scanned_def last_bytes_def)
    ultimately show "sublist p (last_bytes ?n x @ c)"
      using sublist_append_suffix [OF _ _ last_bytes_split] by blast
  qed
  have "fst (process_chunk (ss_buffer sc) c l) = last_bytes ?n x @ c"
    using assms process_chunk_keeps(1) by (auto simp: scanned_def)
  then have "fst (scan_chunk sc c l) \<longleftrightarrow> (\<exists>p \<in> set ps. sublist p (last_bytes ?n x @ c))"
    using assms
    by (auto simp: scan_chunk_def scanned_def list_ex_iff contains_pattern_iff split_beta)
  also have "\<dots> \<longleftrightarrow> \<not> clean ps (x @ c)"
    using sub by (auto simp: clean_def list_all_iff)
  finally show ?thesis .
qed

lemma scan_chunk_scanned:
  assumes "scanned ps sc x" and "\<not> fst (scan_chunk sc c False)"
  shows "scanned ps (snd (scan_chunk sc c False)) (x @ c)"
proof -
  have "clean ps (x @ c)" using scan_chunk_found [OF assms(1)] assms(2) by blast
  with assms(1) show ?thesis
    using process_chunk_keeps(2,3) [of "ss_buffer sc" x]
    by (simp add: scanned_def scan_chunk_def split_beta)
qed

section \<open>The contract between scanner and body\<close>

lemma clean_appendD: "clean ps (x @ y) \<Longrightarrow> clean ps x"
  unfolding clean_def list_all_iff
  by (meson sublist_append_rightI sublist_order.order.trans)

locale stream_scanner =
  fixes scan :: "'s \<Rightarrow> bytes \<Rightarrow> bool \<Rightarrow> bool \<times> 's" and holds :: "'s \<Rightarrow> bytes \<Rightarrow> bool"
    and ps :: "bytes list"
  assumes found: "holds s x \<Longrightarrow> fst (scan s c l) \<longleftrightarrow> \<not> clean ps (x @ c)"
    and keeps: "holds s x \<Longrightarrow> \<not> fst (scan s c False) \<Longrightarrow> holds (snd (scan s c False)) (x @ c)"
    and holds_clean: "holds s x \<Longrightarrow> clean ps x"
begin

text \<open>The loop over header values scans their concatenation.\<close>

lemma values_scanned:
  assumes "holds s x"
  shows "(fst (scan_values scan vs s) \<longleftrightarrow> \<not> clean ps (x @ concat (map as_bytes vs))) \<and>
    (\<not> fst (scan_values scan vs s) \<longrightarrow> holds (snd (scan_values scan vs s)) (x @ concat (map as_bytes vs)))"
  using assms
proof (induction vs arbitrary: s x)
  case Nil
  then show ?case by (simp add: holds_clean)
next
  case (Cons v vs)
  obtain f s' where fs: "scan s (as_bytes v) False = (f, s')" by force
  show ?case
  proof (cases f)
    case True
    then have "\<not> clean ps (x @ as_bytes v)" using found [OF Cons.prems] fs by (metis fst_conv)
    then have "\<not> clean ps ((x @ as_bytes v) @ concat (map as_bytes vs))" using clean_appendD by blast
    with fs True show ?thesis by simp
  next
    case False
    then have "holds s' (x @ as_bytes v)" using keeps [OF Cons.prems] fs by (metis fst_conv snd_conv)
    from Cons.IH [OF this] fs False show ?thesis by simp
  qed
qed

text \<open>A last scan of nothing finds nothing new.\<close>

lemma flush_finds_nothing: "holds s x \<Longrightarrow> \<not> fst (scan s [] l)"
  using found [of s x "[]" l] holds_clean [of s x] by simp

end

interpretation leak: stream_scanner scan_chunk "scanned ps" ps for ps
  by unfold_locales (auto simp: scan_chunk_found scan_chunk_scanned, simp add: scanned_def)

section \<open>The body keeps the secret in\<close>

fun frame_bytes :: "'h header_lib \<Rightarrow> 'h frame \<Rightarrow> bytes" where
  "frame_bytes H (DataFrame d) = d"
| "frame_bytes H (Trailers t) = concat (map as_bytes (h_values H t))"

fun poll_bytes :: "'h header_lib \<Rightarrow> ('e, 'h) poll \<Rightarrow> bytes" where
  "poll_bytes H (ReadyOk f) = frame_bytes H f"
| "poll_bytes H _ = []"

definition all_bytes :: "'h header_lib \<Rightarrow> ('e, 'h) poll list \<Rightarrow> bytes" where
  "all_bytes H ps = concat (map (poll_bytes H) ps)"

lemma all_bytes_simps [simp]:
  "all_bytes H [] = []" "all_bytes H (p # ps) = poll_bytes H p @ all_bytes H ps"
  by (simp_all add: all_bytes_def)

text \<open>After the stream \<open>x\<close> was passed on: it is clean, and a live wrapper remembers it.\<close>

definition body_inv :: "bytes list \<Rightarrow> 'h ScanningBody \<Rightarrow> bytes \<Rightarrow> bool" where
  "body_inv ps s x \<longleftrightarrow>
     clean ps x \<and> (\<not> sb_detected s \<and> \<not> sb_completed s \<longrightarrow> scanned ps (sb_scanner s) x)"

lemma body_inv_new: "[] \<notin> set ps \<Longrightarrow> body_inv ps (ScanningBody_new inner ps) []"
  by (simp add: body_inv_def ScanningBody_new_def ScanningBody_with_scanner_def scanned_new)
     (auto simp: clean_def list_all_iff)

lemma poll_frame_live:
  assumes inv: "scanned ps (sb_scanner s) x" and live: "\<not> sb_detected s" "\<not> sb_completed s"
    and inner: "poll_inner (sb_inner s) = (p, rest)" and poll: "poll_frame H s = ((m, q), s')"
  shows "(clean ps (x @ poll_bytes H p) \<longrightarrow> q = p \<and> m = [] \<and> body_inv ps s' (x @ poll_bytes H p) \<and>
            \<not> sb_detected s' \<and> (sb_completed s' \<longleftrightarrow> p = ReadyNone) \<and> sb_inner s' = rest) \<and>
         (\<not> clean ps (x @ poll_bytes H p) \<longrightarrow>
            (m, q) = secret_leak_error \<and> sb_detected s')"
proof -
  note cl = leak.holds_clean [OF inv]
  have sc: "scan_chunk (sb_scanner s) c False = (f, s2) \<Longrightarrow>
      (f \<longleftrightarrow> \<not> clean ps (x @ c)) \<and> (\<not> f \<longrightarrow> scanned ps s2 (x @ c))" for c f s2
    using leak.found [OF inv, of c False] leak.keeps [OF inv, of c] by auto
  have sv: "scan_header_values H t (sb_scanner s) = (f, s2) \<Longrightarrow>
      (f \<longleftrightarrow> \<not> clean ps (x @ frame_bytes H (Trailers t))) \<and>
      (\<not> f \<longrightarrow> scanned ps s2 (x @ frame_bytes H (Trailers t)))" for t f s2
    using leak.values_scanned [OF inv, of "h_values H t"] by (auto simp: scan_header_values_def)
  have fl: "scan_chunk (sb_scanner s) [] True = (f, s2) \<Longrightarrow> \<not> f" for f s2
    using leak.flush_finds_nothing [OF inv, of True] by auto
  show ?thesis
  proof (cases p)
    case (ReadyOk fr)
    show ?thesis
    proof (cases fr)
      case (DataFrame d)
      obtain f s2 where f: "scan_chunk (sb_scanner s) d False = (f, s2)" by force
      from sc [OF f] f show ?thesis
        using poll live inner ReadyOk DataFrame by (cases f) (auto simp: poll_frame_def body_inv_def)
    next
      case (Trailers t)
      obtain f s2 where f: "scan_header_values H t (sb_scanner s) = (f, s2)" by force
      from sv [OF f] f show ?thesis
        using poll live inner ReadyOk Trailers by (cases f) (auto simp: poll_frame_def body_inv_def)
    qed
  next
    case ReadyNone
    then show ?thesis
      using poll live inner fl cl
      by (auto simp: poll_frame_def body_inv_def split: prod.splits bool.splits)
  qed (use poll live inner inv cl in \<open>auto simp: poll_frame_def body_inv_def\<close>)
qed

lemma poll_frame_done:
  assumes "sb_detected s \<or> sb_completed s" and "poll_frame H s = ((m, q), s')"
  shows "s' = s \<and> poll_bytes H q = [] \<and> m = [] \<and>
    q = (if sb_detected s then ReadyErr (BoxTok SecretLeakDetected) else ReadyNone)"
  using assms by (auto simp: poll_frame_def split: if_splits)

lemma poll_frame_inv:
  assumes "body_inv ps s x" and "poll_frame H s = ((m, q), s')"
  shows "body_inv ps s' (x @ poll_bytes H q)"
proof (cases "sb_detected s \<or> sb_completed s")
  case True
  with poll_frame_done [OF True assms(2)] assms(1) show ?thesis by simp
next
  case False
  obtain p rest where p: "poll_inner (sb_inner s) = (p, rest)" by force
  from False assms(1) have "scanned ps (sb_scanner s) x" by (simp add: body_inv_def)
  from poll_frame_live [OF this _ _ p assms(2)] False assms(1) show ?thesis
    by (auto simp: body_inv_def secret_leak_error_def)
qed

lemma polls_clean: "body_inv ps s x \<Longrightarrow> clean ps (x @ all_bytes H (polls H n s))"
proof (induction n arbitrary: s x)
  case 0
  then show ?case by (simp add: body_inv_def)
next
  case (Suc n)
  obtain m q s' where q: "poll_frame H s = ((m, q), s')" by (metis surj_pair)
  from Suc.IH [OF poll_frame_inv [OF Suc.prems q]] q show ?case by simp
qed

lemma polls_transparent:
  assumes "body_inv ps s x" and "\<not> sb_detected s" and "\<not> sb_completed s"
    and "clean ps (x @ all_bytes H (sb_inner s))" and "ReadyNone \<notin> set (sb_inner s)"
    and "n \<le> length (sb_inner s)"
  shows "polls H n s = take n (sb_inner s)"
  using assms
proof (induction n arbitrary: s x)
  case (Suc n)
  then obtain p rest where inner: "sb_inner s = p # rest" by (cases "sb_inner s") auto
  obtain m q s' where q: "poll_frame H s = ((m, q), s')" by (metis surj_pair)
  have sc: "scanned ps (sb_scanner s) x" using Suc.prems(1-3) by (simp add: body_inv_def)
  have "clean ps ((x @ poll_bytes H p) @ all_bytes H rest)" using Suc.prems(4) inner by simp
  then have "clean ps (x @ poll_bytes H p)" by (rule clean_appendD)
  with poll_frame_live [OF sc Suc.prems(2,3) _ q] inner Suc.prems(5)
  have "q = p" "body_inv ps s' (x @ poll_bytes H p)" "\<not> sb_detected s'" "\<not> sb_completed s'"
    "sb_inner s' = rest" by auto
  with Suc.IH [of s' "x @ poll_bytes H p"] Suc.prems(4-6) inner q show ?case by simp
qed simp

lemma polls_detects:
  assumes "body_inv ps s x" and "\<not> sb_detected s" and "\<not> sb_completed s"
    and "\<not> clean ps (x @ all_bytes H (sb_inner s))" and "ReadyNone \<notin> set (sb_inner s)"
  shows "ReadyErr (BoxTok SecretLeakDetected) \<in> set (polls H (length (sb_inner s)) s)"
  using assms
proof (induction "sb_inner s" arbitrary: s x)
  case Nil
  then show ?case by (simp add: body_inv_def)
next
  case (Cons p rest)
  obtain m q s' where q: "poll_frame H s = ((m, q), s')" by (metis surj_pair)
  have sc: "scanned ps (sb_scanner s) x" using Cons.prems(1-3) by (simp add: body_inv_def)
  have inner: "poll_inner (sb_inner s) = (p, rest)" using Cons.hyps(2) by (metis poll_inner.simps(2))
  note live = poll_frame_live [OF sc Cons.prems(2,3) inner q]
  have polls: "polls H (length (sb_inner s)) s = q # polls H (length rest) s'"
    using Cons.hyps(2) [symmetric] q by simp
  show ?case
  proof (cases "clean ps (x @ poll_bytes H p)")
    case False
    with live polls show ?thesis by (simp add: secret_leak_error_def)
  next
    case True
    with live Cons.prems(5) Cons.hyps(2) have s': "body_inv ps s' (x @ poll_bytes H p)"
      "\<not> sb_detected s'" "\<not> sb_completed s'" "sb_inner s' = rest" by (metis list.set_intros(1))+
    have "\<not> clean ps ((x @ poll_bytes H p) @ all_bytes H (sb_inner s'))"
      using Cons.prems(4) Cons.hyps(2) s'(4) by (metis all_bytes_simps(2) append_assoc)
    with Cons.hyps(1) [OF s'(4) [symmetric] s'(1-3)] Cons.prems(5) Cons.hyps(2) s'(4) polls
    show ?thesis by (metis list.set_intros(2))
  qed
qed

text \<open>An empty pattern is found in every chunk, so nothing at all is passed on.\<close>

lemma scan_empty_pattern: "[] \<in> set (ss_patterns sc) \<Longrightarrow>
    fst (scan_chunk sc c l) \<and> ss_patterns (snd (scan_chunk sc c l)) = ss_patterns sc"
  by (auto simp: scan_chunk_def list_ex_iff contains_pattern_def split_beta)

lemma scan_values_empty_pattern:
  assumes "[] \<in> set (ss_patterns sc)" and "scan_values scan_chunk vs sc = (f, sc')"
  shows "(f \<longleftrightarrow> vs \<noteq> []) \<and> ss_patterns sc' = ss_patterns sc"
proof (cases vs)
  case Nil
  with assms(2) show ?thesis by simp
next
  case (Cons v ws)
  obtain g sc1 where g: "scan_chunk sc (as_bytes v) False = (g, sc1)" by force
  with scan_empty_pattern [OF assms(1), of "as_bytes v" False]
  have "g" "ss_patterns sc1 = ss_patterns sc" by simp_all
  with assms(2) Cons g show ?thesis by simp
qed

lemma poll_frame_empty_pattern:
  assumes "[] \<in> set (ss_patterns (sb_scanner s))" and "poll_frame H s = ((m, q), s')"
  shows "poll_bytes H q = [] \<and> [] \<in> set (ss_patterns (sb_scanner s'))"
proof (cases "sb_detected s \<or> sb_completed s")
  case True
  with poll_frame_done [OF True assms(2)] assms(1) show ?thesis by simp
next
  case False
  obtain p rest where p: "poll_inner (sb_inner s) = (p, rest)" by force
  define sc where "sc d l = snd (scan_chunk (sb_scanner s) d l)" for d l
  have c: "scan_chunk (sb_scanner s) d l = (True, sc d l)" for d l
    using scan_empty_pattern [OF assms(1), of d l] by (simp add: sc_def prod_eq_iff)
  have sc: "[] \<in> set (ss_patterns (sc d l))" for d l
    using scan_empty_pattern [OF assms(1), of d l] assms(1) by (simp add: sc_def)
  show ?thesis
  proof (cases p)
    case (ReadyOk fr)
    show ?thesis
    proof (cases fr)
      case (DataFrame d)
      with assms(2) False p ReadyOk c sc show ?thesis
        by (auto simp: poll_frame_def secret_leak_error_def)
    next
      case (Trailers t)
      obtain g sd where g: "scan_header_values H t (sb_scanner s) = (g, sd)" by force
      then have "(g \<longleftrightarrow> h_values H t \<noteq> []) \<and> [] \<in> set (ss_patterns sd)"
        using scan_values_empty_pattern [OF assms(1)] assms(1) by (simp add: scan_header_values_def)
      with assms(2) False p ReadyOk Trailers g show ?thesis
        by (cases g) (auto simp: poll_frame_def secret_leak_error_def)
    qed
  next
    case ReadyNone
    with assms(2) False p c sc show ?thesis
      by (auto simp: poll_frame_def secret_leak_error_def)
  qed (use assms False p in \<open>auto simp: poll_frame_def\<close>)
qed

lemma polls_empty_pattern:
  "[] \<in> set (ss_patterns (sb_scanner s)) \<Longrightarrow> all_bytes H (polls H n s) = []"
proof (induction n arbitrary: s)
  case (Suc n)
  obtain m q s' where q: "poll_frame H s = ((m, q), s')" by (metis surj_pair)
  from poll_frame_empty_pattern [OF Suc.prems q] Suc.IH q show ?case by simp
qed simp

lemma no_leak:
  assumes "p \<in> set ps" and "p \<noteq> []"
  shows "\<not> sublist p (all_bytes H (polls H n (ScanningBody_new inner ps)))"
proof (cases "[] \<in> set ps")
  case True
  then have "all_bytes H (polls H n (ScanningBody_new inner ps)) = []"
    by (intro polls_empty_pattern)
      (simp add: ScanningBody_new_def ScanningBody_with_scanner_def StreamScanner_new_def)
  with assms(2) show ?thesis by simp
next
  case False
  from polls_clean [OF body_inv_new [OF False], of H n inner] assms(1) show ?thesis
    by (simp add: clean_def list_all_iff)
qed

section \<open>Properties\<close>

text \<open>
  Property C14. However the body is cut into frames and however often and long the consumer polls,
  also after errors, no pattern occurs in the bytes that the scanning body has passed on, data and
  trailer values taken together in their order.
\<close>

theorem scanning_body_never_leaks:
  assumes "p \<in> set ps" and "p \<noteq> []"
  shows "\<not> sublist p (all_bytes H (polls H n (ScanningBody_new inner ps)))"
  using assms by (rule no_leak)

theorem scanning_body_never_leaks_witness:
  "\<not> sublist [2, 3] (all_bytes assoc_headers (polls assoc_headers 5
     (ScanningBody_new [ReadyOk (DataFrame [1, 2]), Pending, ReadyOk (DataFrame [3])] [[2, 3]])))"
  using scanning_body_never_leaks [of "[2, 3]" "[[2, 3]]" assoc_headers 5
      "[ReadyOk (DataFrame [1, 2]), Pending, ReadyOk (DataFrame [3])]"] by simp

text \<open>
  Property C16. A body in whose bytes no pattern occurs is passed on poll by poll unchanged: the
  scanner raises no false alarm across frames.
\<close>

theorem scanning_body_transparent:
  assumes "[] \<notin> set ps" and "\<forall>p \<in> set ps. \<not> sublist p (all_bytes H inner)"
    and "ReadyNone \<notin> set inner" and "n \<le> length inner"
  shows "polls H n (ScanningBody_new inner ps) = take n inner"
  using polls_transparent [OF body_inv_new [OF assms(1)], of inner H n] assms(2-4)
  by (simp add: ScanningBody_new_def ScanningBody_with_scanner_def clean_def list_all_iff)

theorem scanning_body_transparent_witness:
  "polls assoc_headers 2 (ScanningBody_new [ReadyOk (DataFrame [1, 2]), ReadyOk (DataFrame [3])] [[3, 3]]) =
     [ReadyOk (DataFrame [1, 2]), ReadyOk (DataFrame [3])]"
  using scanning_body_transparent [of "[[3, 3]]" assoc_headers
      "[ReadyOk (DataFrame [1, 2]), ReadyOk (DataFrame [3])]" 2]
  by (simp add: any_window_iff_sublist [symmetric] any_window_def windows_def)

text \<open>
  Property C15. A pattern that occurs in the bytes of the body, across any number of frames, is
  detected: a consumer that reads to the end is given the leak error.
\<close>

theorem scanning_body_detects:
  assumes "[] \<notin> set ps" and "p \<in> set ps" and "sublist p (all_bytes H inner)"
    and "ReadyNone \<notin> set inner"
  shows "ReadyErr (BoxTok SecretLeakDetected) \<in> set (polls H (length inner) (ScanningBody_new inner ps))"
  using polls_detects [OF body_inv_new [OF assms(1)], of inner H] assms(2-4)
  by (auto simp: ScanningBody_new_def ScanningBody_with_scanner_def clean_def list_all_iff)

theorem scanning_body_detects_witness:
  "ReadyErr (BoxTok SecretLeakDetected) \<in> set (polls assoc_headers 2
     (ScanningBody_new [ReadyOk (DataFrame [1, 2]), ReadyOk (DataFrame [3])] [[2, 3]]))"
  using scanning_body_detects [of "[[2, 3]]" "[2, 3]" assoc_headers
      "[ReadyOk (DataFrame [1, 2]), ReadyOk (DataFrame [3])]"]
  by (simp add: any_window_iff_sublist [symmetric] any_window_def windows_def numeral_2_eq_2)

text \<open>
  Note. A pattern added after the scanner was created does not enlarge the overlap: one that
  is longer than the overlap and split after more bytes than the overlap keeps is not found.
\<close>

theorem add_pattern_misses_split:
  assumes "length a > DEFAULT_OVERLAP_SIZE" and "b \<noteq> []"
  defines "sc \<equiv> add_pattern (StreamScanner_new []) (a @ b)"
  shows "\<not> fst (scan_chunk sc a False) \<and> \<not> fst (scan_chunk (snd (scan_chunk sc a False)) b False)"
proof -
  have sc: "ss_patterns sc = [a @ b]" "ob_overlap (ss_buffer sc) = []"
    "ob_overlap_size (ss_buffer sc) = DEFAULT_OVERLAP_SIZE"
    by (simp_all add: sc_def add_pattern_def StreamScanner_new_def OverlapBuffer_new_def
        max_pattern_len_def)
  have one: "\<not> fst (scan_chunk sc a False)"
    using assms(2) by (simp add: scan_chunk_def process_chunk_def sc contains_pattern_def Let_def)
  have "length (ob_overlap (ss_buffer (snd (scan_chunk sc a False)))) = DEFAULT_OVERLAP_SIZE"
    "ss_patterns (snd (scan_chunk sc a False)) = [a @ b]"
    using assms(1) by (simp_all add: scan_chunk_def process_chunk_def sc Let_def)
  then have "\<not> fst (scan_chunk (snd (scan_chunk sc a False)) b False)"
    using assms(1,2)
    by (simp add: scan_chunk_def process_chunk_def contains_pattern_def Let_def split_beta)
  with one show ?thesis by simp
qed

theorem add_pattern_misses_split_witness:
  "\<not> fst (scan_chunk (snd (scan_chunk (add_pattern (StreamScanner_new []) (replicate 300 7 @ [8]))
        (replicate 300 7) False)) [8] False)"
proof -
  have "length (replicate 300 (7 :: byte)) > DEFAULT_OVERLAP_SIZE"
    by (simp only: length_replicate DEFAULT_OVERLAP_SIZE_def)
  from add_pattern_misses_split [OF this, of "[8]"] show ?thesis by blast
qed

end
