(* ===== verification/Decompress.thy ===== *)
theory Decompress
  imports Body_Scan
begin

text \<open>
  Decompression of response bodies, \<open>crates/icebreaker-proxy/src/body/decompressing.rs\<close>: the reader
  that turns frames into a byte stream, the wrapper that turns a reader back into frames, and the
  body that counts decompressed bytes. The decoders of \<open>async_compression\<close> are a parameter: a
  reader type \<open>'r\<close> and its \<open>poll_read\<close>. Proved: the reader hands on the data of the frames in order,
  without loss or repetition, under any buffer sizes; and a decompressing body passes on at most
  \<open>MAX_DECOMPRESSED_SIZE\<close> bytes, whatever the decoder produces.
\<close>

section \<open>From frames to bytes: BodyReader\<close>

text \<open>A read is pending, fails, or fills a part of the buffer it was given.\<close>

datatype read_poll = RPending | RErr box_error | RFilled bytes

record 'h BodyReader =
  br_body :: "(box_error, 'h) poll list"
  br_chunk :: "bytes option"
  br_eof :: bool
  br_error :: "box_error option"

definition BodyReader_new :: "(box_error, 'h) poll list \<Rightarrow> 'h BodyReader" where
  "BodyReader_new body = \<lparr>br_body = body, br_chunk = None, br_eof = False, br_error = None\<rparr>"

text \<open>The part of \<open>poll_read\<close> after the chunk: end of file or the next frame.\<close>

definition read_next :: "'h BodyReader \<Rightarrow> nat \<Rightarrow> read_poll \<times> 'h BodyReader" where
  "read_next self remaining =
     (if br_eof self then (RFilled [], self)
      else
        (case poll_inner (br_body self) of
           (Pending, rest) \<Rightarrow> (RPending, self\<lparr>br_body := rest\<rparr>)
         | (ReadyOk (DataFrame data), rest) \<Rightarrow>
             if data \<noteq> [] then
               (let to_read = min (length data) remaining
                in (RFilled (take to_read data),
                    (if to_read < length data
                     then self\<lparr>br_body := rest, br_chunk := Some (drop to_read data)\<rparr>
                     else self\<lparr>br_body := rest\<rparr>)))
             else (RPending, self\<lparr>br_body := rest\<rparr>)
         | (ReadyOk (Trailers _), rest) \<Rightarrow> (RPending, self\<lparr>br_body := rest\<rparr>)
         | (ReadyErr e, rest) \<Rightarrow> (RErr e, self\<lparr>br_body := rest, br_eof := True\<rparr>)
         | (ReadyNone, rest) \<Rightarrow> (RFilled [], self\<lparr>br_body := rest, br_eof := True\<rparr>)))"

definition poll_read :: "'h BodyReader \<Rightarrow> nat \<Rightarrow> read_poll \<times> 'h BodyReader" where
  "poll_read self remaining =
     (case br_error self of
        Some e \<Rightarrow> (RErr e, self\<lparr>br_error := None\<rparr>)
      | None \<Rightarrow>
          (case br_chunk self of
             Some chunk \<Rightarrow>
               if chunk \<noteq> [] then
                 (let to_read = min (length chunk) remaining
                  in (RFilled (take to_read chunk), self\<lparr>br_chunk := Some (drop to_read chunk)\<rparr>))
               else read_next (self\<lparr>br_chunk := None\<rparr>) remaining
           | None \<Rightarrow> read_next self remaining))"

definition poll_fill_buf :: "'h BodyReader \<Rightarrow> read_poll \<times> 'h BodyReader" where
  "poll_fill_buf self =
     (case br_error self of
        Some e \<Rightarrow> (RErr e, self\<lparr>br_error := None\<rparr>)
      | None \<Rightarrow>
          if (case br_chunk self of Some c \<Rightarrow> c \<noteq> [] | None \<Rightarrow> False)
          then (RFilled (the (br_chunk self)), self)
          else if br_eof self then (RFilled [], self)
          else
            (case poll_inner (br_body self) of
               (Pending, rest) \<Rightarrow> (RPending, self\<lparr>br_body := rest\<rparr>)
             | (ReadyOk (DataFrame data), rest) \<Rightarrow>
                 if data \<noteq> [] then (RFilled data, self\<lparr>br_body := rest, br_chunk := Some data\<rparr>)
                 else (RPending, self\<lparr>br_body := rest\<rparr>)
             | (ReadyOk (Trailers _), rest) \<Rightarrow> (RPending, self\<lparr>br_body := rest\<rparr>)
             | (ReadyErr e, rest) \<Rightarrow> (RErr e, self\<lparr>br_body := rest, br_eof := True\<rparr>)
             | (ReadyNone, rest) \<Rightarrow> (RFilled [], self\<lparr>br_body := rest, br_eof := True\<rparr>)))"

definition consume :: "'h BodyReader \<Rightarrow> nat \<Rightarrow> 'h BodyReader" where
  "consume self amt =
     (case br_chunk self of
        Some chunk \<Rightarrow>
          if amt \<ge> length chunk then self\<lparr>br_chunk := None\<rparr>
          else self\<lparr>br_chunk := Some (drop amt chunk)\<rparr>
      | None \<Rightarrow> self)"

section \<open>From bytes to frames: WrapBody\<close>

definition MAX_DECOMPRESSED_SIZE :: u64 where
  "MAX_DECOMPRESSED_SIZE = 100 * 1024 * 1024"

definition DECOMPRESS_CHUNK_SIZE :: nat where
  "DECOMPRESS_CHUNK_SIZE = 8192"

text \<open>The decoders: how each is built over a reader, and a read of at most the given size.\<close>

record ('h, 'r) decoder_lib =
  gzip_new :: "'h BodyReader \<Rightarrow> 'r"
  zlib_new :: "'h BodyReader \<Rightarrow> 'r"
  brotli_new :: "'h BodyReader \<Rightarrow> 'r"
  zstd_new :: "'h BodyReader \<Rightarrow> 'r"
  dec_read :: "'r \<Rightarrow> nat \<Rightarrow> read_poll \<times> 'r"

text \<open>A read never fills more than the buffer it was given.\<close>

definition decoder_laws :: "('h, 'r) decoder_lib \<Rightarrow> bool" where
  "decoder_laws D \<longleftrightarrow> (\<forall>r n b r'. dec_read D r n = (RFilled b, r') \<longrightarrow> length b \<le> n)"

fun box_text :: "box_error \<Rightarrow> string" where
  "box_text (BoxTok e) = to_string e"
| "box_text (BoxOther s) = s"

datatype DecompressError = SizeLimitExceeded | Io string | Body string

fun decompress_error_text :: "DecompressError \<Rightarrow> string" where
  "decompress_error_text SizeLimitExceeded =
     ''decompressed size exceeded maximum of '' @ nat_to_string (unat MAX_DECOMPRESSED_SIZE) @ '' bytes''"
| "decompress_error_text (Io e) = ''decompression I/O error: '' @ e"
| "decompress_error_text (Body e) = ''body error: '' @ e"

definition wrap_poll_frame :: "('h, 'r) decoder_lib \<Rightarrow> 'r \<Rightarrow> (box_error, 'h) poll \<times> 'r" where
  "wrap_poll_frame D reader =
     (case dec_read D reader DECOMPRESS_CHUNK_SIZE of
        (RPending, r) \<Rightarrow> (Pending, r)
      | (RFilled filled, r) \<Rightarrow> (if filled = [] then ReadyNone else ReadyOk (DataFrame filled), r)
      | (RErr e, r) \<Rightarrow> (ReadyErr (BoxOther (decompress_error_text (Io (box_text e)))), r))"

section \<open>The decompressing body\<close>

datatype ('h, 'r) DecompressInner =
    Identity "(box_error, 'h) poll list" | Gzip 'r | Deflate 'r | Brotli 'r | Zstd 'r

record ('h, 'r) DecompressingBody =
  db_inner :: "('h, 'r) DecompressInner"
  db_decompressed_bytes :: u64
  db_completed :: bool

definition body_over :: "('h, 'r) DecompressInner \<Rightarrow> ('h, 'r) DecompressingBody" where
  "body_over i = \<lparr>db_inner = i, db_decompressed_bytes = 0, db_completed = False\<rparr>"

definition body_identity :: "(box_error, 'h) poll list \<Rightarrow> ('h, 'r) DecompressingBody" where
  "body_identity inner = body_over (Identity inner)"

definition body_gzip :: "('h, 'r) decoder_lib \<Rightarrow> (box_error, 'h) poll list \<Rightarrow> ('h, 'r) DecompressingBody" where
  "body_gzip D inner = body_over (Gzip (gzip_new D (BodyReader_new inner)))"

definition body_deflate :: "('h, 'r) decoder_lib \<Rightarrow> (box_error, 'h) poll list \<Rightarrow> ('h, 'r) DecompressingBody" where
  "body_deflate D inner = body_over (Deflate (zlib_new D (BodyReader_new inner)))"

definition body_brotli :: "('h, 'r) decoder_lib \<Rightarrow> (box_error, 'h) poll list \<Rightarrow> ('h, 'r) DecompressingBody" where
  "body_brotli D inner = body_over (Brotli (brotli_new D (BodyReader_new inner)))"

definition body_zstd :: "('h, 'r) decoder_lib \<Rightarrow> (box_error, 'h) poll list \<Rightarrow> ('h, 'r) DecompressingBody" where
  "body_zstd D inner = body_over (Zstd (zstd_new D (BodyReader_new inner)))"

text \<open>Returns the answer, the reader, the new byte count and the new \<open>completed\<close> flag.\<close>

definition poll_decompressing_frame :: "('h, 'r) decoder_lib \<Rightarrow> 'r \<Rightarrow> u64 \<Rightarrow> bool \<Rightarrow>
    (box_error, 'h) poll \<times> 'r \<times> u64 \<times> bool" where
  "poll_decompressing_frame D reader decompressed_bytes completed =
     (case wrap_poll_frame D reader of
        (Pending, r) \<Rightarrow> (Pending, r, decompressed_bytes, completed)
      | (ReadyOk (DataFrame data), r) \<Rightarrow>
          (let tot = saturating_add decompressed_bytes (of_nat (length data)) in
           if tot > MAX_DECOMPRESSED_SIZE
           then (ReadyErr (BoxOther (decompress_error_text SizeLimitExceeded)), r, tot, True)
           else (ReadyOk (DataFrame data), r, tot, completed))
      | (ReadyOk (Trailers t), r) \<Rightarrow> (ReadyOk (Trailers t), r, decompressed_bytes, completed)
      | (ReadyErr e, r) \<Rightarrow> (ReadyErr e, r, decompressed_bytes, True)
      | (ReadyNone, r) \<Rightarrow> (ReadyNone, r, decompressed_bytes, True))"

text \<open>The four decoder variants run the same step and keep their tag.\<close>

definition poll_variant :: "('h, 'r) decoder_lib \<Rightarrow> ('h, 'r) DecompressingBody \<Rightarrow>
    ('r \<Rightarrow> ('h, 'r) DecompressInner) \<Rightarrow> 'r \<Rightarrow> (box_error, 'h) poll \<times> ('h, 'r) DecompressingBody" where
  "poll_variant D self tag reader =
     (case poll_decompressing_frame D reader (db_decompressed_bytes self) (db_completed self) of
        (p, r, tot, completed) \<Rightarrow>
          (p, \<lparr>db_inner = tag r, db_decompressed_bytes = tot, db_completed = completed\<rparr>))"

definition decompressing_poll_frame :: "('h, 'r) decoder_lib \<Rightarrow> ('h, 'r) DecompressingBody \<Rightarrow>
    (box_error, 'h) poll \<times> ('h, 'r) DecompressingBody" where
  "decompressing_poll_frame D self =
     (if db_completed self then (ReadyNone, self)
      else case db_inner self of
        Identity inner \<Rightarrow>
          (case poll_inner inner of
             (ReadyNone, rest) \<Rightarrow> (ReadyNone, self\<lparr>db_inner := Identity rest, db_completed := True\<rparr>)
           | (p, rest) \<Rightarrow> (p, self\<lparr>db_inner := Identity rest\<rparr>))
      | Gzip r \<Rightarrow> poll_variant D self Gzip r
      | Deflate r \<Rightarrow> poll_variant D self Deflate r
      | Brotli r \<Rightarrow> poll_variant D self Brotli r
      | Zstd r \<Rightarrow> poll_variant D self Zstd r)"

definition db_is_end_stream :: "('h, 'r) DecompressingBody \<Rightarrow> bool" where
  "db_is_end_stream self \<longleftrightarrow> db_completed self"

fun decompressed_polls :: "('h, 'r) decoder_lib \<Rightarrow> nat \<Rightarrow> ('h, 'r) DecompressingBody \<Rightarrow> (box_error, 'h) poll list" where
  "decompressed_polls D 0 s = []"
| "decompressed_polls D (Suc n) s =
     (let (p, s') = decompressing_poll_frame D s in p # decompressed_polls D n s')"

section \<open>A reader hands on a byte stream\<close>

text \<open>The answers to reads with the given buffer sizes, and the bytes that they deliver.\<close>

fun reads :: "('s \<Rightarrow> nat \<Rightarrow> read_poll \<times> 's) \<Rightarrow> 's \<Rightarrow> nat list \<Rightarrow> read_poll list" where
  "reads rd s [] = []"
| "reads rd s (n # ns) = (case rd s n of (p, s') \<Rightarrow> p # reads rd s' ns)"

fun filled_bytes :: "read_poll list \<Rightarrow> bytes" where
  "filled_bytes [] = []"
| "filled_bytes (RFilled b # ps) = b @ filled_bytes ps"
| "filled_bytes (_ # ps) = filled_bytes ps"

lemma length_reads [simp]: "length (reads rd s ns) = length ns"
  by (induction ns arbitrary: s) (simp_all split: prod.split)

text \<open>
  What a consumer relies on: \<open>left\<close> is the data still to come, \<open>fails\<close> the error after it, and
  \<open>budget\<close> bounds the reads until the end of the stream is reported.
\<close>

locale byte_source =
  fixes rd :: "'s \<Rightarrow> nat \<Rightarrow> read_poll \<times> 's" and ok_state :: "'s \<Rightarrow> bool"
    and left :: "'s \<Rightarrow> bytes" and fails :: "'s \<Rightarrow> box_error option" and budget :: "'s \<Rightarrow> nat"
  assumes keeps: "ok_state s \<Longrightarrow> rd s n = (p, s') \<Longrightarrow> ok_state s'"
    and filled: "ok_state s \<Longrightarrow> rd s n = (RFilled b, s') \<Longrightarrow>
      left s = b @ left s' \<and> length b \<le> n \<and> fails s' = fails s"
    and pending: "ok_state s \<Longrightarrow> rd s n = (RPending, s') \<Longrightarrow> left s' = left s \<and> fails s' = fails s"
    and failed: "ok_state s \<Longrightarrow> rd s n = (RErr e, s') \<Longrightarrow>
      left s = [] \<and> left s' = [] \<and> fails s = Some e \<and> fails s' = None"
    and ended: "ok_state s \<Longrightarrow> 0 < n \<Longrightarrow> rd s n = (RFilled [], s') \<Longrightarrow>
      left s = [] \<and> fails s = None \<and> budget s' = 0"
    and progress: "ok_state s \<Longrightarrow> 0 < n \<Longrightarrow> rd s n = (p, s') \<Longrightarrow> p \<noteq> RFilled [] \<Longrightarrow>
      budget s' < budget s"
begin

lemma reads_left: "ok_state s \<Longrightarrow> \<exists>rest. left s = filled_bytes (reads rd s ns) @ rest"
proof (induction ns arbitrary: s)
  case (Cons n ns)
  obtain p s' where r: "rd s n = (p, s')" by force
  from Cons.IH [OF keeps [OF Cons.prems r]] obtain rest
    where rest: "left s' = filled_bytes (reads rd s' ns) @ rest" by blast
  show ?case using r rest filled pending failed Cons.prems by (cases p) fastforce+
qed simp

lemma reads_fit: "ok_state s \<Longrightarrow> i < length ns \<Longrightarrow> reads rd s ns ! i = RFilled b \<Longrightarrow> length b \<le> ns ! i"
proof (induction ns arbitrary: s i)
  case (Cons n ns)
  obtain p s' where r: "rd s n = (p, s')" by force
  show ?case using Cons.IH [OF keeps [OF Cons.prems(1) r], of "i - 1"] Cons.prems r filled
    by (cases i) auto
qed simp

lemma reads_end:
  "ok_state s \<Longrightarrow> \<forall>n\<in>set ns. 0 < n \<Longrightarrow> i < length ns \<Longrightarrow> reads rd s ns ! i = RFilled [] \<Longrightarrow>
   filled_bytes (take i (reads rd s ns)) = left s \<and>
   (\<forall>e. fails s = Some e \<longrightarrow> RErr e \<in> set (take i (reads rd s ns)))"
proof (induction ns arbitrary: s i)
  case (Cons n ns)
  obtain p s' where r: "rd s n = (p, s')" by force
  show ?case
  proof (cases i)
    case 0
    with Cons.prems r ended show ?thesis by auto
  next
    case (Suc j)
    note IH = Cons.IH [OF keeps [OF Cons.prems(1) r], of j]
    show ?thesis using IH Cons.prems Suc r filled pending failed by (cases p) fastforce+
  qed
qed simp

lemma reads_error:
  "ok_state s \<Longrightarrow> i < length ns \<Longrightarrow> reads rd s ns ! i = RErr e \<Longrightarrow>
   filled_bytes (take i (reads rd s ns)) = left s \<and> fails s = Some e"
proof (induction ns arbitrary: s i)
  case (Cons n ns)
  obtain p s' where r: "rd s n = (p, s')" by force
  show ?case
  proof (cases i)
    case 0
    with Cons.prems r failed show ?thesis by auto
  next
    case (Suc j)
    note IH = Cons.IH [OF keeps [OF Cons.prems(1) r], of j]
    show ?thesis using IH Cons.prems Suc r filled pending failed by (cases p) fastforce+
  qed
qed simp

lemma reads_reach_end:
  "ok_state s \<Longrightarrow> \<forall>n\<in>set ns. 0 < n \<Longrightarrow> budget s < length ns \<Longrightarrow> last (reads rd s ns) = RFilled []"
proof (induction ns arbitrary: s)
  case (Cons n ns)
  obtain p s' where r: "rd s n = (p, s')" by force
  have "budget s' < length ns \<or> p = RFilled [] \<and> ns = []"
    using progress [OF Cons.prems(1) _ r] ended [OF Cons.prems(1)] Cons.prems r
    by (cases "p = RFilled []") auto
  moreover have "reads rd s' ns = [] \<longleftrightarrow> ns = []" by (metis length_0_conv length_reads)
  ultimately show ?case using Cons.IH [OF keeps [OF Cons.prems(1) r]] Cons.prems r
    by (cases "ns = []") auto
qed simp

end

text \<open>The data that a body still delivers before its end or its first error, and that error.\<close>

fun body_data :: "(box_error, 'h) poll list \<Rightarrow> bytes" where
  "body_data [] = []"
| "body_data (ReadyOk (DataFrame d) # ps) = d @ body_data ps"
| "body_data (ReadyErr e # ps) = []"
| "body_data (ReadyNone # ps) = []"
| "body_data (_ # ps) = body_data ps"

fun body_error :: "(box_error, 'h) poll list \<Rightarrow> box_error option" where
  "body_error [] = None"
| "body_error (ReadyErr e # ps) = Some e"
| "body_error (ReadyNone # ps) = None"
| "body_error (_ # ps) = body_error ps"

text \<open>The reader has no stored error: none is ever stored.\<close>

definition reader_ok :: "'h BodyReader \<Rightarrow> bool" where
  "reader_ok s \<longleftrightarrow> br_error s = None"

definition chunk_bytes :: "'h BodyReader \<Rightarrow> bytes" where
  "chunk_bytes s = (case br_chunk s of Some c \<Rightarrow> c | None \<Rightarrow> [])"

definition reader_left :: "'h BodyReader \<Rightarrow> bytes" where
  "reader_left s = chunk_bytes s @ (if br_eof s then [] else body_data (br_body s))"

definition reader_fails :: "'h BodyReader \<Rightarrow> box_error option" where
  "reader_fails s = (if br_eof s then None else body_error (br_body s))"

definition reader_budget :: "'h BodyReader \<Rightarrow> nat" where
  "reader_budget s = length (reader_left s) + (if br_eof s then 0 else length (br_body s))"

lemmas reader_simps = reader_left_def reader_fails_def reader_budget_def chunk_bytes_def reader_ok_def

text \<open>What a read does, whichever interface it goes through; both readers keep this contract.\<close>

definition read_step :: "'h BodyReader \<Rightarrow> nat \<Rightarrow> read_poll \<Rightarrow> 'h BodyReader \<Rightarrow> bool" where
  "read_step s n p s' \<longleftrightarrow> reader_ok s' \<and>
     (case p of
        RFilled b \<Rightarrow> reader_left s = b @ reader_left s' \<and> length b \<le> n \<and> reader_fails s' = reader_fails s \<and>
          (0 < n \<longrightarrow> b = [] \<longrightarrow> reader_left s = [] \<and> reader_fails s = None \<and> reader_budget s' = 0) \<and>
          (b \<noteq> [] \<longrightarrow> reader_budget s' < reader_budget s)
      | RPending \<Rightarrow> reader_left s' = reader_left s \<and> reader_fails s' = reader_fails s \<and>
          reader_budget s' < reader_budget s
      | RErr e \<Rightarrow> reader_left s = [] \<and> reader_left s' = [] \<and> reader_fails s = Some e \<and>
          reader_fails s' = None \<and> reader_budget s' < reader_budget s)"

lemma read_next_step:
  assumes "reader_ok s" and "br_chunk s = None" and "read_next s n = (p, s')"
  shows "read_step s n p s'"
proof (cases "br_eof s \<or> br_body s = []")
  case True
  with assms show ?thesis by (cases "br_eof s") (auto simp: read_next_def read_step_def reader_simps)
next
  case False
  then obtain q qs where body: "br_body s = q # qs" and eof: "\<not> br_eof s"
    by (cases "br_body s") auto
  show ?thesis
  proof (cases q)
    case (ReadyOk f)
    with assms body eof show ?thesis
      by (cases f) (auto simp: read_next_def read_step_def reader_simps Let_def min_def split: if_splits)
  qed (use assms body eof in \<open>auto simp: read_next_def read_step_def reader_simps\<close>)
qed

lemma poll_read_step:
  assumes "reader_ok s" and "poll_read s n = (p, s')"
  shows "read_step s n p s'"
proof (cases "chunk_bytes s = []")
  case True
  let ?s = "s\<lparr>br_chunk := None\<rparr>"
  have same: "reader_left ?s = reader_left s" "reader_fails ?s = reader_fails s"
    "reader_budget ?s = reader_budget s" "reader_ok ?s"
    using True assms(1) by (simp_all add: reader_simps)
  have "read_next ?s n = (p, s')"
  proof (cases "br_chunk s")
    case None
    then have same: "?s = s" by (cases s) simp
    have "read_next s n = (p, s')" using assms None by (simp add: poll_read_def reader_ok_def)
    then show ?thesis unfolding same .
  next
    case (Some c)
    then show ?thesis using assms True by (simp add: poll_read_def chunk_bytes_def reader_ok_def)
  qed
  from read_next_step [OF same(4) _ this] show ?thesis by (cases p) (auto simp: read_step_def same)
next
  case False
  then obtain c where "br_chunk s = Some c" "c \<noteq> []" by (auto simp: chunk_bytes_def split: option.splits)
  with assms show ?thesis
    by (auto simp: poll_read_def read_step_def reader_simps Let_def min_def split: if_splits)
qed

text \<open>Also with a stored error, a read never overfills the buffer.\<close>

lemma poll_read_fits: "poll_read s n = (RFilled b, s') \<Longrightarrow> length b \<le> n"
  using poll_read_step [of s n "RFilled b" s']
  by (cases "br_error s") (auto simp: poll_read_def read_step_def reader_ok_def)

text \<open>A decoder reads through the buffer: it looks at the chunk, takes a part and consumes it.\<close>

definition fill_and_consume :: "'h BodyReader \<Rightarrow> nat \<Rightarrow> read_poll \<times> 'h BodyReader" where
  "fill_and_consume s n =
     (case poll_fill_buf s of
        (RFilled b, s') \<Rightarrow> (RFilled (take n b), consume s' (min n (length b)))
      | (p, s') \<Rightarrow> (p, s'))"

lemma fill_and_consume_step:
  assumes "reader_ok s" and "fill_and_consume s n = (p, s')"
  shows "read_step s n p s'"
proof (cases "chunk_bytes s \<noteq> []")
  case True
  then obtain c where "br_chunk s = Some c" "c \<noteq> []" by (auto simp: chunk_bytes_def split: option.splits)
  with assms show ?thesis
    by (auto simp: fill_and_consume_def poll_fill_buf_def consume_def read_step_def reader_simps min_def
        split: if_splits)
next
  case no_chunk: False
  then have chunk: "br_chunk s = None \<or> br_chunk s = Some []"
    by (cases "br_chunk s") (auto simp: chunk_bytes_def)
  show ?thesis
  proof (cases "br_eof s \<or> br_body s = []")
    case True
    with assms chunk show ?thesis
      by (cases "br_eof s"; cases "br_chunk s")
        (auto simp: fill_and_consume_def poll_fill_buf_def consume_def read_step_def reader_simps)
  next
    case False
    then obtain q qs where body: "br_body s = q # qs" and eof: "\<not> br_eof s"
      by (cases "br_body s") auto
    show ?thesis
    proof (cases q)
      case (ReadyOk f)
      with assms chunk body eof show ?thesis
        by (cases f) (auto simp: fill_and_consume_def poll_fill_buf_def consume_def read_step_def
            reader_simps min_def split: if_splits)
    qed (use assms chunk body eof in
        \<open>auto simp: fill_and_consume_def poll_fill_buf_def consume_def read_step_def reader_simps\<close>)
  qed
qed

interpretation body_reader: byte_source poll_read reader_ok reader_left reader_fails reader_budget
  by unfold_locales (drule (1) poll_read_step, auto simp: read_step_def split: read_poll.splits; fail)+

interpretation buffered: byte_source fill_and_consume reader_ok reader_left reader_fails reader_budget
  by unfold_locales
    (drule (1) fill_and_consume_step, auto simp: read_step_def split: read_poll.splits; fail)+

section \<open>The size limit\<close>

fun is_decoder :: "('h, 'r) DecompressInner \<Rightarrow> bool" where
  "is_decoder (Identity _) = False"
| "is_decoder _ = True"

definition data_len :: "('e, 'h) poll list \<Rightarrow> nat" where
  "data_len ps = sum_list (map (\<lambda>p. case p of ReadyOk (DataFrame d) \<Rightarrow> length d | _ \<Rightarrow> 0) ps)"

definition limit_inv :: "('h, 'r) DecompressingBody \<Rightarrow> nat \<Rightarrow> bool" where
  "limit_inv s k \<longleftrightarrow> is_decoder (db_inner s) \<and> k \<le> unat MAX_DECOMPRESSED_SIZE \<and>
     (\<not> db_completed s \<longrightarrow> unat (db_decompressed_bytes s) = k)"

lemma unat_chunk_len: "k \<le> DECOMPRESS_CHUNK_SIZE \<Longrightarrow> unat (of_nat k :: u64) = k"
  by (simp add: DECOMPRESS_CHUNK_SIZE_def unsigned_of_nat take_bit_eq_mod)

lemma poll_variant_limit:
  assumes laws: "decoder_laws D" and inv: "limit_inv s k" and live: "\<not> db_completed s"
    and poll: "poll_variant D s tag r = (p, s')" and tag: "\<forall>r. is_decoder (tag r)"
  shows "limit_inv s' (k + data_len [p])"
proof -
  obtain q r2 where w: "wrap_poll_frame D r = (q, r2)" by force
  have k: "unat (db_decompressed_bytes s) = k" "k \<le> unat MAX_DECOMPRESSED_SIZE"
    using inv live by (auto simp: limit_inv_def)
  show ?thesis
  proof (cases q)
    case (ReadyOk f)
    then obtain d where f: "f = DataFrame d" and len: "length d \<le> DECOMPRESS_CHUNK_SIZE"
      using w laws by (auto simp: wrap_poll_frame_def decoder_laws_def
          split: prod.splits read_poll.splits if_splits)
    let ?t = "saturating_add (db_decompressed_bytes s) (of_nat (length d))"
    have max: "unat MAX_DECOMPRESSED_SIZE = 104857600" by (simp add: MAX_DECOMPRESSED_SIZE_def)
    then have "unat ?t = k + length d"
      using k len by (simp add: unat_saturating_add unat_chunk_len DECOMPRESS_CHUNK_SIZE_def)
    with poll w ReadyOk f tag k live max show ?thesis
      by (auto simp: poll_variant_def poll_decompressing_frame_def limit_inv_def data_len_def
          word_less_nat_alt Let_def split: if_splits)
  qed (use poll w tag k live in \<open>auto simp: poll_variant_def poll_decompressing_frame_def
      limit_inv_def data_len_def\<close>)
qed

lemma decompressing_poll_limit:
  assumes "decoder_laws D" and "limit_inv s k" and "decompressing_poll_frame D s = (p, s')"
  shows "limit_inv s' (k + data_len [p])"
proof (cases "db_completed s")
  case True
  with assms(2,3) show ?thesis by (simp add: decompressing_poll_frame_def data_len_def)
next
  case False
  have "is_decoder (db_inner s)" using assms(2) by (simp add: limit_inv_def)
  then show ?thesis
    using assms(3) False poll_variant_limit [OF assms(1,2) False]
    by (cases "db_inner s") (simp_all add: decompressing_poll_frame_def)
qed

lemma decompressed_polls_limit:
  "decoder_laws D \<Longrightarrow> limit_inv s k \<Longrightarrow>
   k + data_len (decompressed_polls D n s) \<le> unat MAX_DECOMPRESSED_SIZE"
proof (induction n arbitrary: s k)
  case 0
  then show ?case by (simp add: data_len_def limit_inv_def)
next
  case (Suc n)
  obtain p s' where p: "decompressing_poll_frame D s = (p, s')" by force
  have "k + data_len [p] + data_len (decompressed_polls D n s') \<le> unat MAX_DECOMPRESSED_SIZE"
    using Suc.IH [OF Suc.prems(1) decompressing_poll_limit [OF Suc.prems p]] .
  with p show ?case by (simp add: data_len_def)
qed

section \<open>Properties\<close>

text \<open>
  Property C36. A decompressing body passes on at most 100 MiB of data over any number of polls,
  whatever its decoder produces.
\<close>

theorem decompression_bounded:
  assumes "decoder_laws D" and "is_decoder i"
  shows "data_len (decompressed_polls D n (body_over i)) \<le> 104857600"
  using decompressed_polls_limit [of D "body_over i" 0 n] assms
  by (simp add: limit_inv_def body_over_def MAX_DECOMPRESSED_SIZE_def)

text \<open>A decoder that hands on what it reads.\<close>

definition stored_decoder :: "('h, 'h BodyReader) decoder_lib" where
  "stored_decoder =
     \<lparr>gzip_new = id, zlib_new = id, brotli_new = id, zstd_new = id, dec_read = poll_read\<rparr>"

lemma stored_decoder_laws: "decoder_laws stored_decoder"
  by (auto simp: decoder_laws_def stored_decoder_def intro: poll_read_fits)

theorem decompression_bounded_witness:
  "data_len (decompressed_polls stored_decoder 3
     (body_over (Gzip (BodyReader_new [ReadyOk (DataFrame [1, 2])])))) \<le> 104857600"
  using decompression_bounded [OF stored_decoder_laws,
      of "Gzip (BodyReader_new [ReadyOk (DataFrame [1, 2])])" 3] by simp

text \<open>
  Property C38. The body reader hands on the body as a byte stream, read with any non-empty buffers
  through either interface: no read overfills its buffer; the bytes delivered are a prefix of the data
  of the frames, in order, none lost or repeated; the end of the stream is reported only when all of
  that data was delivered and the error of the body, if it has one, was reported; an error is
  reported only if it is the body's first and after all the data before it; and a number
  of reads that exceeds the frames and bytes of the body gets to the end. So an empty frame or a
  trailer is never taken for the end, and a read that is pending has made progress.
\<close>

theorem body_reader_faithful:
  assumes "rd = poll_read \<or> rd = fill_and_consume" and "\<forall>n\<in>set ns. 0 < n"
    and "ps = reads rd (BodyReader_new body) ns"
  shows "(\<forall>i b. i < length ps \<longrightarrow> ps ! i = RFilled b \<longrightarrow> length b \<le> ns ! i) \<and>
    (\<exists>rest. body_data body = filled_bytes ps @ rest) \<and>
    (\<forall>i. i < length ps \<longrightarrow> ps ! i = RFilled [] \<longrightarrow> filled_bytes (take i ps) = body_data body \<and>
       (\<forall>e. body_error body = Some e \<longrightarrow> RErr e \<in> set (take i ps))) \<and>
    (\<forall>i e. i < length ps \<longrightarrow> ps ! i = RErr e \<longrightarrow>
       filled_bytes (take i ps) = body_data body \<and> body_error body = Some e) \<and>
    (length body + length (body_data body) < length ns \<longrightarrow> last ps = RFilled [])"
proof -
  let ?s = "BodyReader_new body"
  have new: "reader_ok ?s" "reader_left ?s = body_data body" "reader_fails ?s = body_error body"
    "reader_budget ?s = length body + length (body_data body)"
    by (simp_all add: reader_simps BodyReader_new_def)
  note r = body_reader.reads_left [OF new(1)] body_reader.reads_fit [OF new(1)]
    body_reader.reads_end [OF new(1)] body_reader.reads_error [OF new(1)]
    body_reader.reads_reach_end [OF new(1)]
  note b = buffered.reads_left [OF new(1)] buffered.reads_fit [OF new(1)]
    buffered.reads_end [OF new(1)] buffered.reads_error [OF new(1)] buffered.reads_reach_end [OF new(1)]
  from assms(1) show ?thesis
  proof
    assume "rd = poll_read"
    with assms(2,3) show ?thesis using r by (simp add: new)
  next
    assume "rd = fill_and_consume"
    with assms(2,3) show ?thesis using b by (simp add: new)
  qed
qed

definition sample_frames :: "(box_error, (string \<times> string) list) poll list" where
  "sample_frames = [ReadyOk (DataFrame [1, 2]), ReadyOk (DataFrame []), Pending, ReadyOk (DataFrame [3]),
     ReadyNone]"

theorem body_reader_faithful_witness:
  "last (reads poll_read (BodyReader_new sample_frames) (replicate 9 1)) = RFilled []"
  using body_reader_faithful [of poll_read "replicate 9 1" _ sample_frames]
  by (simp add: sample_frames_def)

end
