(* ===== verification/Response_Scan.thy ===== *)
theory Response_Scan
  imports Decompress
begin

text \<open>
  The response-scanning middleware, \<open>crates/icebreaker-proxy/src/middleware/response_scan.rs\<close> and
  the scanner configuration of \<open>body/scanning.rs\<close>: how the content encoding is resolved, which
  patterns are derived from a secret, and what the static and the dynamic service do with the
  answer of the inner service. The encoders (base64, percent, hex) are parameters. Proved: the
  secret reaches the client neither in a header nor in the body, for every answer of the upstream.
\<close>

section \<open>Scanner configuration\<close>

record SecretScannerConfig =
  ssc_patterns :: "bytes list"
  ssc_enabled :: bool
  ssc_response_scan_config :: ResponseScanConfig

definition SecretScannerConfig_new :: SecretScannerConfig where
  "SecretScannerConfig_new =
     \<lparr>ssc_patterns = [], ssc_enabled = True, ssc_response_scan_config = ResponseScanConfig_new\<rparr>"

definition with_pattern :: "SecretScannerConfig \<Rightarrow> bytes \<Rightarrow> SecretScannerConfig" where
  "with_pattern c p = c\<lparr>ssc_patterns := ssc_patterns c @ [p]\<rparr>"

definition set_enabled :: "SecretScannerConfig \<Rightarrow> bool \<Rightarrow> SecretScannerConfig" where
  "set_enabled c e = c\<lparr>ssc_enabled := e\<rparr>"

definition is_enabled :: "SecretScannerConfig \<Rightarrow> bool" where
  "is_enabled c = ssc_enabled c"

definition create_scanner :: "SecretScannerConfig \<Rightarrow> StreamScanner" where
  "create_scanner c = StreamScanner_new (ssc_patterns c)"

text \<open>
  The scanned body of a response: the decompressing body and the patterns its \<open>ScanningBody\<close> was
  made with. A consumer that polls \<open>n\<close> times makes the wrapper poll the inner body at most \<open>n\<close>
  times, so the answers of \<open>n\<close> inner polls are what it can see.
\<close>

type_synonym ('h, 'r) scanned_body = "('h, 'r) DecompressingBody \<times> bytes list"

definition wrap_body :: "SecretScannerConfig \<Rightarrow> ('h, 'r) DecompressingBody \<Rightarrow> ('h, 'r) scanned_body" where
  "wrap_body c body = (body, ssc_patterns c)"

definition with_response_scan_config :: "SecretScannerConfig \<Rightarrow> ResponseScanConfig \<Rightarrow> SecretScannerConfig" where
  "with_response_scan_config c r = c\<lparr>ssc_response_scan_config := r\<rparr>"

definition client_polls :: "'h header_lib \<Rightarrow> ('h, 'r) decoder_lib \<Rightarrow> nat \<Rightarrow> ('h, 'r) scanned_body \<Rightarrow>
    (box_error, 'h) poll list" where
  "client_polls H D n b = polls H n (ScanningBody_new (decompressed_polls D n (fst b)) (snd b))"

section \<open>Resolving the content encoding\<close>

definition decompress_known :: "'h header_lib \<Rightarrow> ('h, 'r) decoder_lib \<Rightarrow> 'h \<Rightarrow> (box_error, 'h) poll list \<Rightarrow>
    string \<Rightarrow> 'h \<times> ('h, 'r) DecompressingBody" where
  "decompress_known H D headers body encoding =
     (let headers = h_remove H (h_remove H headers ''content-encoding'') ''content-length'' in
      (headers,
       (if encoding = ''gzip'' then body_gzip D body
        else if encoding = ''deflate'' then body_deflate D body
        else if encoding = ''br'' then body_brotli D body
        else if encoding = ''zstd'' then body_zstd D body
        else body_identity body)))"

definition handle_unknown_encoding :: "(box_error, 'h) poll list \<Rightarrow> string \<Rightarrow> ResponseScanConfig \<Rightarrow>
    metric list \<times> (box_error, ('h, 'r) DecompressingBody) result" where
  "handle_unknown_encoding body encoding config =
     (if is_encoding_allowed config encoding then ([], Ok (body_identity body))
      else case unsupported_encoding config of
        Block \<Rightarrow> ([record_unsupported_encoding_blocked encoding],
                  Err (BoxTok (UnsupportedContentEncoding encoding)))
      | PassthroughWithWarning \<Rightarrow> ([], Ok (body_identity body)))"

definition handle_multiple_encodings :: "(box_error, 'h) poll list \<Rightarrow> string list \<Rightarrow> ResponseScanConfig \<Rightarrow>
    metric list \<times> (box_error, ('h, 'r) DecompressingBody) result" where
  "handle_multiple_encodings body encodings config =
     (let encoding_str = join_str '', '' encodings in
      case unsupported_encoding config of
        Block \<Rightarrow> ([record_unsupported_encoding_blocked encoding_str],
                  Err (BoxTok (UnsupportedContentEncoding encoding_str)))
      | PassthroughWithWarning \<Rightarrow> ([], Ok (body_identity body)))"

text \<open>\<open>get(CONTENT_ENCODING).and_then(to_str ok).map(split and trim).unwrap_or_default()\<close>.\<close>

definition content_encodings :: "'h header_lib \<Rightarrow> 'h \<Rightarrow> string list" where
  "content_encodings H headers =
     (case Option.bind (h_get H headers ''content-encoding'') (\<lambda>v. ok (h_to_str H v)) of
        Some s \<Rightarrow> map trim (split_on (CHR '','') s)
      | None \<Rightarrow> [])"

definition known_encoding :: "string \<Rightarrow> bool" where
  "known_encoding e \<longleftrightarrow> e \<in> set [''gzip'', ''deflate'', ''br'', ''zstd'']"

definition resolve_encoding :: "'h header_lib \<Rightarrow> ('h, 'r) decoder_lib \<Rightarrow> 'h \<Rightarrow> (box_error, 'h) poll list \<Rightarrow>
    ResponseScanConfig \<Rightarrow> metric list \<times> 'h \<times> (box_error, ('h, 'r) DecompressingBody) result" where
  "resolve_encoding H D headers body config =
     (case content_encodings H headers of
        [] \<Rightarrow> ([], headers, Ok (body_identity body))
      | [single] \<Rightarrow>
          (let encoding = to_lower single in
           if known_encoding encoding then
             (let (headers', b) = decompress_known H D headers body encoding in ([], headers', Ok b))
           else if encoding = ''identity'' then ([], headers, Ok (body_identity body))
           else (let (m, r) = handle_unknown_encoding body encoding config in (m, headers, r)))
      | multiple \<Rightarrow> (let (m, r) = handle_multiple_encodings body multiple config in (m, headers, r)))"

section \<open>The services\<close>

definition scan_response_headers :: "'h header_lib \<Rightarrow> 'h \<Rightarrow> StreamScanner \<Rightarrow>
    metric list \<times> (box_error, unit) result" where
  "scan_response_headers H headers scanner =
     (if fst (scan_header_values H headers scanner)
      then ([record_secret_leak_detected], Err (BoxTok SecretLeakDetected)) else ([], Ok ()))"

text \<open>
  \<open>ResponseScanService::call\<close> and \<open>DynamicResponseScanService::call\<close> on the inner service's answer.
  The two differ in where the patterns come from and in that the dynamic one scans the headers only
  when there are patterns.
\<close>

type_synonym ('h, 'r) scan_result =
  "metric list \<times> (box_error, ('h, ('h, 'r) scanned_body) response) result"

definition ResponseScanService_call :: "'h header_lib \<Rightarrow> ('h, 'r) decoder_lib \<Rightarrow> SecretScannerConfig \<Rightarrow>
    (box_error, ('h, (box_error, 'h) poll list) response) result \<Rightarrow> ('h, 'r) scan_result" where
  "ResponseScanService_call H D config inner =
     (case inner of
        Inl e \<Rightarrow> ([], Err e)
      | Inr response \<Rightarrow>
          (case scan_response_headers H (rs_headers response) (create_scanner config) of
             (m, Inl e) \<Rightarrow> (m, Err e)
           | (m, Inr _) \<Rightarrow>
               (case resolve_encoding H D (rs_headers response) (rs_body response)
                       (ssc_response_scan_config config) of
                  (m', _, Inl e) \<Rightarrow> (m @ m', Err e)
                | (m', headers, Inr decompressing) \<Rightarrow>
                    (m @ m', Ok \<lparr>rs_status = rs_status response, rs_headers = headers,
                                 rs_body = wrap_body config decompressing\<rparr>))))"

definition DynamicResponseScanService_call :: "'h header_lib \<Rightarrow> ('h, 'r) decoder_lib \<Rightarrow> ResponseScanConfig \<Rightarrow>
    ('h, 'b) request \<Rightarrow> (box_error, ('h, (box_error, 'h) poll list) response) result \<Rightarrow>
    ('h, 'r) scan_result" where
  "DynamicResponseScanService_call H D config request inner =
     (let patterns = (case rq_ext_patterns request of Some p \<Rightarrow> p | None \<Rightarrow> []) in
      case inner of
        Inl e \<Rightarrow> ([], Err e)
      | Inr response \<Rightarrow>
          (case (if patterns \<noteq> []
                 then scan_response_headers H (rs_headers response) (StreamScanner_new patterns)
                 else ([], Ok ())) of
             (m, Inl e) \<Rightarrow> (m, Err e)
           | (m, Inr _) \<Rightarrow>
               (case resolve_encoding H D (rs_headers response) (rs_body response) config of
                  (m', _, Inl e) \<Rightarrow> (m @ m', Err e)
                | (m', headers, Inr decompressing) \<Rightarrow>
                    (m @ m', Ok \<lparr>rs_status = rs_status response, rs_headers = headers,
                                 rs_body = (decompressing, patterns)\<rparr>))))"

section \<open>The patterns of a secret\<close>

definition MIN_SECRET_LEN_FOR_VARIANTS :: nat where
  "MIN_SECRET_LEN_FOR_VARIANTS = 8"

definition is_html_special :: "char \<Rightarrow> bool" where
  "is_html_special c \<longleftrightarrow> c \<in> set [CHR ''&'', CHR ''<'', CHR ''>'', CHR 0x22, CHR 0x27]"

definition html_entity :: "char \<Rightarrow> string" where
  "html_entity c =
     (if c = CHR ''&'' then ''&amp;''
      else if c = CHR ''<'' then ''&lt;''
      else if c = CHR ''>'' then ''&gt;''
      else if c = CHR 0x22 then ''&quot;''
      else if c = CHR 0x27 then ''&#39;''
      else [c])"

definition encode_html_entities :: "string \<Rightarrow> string option" where
  "encode_html_entities s =
     (if \<not> list_ex is_html_special s then None
      else Some (fold (\<lambda>c result. result @ html_entity c) s []))"

text \<open>The encoders of the crates \<open>base64\<close>, \<open>urlencoding\<close> and \<open>hex\<close>.\<close>

record encoder_lib =
  enc_b64 :: "bytes \<Rightarrow> string"
  enc_b64url :: "bytes \<Rightarrow> string"
  enc_percent :: "string \<Rightarrow> string"
  enc_hex :: "bytes \<Rightarrow> string"
  enc_hex_upper :: "bytes \<Rightarrow> string"

definition generate_scan_patterns :: "encoder_lib \<Rightarrow> string \<Rightarrow> bytes list" where
  "generate_scan_patterns E secret =
     (let raw = as_bytes secret in
      if length raw < MIN_SECRET_LEN_FOR_VARIANTS then [raw]
      else
        (let b64_standard = as_bytes (enc_b64 E raw);
             b64_url = as_bytes (enc_b64url E raw);
             url_encoded = as_bytes (enc_percent E secret)
         in [raw, b64_standard]
            @ (if b64_url \<noteq> b64_standard then [b64_url] else [])
            @ (if url_encoded \<noteq> raw then [url_encoded] else [])
            @ [as_bytes (enc_hex E raw), as_bytes (enc_hex_upper E raw)]
            @ (case encode_html_entities secret of Some h \<Rightarrow> [as_bytes h] | None \<Rightarrow> [])))"

section \<open>Lemmas\<close>

lemma encode_html_entities_eq:
  "encode_html_entities s = (if list_ex is_html_special s then Some (concat (map html_entity s)) else None)"
proof -
  have "fold (\<lambda>c r. r @ html_entity c) s acc = acc @ concat (map html_entity s)" for acc
    by (induction s arbitrary: acc) simp_all
  then show ?thesis by (simp add: encode_html_entities_def)
qed

lemma raw_in_patterns: "as_bytes secret \<in> set (generate_scan_patterns E secret)"
  by (simp add: generate_scan_patterns_def Let_def)

lemma scan_values_no_leak:
  assumes "p \<in> set ps" and "p \<noteq> []"
    and "\<not> fst (scan_header_values H h (StreamScanner_new ps))" and "v \<in> set (h_values H h)"
  shows "\<not> sublist p (as_bytes v)"
proof (cases "[] \<in> set ps")
  case True
  then have e: "[] \<in> set (ss_patterns (StreamScanner_new ps))" by (simp add: StreamScanner_new_def)
  obtain f sc where "scan_values scan_chunk (h_values H h) (StreamScanner_new ps) = (f, sc)" by force
  with scan_values_empty_pattern [OF e this] assms(3,4) show ?thesis
    by (auto simp: scan_header_values_def)
next
  case False
  from leak.values_scanned [OF scanned_new [OF False], of "h_values H h"] assms(3)
  have "clean ps (concat (map as_bytes (h_values H h)))" by (simp add: scan_header_values_def)
  then have "\<not> sublist p (concat (map as_bytes (h_values H h)))"
    using assms(1) by (simp add: clean_def list_all_iff)
  moreover have "sublist (as_bytes v) (concat (map as_bytes (h_values H h)))"
    using split_list [OF assms(4)] unfolding sublist_def by fastforce
  ultimately show ?thesis using sublist_order.order.trans by blast
qed

lemma resolve_encoding_headers:
  assumes "header_laws H" and "resolve_encoding H D h b c = (m, h', r)"
  shows "set (h_values H h') \<subseteq> set (h_values H h)"
proof -
  have "h' = h \<or> h' = h_remove H (h_remove H h ''content-encoding'') ''content-length''"
    using assms(2)
    by (auto simp: resolve_encoding_def decompress_known_def Let_def split: list.splits if_splits prod.splits)
  then show ?thesis using header_lawsD(4) [OF assms(1)] by blast
qed

lemma dynamic_call_Ok:
  assumes "DynamicResponseScanService_call H D c req (Ok rsp) = (m, Ok r)"
    and "rq_ext_patterns req = Some ps" and "ps \<noteq> []"
  shows "\<not> fst (scan_header_values H (rs_headers rsp) (StreamScanner_new ps))"
    and "\<exists>m' b. resolve_encoding H D (rs_headers rsp) (rs_body rsp) c = (m', rs_headers r, Ok b) \<and>
           rs_body r = (b, ps)"
    and "rs_status r = rs_status rsp"
  using assms
  by (auto simp: DynamicResponseScanService_call_def scan_response_headers_def Let_def
      split: prod.splits sum.splits if_splits)

lemma scanned_answer_clean:
  assumes "header_laws H" and "secret \<noteq> []"
    and "rq_ext_patterns req = Some (generate_scan_patterns E secret)"
    and "DynamicResponseScanService_call H D c req upstream = (m, Ok r)"
  shows "(\<forall>v \<in> set (h_values H (rs_headers r)). \<not> sublist (as_bytes secret) (as_bytes v)) \<and>
    \<not> sublist (as_bytes secret) (all_bytes H (client_polls H D n (rs_body r)))"
proof -
  let ?ps = "generate_scan_patterns E secret"
  have raw: "as_bytes secret \<in> set ?ps" and ne: "as_bytes secret \<noteq> []"
    using raw_in_patterns assms(2) by (auto simp: as_bytes_def)
  then have "?ps \<noteq> []" by auto
  from assms(4) obtain rsp where "upstream = Ok rsp"
    by (cases upstream) (auto simp: DynamicResponseScanService_call_def)
  with assms(4) have "DynamicResponseScanService_call H D c req (Ok rsp) = (m, Ok r)" by simp
  note call = dynamic_call_Ok [OF this assms(3) \<open>?ps \<noteq> []\<close>]
  from call(2) obtain m' b where
    b: "resolve_encoding H D (rs_headers rsp) (rs_body rsp) c = (m', rs_headers r, Ok b)"
    "rs_body r = (b, ?ps)" by blast
  have "\<not> sublist (as_bytes secret) (as_bytes v)" if "v \<in> set (h_values H (rs_headers r))" for v
    using scan_values_no_leak [OF raw ne call(1)] resolve_encoding_headers [OF assms(1) b(1)] that
    by blast
  moreover have "\<not> sublist (as_bytes secret) (all_bytes H (client_polls H D n (rs_body r)))"
    unfolding b(2) client_polls_def by (rule no_leak) (simp_all add: raw ne)
  ultimately show ?thesis by blast
qed

section \<open>Properties\<close>

text \<open>
  Property C2. A request that carries the patterns of a secret is answered without the secret:
  whatever the upstream sends, in whatever frames and encoding, no header value of the response the
  client is given and no part of the bytes of its body contains the secret.
\<close>

theorem secret_never_reaches_client:
  assumes "header_laws H" and "secret \<noteq> []"
    and "rq_ext_patterns req = Some (generate_scan_patterns E secret)"
    and "DynamicResponseScanService_call H D c req upstream = (m, Ok r)"
  shows "(\<forall>v \<in> set (h_values H (rs_headers r)). \<not> sublist (as_bytes secret) (as_bytes v)) \<and>
    \<not> sublist (as_bytes secret) (all_bytes H (client_polls H D n (rs_body r)))"
  using assms by (rule scanned_answer_clean)

definition plain_encoders :: encoder_lib where
  "plain_encoders = \<lparr>enc_b64 = chars_of, enc_b64url = chars_of, enc_percent = id, enc_hex = chars_of,
     enc_hex_upper = chars_of\<rparr>"

definition sample_request :: "((string \<times> string) list, unit) request" where
  "sample_request = \<lparr>rq_method = ''GET'',
     rq_uri = \<lparr>u_scheme = None, u_authority = None, u_path = ''/'', u_query = None\<rparr>,
     rq_headers = [], rq_ext_tls = None, rq_ext_conn = None, rq_ext_scheme = None,
     rq_ext_patterns = Some (generate_scan_patterns plain_encoders ''s3c''), rq_body = ()\<rparr>"

definition sample_response :: "((string \<times> string) list, (box_error, (string \<times> string) list) poll list) response" where
  "sample_response = \<lparr>rs_status = 200, rs_headers = [(''x'', ''ok'')],
     rs_body = [ReadyOk (DataFrame (as_bytes ''s3'')), ReadyOk (DataFrame (as_bytes ''c''))]\<rparr>"

theorem secret_never_reaches_client_witness:
  "\<exists>m r. DynamicResponseScanService_call assoc_headers stored_decoder ResponseScanConfig_new sample_request
       (Ok sample_response) = (m, Ok r) \<and>
     \<not> sublist (as_bytes ''s3c'') (all_bytes assoc_headers (client_polls assoc_headers stored_decoder 4 (rs_body r)))"
proof -
  obtain m r where call: "DynamicResponseScanService_call assoc_headers stored_decoder
      ResponseScanConfig_new sample_request (Ok sample_response) = (m, Ok r)"
    by (simp add: DynamicResponseScanService_call_def sample_request_def sample_response_def
        generate_scan_patterns_def MIN_SECRET_LEN_FOR_VARIANTS_def scan_response_headers_def
        scan_header_values_def assoc_headers_def scan_chunk_def process_chunk_def StreamScanner_new_def
        OverlapBuffer_new_def contains_pattern_def as_bytes_def resolve_encoding_def
        content_encodings_def to_lower_def ascii_lower_def ascii_upper_letters_def
        ascii_lower_letters_def Let_def)
  from secret_never_reaches_client [OF assoc_headers_laws _ _ call, of "''s3c''" plain_encoders 4] call
  show ?thesis by (auto simp: sample_request_def)
qed

text \<open>
  Property C37. With the blocking configuration a response with a readable content encoding that is
  not answered with an error has exactly one encoding, and it is decoded by the decoder of that name: gzip
  by the gzip decoder, deflate by the zlib decoder, br by the Brotli and zstd by the Zstandard
  decoder, each from the first byte and with the encoding and length headers removed. Only the identity
  encoding and one that was allowed explicitly are passed on as they are.
\<close>

theorem encoding_decoded_or_blocked:
  assumes "unsupported_encoding c = Block" and "h_get H h ''content-encoding'' = Some v"
    and "h_to_str H v = Ok s" and "resolve_encoding H D h body c = (m, h', Ok b)"
  shows "CHR '','' \<notin> set s \<and> db_decompressed_bytes b = 0 \<and> \<not> db_completed b \<and>
     (to_lower (trim s) = ''gzip'' \<and> db_inner b = Gzip (gzip_new D (BodyReader_new body)) \<or>
      to_lower (trim s) = ''deflate'' \<and> db_inner b = Deflate (zlib_new D (BodyReader_new body)) \<or>
      to_lower (trim s) = ''br'' \<and> db_inner b = Brotli (brotli_new D (BodyReader_new body)) \<or>
      to_lower (trim s) = ''zstd'' \<and> db_inner b = Zstd (zstd_new D (BodyReader_new body)) \<or>
      to_lower (trim s) \<notin> {''gzip'', ''deflate'', ''br'', ''zstd''} \<and> db_inner b = Identity body \<and>
        (to_lower (trim s) = ''identity'' \<or> is_encoding_allowed c (to_lower (trim s)))) \<and>
     h' = (if to_lower (trim s) \<in> {''gzip'', ''deflate'', ''br'', ''zstd''}
           then h_remove H (h_remove H h ''content-encoding'') ''content-length'' else h)"
proof (cases "CHR '','' \<in> set s")
  case True
  then have "length (split_on (CHR '','') s) \<ge> 2"
    by (simp add: split_on_length count_list_eq_length_filter Suc_le_eq filter_empty_conv)
  then obtain x y zs where "content_encodings H h = x # y # zs"
    using assms(2,3) by (cases "split_on (CHR '','') s" rule: list.exhaust [case_names Nil Cons])
      (auto simp: content_encodings_def Suc_le_length_iff numeral_2_eq_2)
  with assms(1,4) show ?thesis
    by (simp add: resolve_encoding_def handle_multiple_encodings_def Let_def)
next
  case False
  then have "content_encodings H h = [trim s]"
    using assms(2,3) by (simp add: content_encodings_def split_on_notin)
  with assms(1,4) False show ?thesis
    by (auto simp: resolve_encoding_def decompress_known_def handle_unknown_encoding_def Let_def
        known_encoding_def body_gzip_def body_deflate_def body_brotli_def body_zstd_def
        body_identity_def body_over_def split: if_splits)
qed

theorem encoding_decoded_or_blocked_witness:
  "\<exists>m h' b. resolve_encoding assoc_headers stored_decoder [(''content-encoding'', ''gzip'')] []
     ResponseScanConfig_new = (m, h', Ok b) \<and> db_inner b = Gzip (BodyReader_new []) \<and> h' = []"
proof -
  let ?h = "[(''content-encoding'', ''gzip'')]"
  have low: "to_lower ''gzip'' = ''gzip''" and trim: "trim ''gzip'' = ''gzip''"
    and low_names: "to_lower ''content-encoding'' = ''content-encoding''"
      "to_lower ''content-length'' = ''content-length''"
    by (simp_all add: to_lower_def ascii_lower_def ascii_upper_letters_def ascii_lower_letters_def
        trim_def is_ws_def)
  have get: "h_get assoc_headers ?h ''content-encoding'' = Some ''gzip''"
    by (simp add: assoc_headers_def to_lower_def ascii_lower_def ascii_upper_letters_def
        ascii_lower_letters_def)
  have str: "h_to_str assoc_headers ''gzip'' = Ok ''gzip''"
    by (simp add: assoc_headers_def visible_ascii_def)
  have "content_encodings assoc_headers ?h = [''gzip'']"
    using get str trim by (simp add: content_encodings_def)
  then obtain m h' b where r: "resolve_encoding assoc_headers stored_decoder ?h []
      ResponseScanConfig_new = (m, h', Ok b)"
    by (simp add: resolve_encoding_def low known_encoding_def decompress_known_def Let_def)
  have "unsupported_encoding ResponseScanConfig_new = Block" by (simp add: ResponseScanConfig_new_def)
  from encoding_decoded_or_blocked [OF this get str r] r show ?thesis
    by (simp add: low trim stored_decoder_def) (simp add: assoc_headers_def low_names)
qed

text \<open>
  Note. A content encoding that is not readable as text is treated as no encoding: the body is
  scanned as it is, also when unsupported encodings are to be blocked.
\<close>

theorem unreadable_encoding_passes:
  assumes "h_get H h ''content-encoding'' = Some v" and "h_to_str H v = Err e"
  shows "resolve_encoding H D h body c = ([], h, Ok (body_identity body))"
  using assms by (simp add: resolve_encoding_def content_encodings_def)

theorem unreadable_encoding_passes_witness:
  "resolve_encoding assoc_headers stored_decoder [(''content-encoding'', [CHR 0xFF])] [] ResponseScanConfig_new =
     ([], [(''content-encoding'', [CHR 0xFF])], Ok (body_identity []))"
  using unreadable_encoding_passes [of assoc_headers "[(''content-encoding'', [CHR 0xFF])]" "[CHR 0xFF]"
      _ stored_decoder "[]" ResponseScanConfig_new]
  by (simp add: assoc_headers_def visible_ascii_def to_lower_def ascii_lower_def
      ascii_upper_letters_def ascii_lower_letters_def)

end
