(* ===== verification/Crypto.thy ===== *)
theory Crypto
  imports Token
begin

text \<open>
  Keys and key derivation, \<open>crates/icebreaker-crypto/src/keypair.rs\<close> and \<open>hkdf.rs\<close>, and sealing,
  \<open>sealed_box.rs\<close>. The primitives (X25519 boxes, HKDF, HMAC, SHA-256) are a parameter \<open>crypto_lib\<close>
  with their documented laws; randomness (an ephemeral secret, a nonce) is an argument, and the
  wall clock too. Proved: a sealed token unseals to its payload, also after keys were rotated;
  derivation contexts never collide.
\<close>

section \<open>The primitives\<close>

record crypto_lib =
  public_of :: "bytes \<Rightarrow> bytes"
  box_encrypt :: "bytes \<Rightarrow> bytes \<Rightarrow> bytes \<Rightarrow> bytes \<Rightarrow> (string, bytes) result"
  box_decrypt :: "bytes \<Rightarrow> bytes \<Rightarrow> bytes \<Rightarrow> bytes \<Rightarrow> (string, bytes) result"
  hkdf_expand :: "bytes \<Rightarrow> bytes \<Rightarrow> bytes \<Rightarrow> bytes option"
  hmac_sha256 :: "bytes \<Rightarrow> bytes \<Rightarrow> (string, bytes) result"
  hmac_sha512 :: "bytes \<Rightarrow> bytes \<Rightarrow> (string, bytes) result"
  sha256 :: "bytes \<Rightarrow> bytes"
  hex_encode :: "bytes \<Rightarrow> string"
  hex_decode :: "string \<Rightarrow> (string, bytes) result"

text \<open>
  The box of a public and a secret key decrypts what the box of the matching pair encrypted under
  the same nonce; a public key has 32 bytes and a ciphertext the 16 bytes of its tag.
\<close>

definition box_laws :: "crypto_lib \<Rightarrow> bool" where
  "box_laws C \<longleftrightarrow>
     (\<forall>r e n m c. box_encrypt C (public_of C r) e n m = Ok c \<longrightarrow>
        box_decrypt C (public_of C e) r n c = Ok m \<and> length c \<ge> 16) \<and>
     (\<forall>s. length (public_of C s) = 32)"

section \<open>Key pairs and the key store\<close>

record Keypair =
  kp_public_key :: bytes
  kp_secret_key :: bytes

text \<open>\<open>Keypair::generate\<close> draws the 32 secret bytes; it then is \<open>from_secret_bytes\<close>.\<close>

definition from_secret_bytes :: "crypto_lib \<Rightarrow> bytes \<Rightarrow> Keypair tresult" where
  "from_secret_bytes C secret_bytes =
     Ok \<lparr>kp_public_key = public_of C secret_bytes, kp_secret_key = secret_bytes\<rparr>"

definition keypair_from_base64 :: "crypto_lib \<Rightarrow> base64_lib \<Rightarrow> string \<Rightarrow> Keypair tresult" where
  "keypair_from_base64 C B encoded =
     bindR (map_err (\<lambda>e. CryptoError (''invalid base64: '' @ e)) (b64_decode B encoded)) (\<lambda>bs.
       if length bs \<noteq> 32
       then Err (CryptoError (''invalid secret key length: expected 32, got '' @ nat_to_string (length bs)))
       else from_secret_bytes C bs)"

definition public_key_base64 :: "base64_lib \<Rightarrow> Keypair \<Rightarrow> string" where
  "public_key_base64 B k = b64_encode B (kp_public_key k)"

record VersionedKeypair =
  vk_key_id :: string
  vk_keypair :: Keypair
  vk_version :: u32

definition VersionedKeypair_new :: "string \<Rightarrow> Keypair \<Rightarrow> u32 \<Rightarrow> VersionedKeypair" where
  "VersionedKeypair_new i k v = \<lparr>vk_key_id = i, vk_keypair = k, vk_version = v\<rparr>"

record KeyStore =
  ks_primary :: "VersionedKeypair option"
  ks_historical :: "VersionedKeypair list"

definition KeyStore_new :: KeyStore where
  "KeyStore_new = \<lparr>ks_primary = None, ks_historical = []\<rparr>"

definition with_primary :: "VersionedKeypair \<Rightarrow> KeyStore" where
  "with_primary k = \<lparr>ks_primary = Some k, ks_historical = []\<rparr>"

definition set_primary :: "KeyStore \<Rightarrow> VersionedKeypair \<Rightarrow> KeyStore" where
  "set_primary ks k =
     (case ks_primary ks of
        Some old_primary \<Rightarrow> \<lparr>ks_primary = Some k, ks_historical = ks_historical ks @ [old_primary]\<rparr>
      | None \<Rightarrow> ks\<lparr>ks_primary := Some k\<rparr>)"

definition add_historical :: "KeyStore \<Rightarrow> VersionedKeypair \<Rightarrow> KeyStore" where
  "add_historical ks k = ks\<lparr>ks_historical := ks_historical ks @ [k]\<rparr>"

definition find_by_id :: "KeyStore \<Rightarrow> string \<Rightarrow> VersionedKeypair option" where
  "find_by_id ks key_id =
     (case ks_primary ks of
        Some p \<Rightarrow> if vk_key_id p = key_id then Some p
                  else List.find (\<lambda>k. vk_key_id k = key_id) (ks_historical ks)
      | None \<Rightarrow> List.find (\<lambda>k. vk_key_id k = key_id) (ks_historical ks))"

definition ks_iter :: "KeyStore \<Rightarrow> VersionedKeypair list" where
  "ks_iter ks = (case ks_primary ks of Some p \<Rightarrow> [p] | None \<Rightarrow> []) @ ks_historical ks"

section \<open>Key derivation\<close>

definition DEFAULT_HKDF_SALT :: bytes where
  "DEFAULT_HKDF_SALT = as_bytes ''icebreaker-v1''"

definition KEY_INFO_PREFIX :: bytes where
  "KEY_INFO_PREFIX = as_bytes ''icebreaker-v1-key-''"

definition keypair_info :: "string \<Rightarrow> u32 \<Rightarrow> bytes" where
  "keypair_info key_id version =
     KEY_INFO_PREFIX @ as_bytes key_id @ as_bytes ''-'' @ as_bytes (nat_to_string (unat version))"

definition derive_keypair :: "crypto_lib \<Rightarrow> bytes \<Rightarrow> string \<Rightarrow> u32 \<Rightarrow> bytes option \<Rightarrow> Keypair tresult" where
  "derive_keypair C master_key key_id version salt =
     bindR (ok_or (hkdf_expand C (unwrap_or salt DEFAULT_HKDF_SALT) master_key (keypair_info key_id version))
              (CryptoError ''HKDF expansion failed''))
       (from_secret_bytes C)"

definition derive_keypairs :: "crypto_lib \<Rightarrow> bytes \<Rightarrow> string \<Rightarrow> u32 list \<Rightarrow> bytes option \<Rightarrow> Keypair list tresult" where
  "derive_keypairs C master_key key_id versions salt =
     collectR (\<lambda>v. derive_keypair C master_key key_id v salt) versions"

definition hmac_info :: "string \<Rightarrow> bytes" where
  "hmac_info purpose = as_bytes (''icebreaker-v1-hmac-'' @ purpose)"

definition derive_hmac_key :: "crypto_lib \<Rightarrow> bytes \<Rightarrow> string \<Rightarrow> bytes option \<Rightarrow> bytes tresult" where
  "derive_hmac_key C master_key purpose salt =
     ok_or (hkdf_expand C (unwrap_or salt DEFAULT_HKDF_SALT) master_key (hmac_info purpose))
       (CryptoError ''HKDF expansion failed'')"

record MasterKeyManager =
  mk_key_id :: string
  mk_master_key :: bytes
  mk_salt :: "bytes option"

definition MasterKeyManager_new :: "string \<Rightarrow> bytes \<Rightarrow> MasterKeyManager" where
  "MasterKeyManager_new i k = \<lparr>mk_key_id = i, mk_master_key = k, mk_salt = None\<rparr>"

definition mk_with_salt :: "MasterKeyManager \<Rightarrow> bytes \<Rightarrow> MasterKeyManager" where
  "mk_with_salt m s = m\<lparr>mk_salt := Some s\<rparr>"

definition mk_derive_keypair :: "crypto_lib \<Rightarrow> MasterKeyManager \<Rightarrow> u32 \<Rightarrow> Keypair tresult" where
  "mk_derive_keypair C m version = derive_keypair C (mk_master_key m) (mk_key_id m) version (mk_salt m)"

text \<open>The context of the API key hash, from \<open>auth_validation.rs\<close>.\<close>

definition api_key_info :: bytes where
  "api_key_info = as_bytes ''icebreaker-v1-api-key-auth''"

definition derive_api_key_hmac_key :: "crypto_lib \<Rightarrow> bytes \<Rightarrow> bytes option \<Rightarrow> bytes tresult" where
  "derive_api_key_hmac_key C public_key_bytes salt =
     ok_or (hkdf_expand C (unwrap_or salt DEFAULT_HKDF_SALT) public_key_bytes api_key_info)
       (CryptoError ''HKDF expansion failed'')"

section \<open>Sealing\<close>

record DecryptConfig =
  dc_clock_skew :: ClockSkewConfig
  dc_require_expiration :: bool

definition DecryptConfig_default :: DecryptConfig where
  "DecryptConfig_default = \<lparr>dc_clock_skew = ClockSkewConfig_default, dc_require_expiration = False\<rparr>"

definition with_clock_skew :: "ClockSkewConfig \<Rightarrow> DecryptConfig" where
  "with_clock_skew c = DecryptConfig_default\<lparr>dc_clock_skew := c\<rparr>"

definition with_require_expiration :: "DecryptConfig \<Rightarrow> bool \<Rightarrow> DecryptConfig" where
  "with_require_expiration c r = c\<lparr>dc_require_expiration := r\<rparr>"

text \<open>The random draws of one sealing.\<close>

record seal_rng =
  rng_ephemeral :: bytes
  rng_nonce :: bytes

definition seal :: "crypto_lib \<Rightarrow> TokenPayload serde_lib \<Rightarrow> seal_rng \<Rightarrow> TokenPayload \<Rightarrow> bytes \<Rightarrow> bytes tresult" where
  "seal C P rng payload recipient_public_key =
     bindR (map_err (\<lambda>e. CryptoError (''serialization error: '' @ e)) (ser P payload)) (\<lambda>payload_json.
     bindR (map_err (\<lambda>e. CryptoError (''encryption error: '' @ e))
              (box_encrypt C recipient_public_key (rng_ephemeral rng) (rng_nonce rng) payload_json))
       (\<lambda>ciphertext. Ok (public_of C (rng_ephemeral rng) @ rng_nonce rng @ ciphertext)))"

definition unseal :: "crypto_lib \<Rightarrow> TokenPayload serde_lib \<Rightarrow> bytes \<Rightarrow> Keypair \<Rightarrow> TokenPayload tresult" where
  "unseal C P sealed_box recipient_keypair =
     (if length sealed_box < 72 then Err (DecryptionError ''sealed box too short'')
      else
        (let ephemeral_public = take 32 sealed_box;
             nonce = take 24 (drop 32 sealed_box);
             ciphertext = drop 56 sealed_box
         in bindR (map_err (\<lambda>_. DecryptionError ''decryption failed'')
                     (box_decrypt C ephemeral_public (kp_secret_key recipient_keypair) nonce ciphertext))
              (\<lambda>plaintext. map_err (\<lambda>e. DecryptionError (''deserialization error: '' @ e)) (de P plaintext))))"

definition create_sealed_token :: "crypto_lib \<Rightarrow> base64_lib \<Rightarrow> TokenPayload serde_lib \<Rightarrow> seal_rng \<Rightarrow>
    TokenPayload \<Rightarrow> VersionedKeypair \<Rightarrow> SealedToken tresult" where
  "create_sealed_token C B P rng payload vk =
     bindR (seal C P rng payload (kp_public_key (vk_keypair vk))) (\<lambda>sealed_bytes.
       Ok (SealedToken_new (vk_key_id vk) (b64_encode B sealed_bytes)))"

text \<open>The \<open>match\<close> on the expiration status that ends the decryption.\<close>

definition expiration_gate :: "DecryptConfig \<Rightarrow> TokenPayload \<Rightarrow> u64 \<Rightarrow> TokenPayload tresult" where
  "expiration_gate config payload now =
     (case check_expiration payload (dc_clock_skew config) now of
        Valid \<Rightarrow> Ok payload
      | NoExpiration \<Rightarrow>
          if dc_require_expiration config then Err (InvalidPayload ''token must have expiration'')
          else Ok payload
      | Expired \<Rightarrow> Err TokenExpired
      | FutureDated ahead \<Rightarrow>
          Err (InvalidPayload (''token expiration is '' @ nat_to_string (unat ahead)
                               @ '' seconds too far in the future'')))"

definition decrypt_sealed_token_with_config :: "crypto_lib \<Rightarrow> base64_lib \<Rightarrow> TokenPayload serde_lib \<Rightarrow>
    SealedToken \<Rightarrow> KeyStore \<Rightarrow> DecryptConfig \<Rightarrow> u64 \<Rightarrow> TokenPayload tresult" where
  "decrypt_sealed_token_with_config C B P token key_store config now =
     bindR (ok_or (find_by_id key_store (st_key_id token)) (DecryptionError ''decryption failed'')) (\<lambda>vk.
     bindR (map_err (\<lambda>e. DecryptionError (''base64 decode error: '' @ e)) (b64_decode B (st_ciphertext token)))
       (\<lambda>sealed_bytes.
     bindR (unseal C P sealed_bytes (vk_keypair vk)) (\<lambda>payload. expiration_gate config payload now)))"

definition decrypt_sealed_token :: "crypto_lib \<Rightarrow> base64_lib \<Rightarrow> TokenPayload serde_lib \<Rightarrow>
    SealedToken \<Rightarrow> KeyStore \<Rightarrow> u64 \<Rightarrow> TokenPayload tresult" where
  "decrypt_sealed_token C B P token key_store now =
     decrypt_sealed_token_with_config C B P token key_store DecryptConfig_default now"

record TokenCrypto =
  tc_key_store :: KeyStore
  tc_decrypt_config :: DecryptConfig

definition TokenCrypto_new :: "KeyStore \<Rightarrow> TokenCrypto" where
  "TokenCrypto_new ks = \<lparr>tc_key_store = ks, tc_decrypt_config = DecryptConfig_default\<rparr>"

definition TokenCrypto_with_config :: "KeyStore \<Rightarrow> DecryptConfig \<Rightarrow> TokenCrypto" where
  "TokenCrypto_with_config ks c = \<lparr>tc_key_store = ks, tc_decrypt_config = c\<rparr>"

definition with_keypair :: "Keypair \<Rightarrow> string \<Rightarrow> TokenCrypto" where
  "with_keypair k key_id = TokenCrypto_new (with_primary (VersionedKeypair_new key_id k 1))"

definition tc_seal :: "crypto_lib \<Rightarrow> base64_lib \<Rightarrow> TokenPayload serde_lib \<Rightarrow> seal_rng \<Rightarrow> TokenCrypto \<Rightarrow>
    TokenPayload \<Rightarrow> SealedToken tresult" where
  "tc_seal C B P rng tc payload =
     bindR (ok_or (ks_primary (tc_key_store tc)) (CryptoError ''no primary key configured''))
       (create_sealed_token C B P rng payload)"

definition tc_unseal :: "crypto_lib \<Rightarrow> base64_lib \<Rightarrow> TokenPayload serde_lib \<Rightarrow> TokenCrypto \<Rightarrow>
    SealedToken \<Rightarrow> u64 \<Rightarrow> TokenPayload tresult" where
  "tc_unseal C B P tc token now =
     decrypt_sealed_token_with_config C B P token (tc_key_store tc) (tc_decrypt_config tc) now"

definition tc_unseal_with_config :: "crypto_lib \<Rightarrow> base64_lib \<Rightarrow> TokenPayload serde_lib \<Rightarrow> TokenCrypto \<Rightarrow>
    SealedToken \<Rightarrow> DecryptConfig \<Rightarrow> u64 \<Rightarrow> TokenPayload tresult" where
  "tc_unseal_with_config C B P tc token config now =
     decrypt_sealed_token_with_config C B P token (tc_key_store tc) config now"

definition api_key_hmac_key :: "crypto_lib \<Rightarrow> TokenCrypto \<Rightarrow> string \<Rightarrow> bytes tresult" where
  "api_key_hmac_key C tc key_id =
     bindR (ok_or (find_by_id (tc_key_store tc) key_id) (DecryptionError ''decryption failed''))
       (\<lambda>vk. derive_api_key_hmac_key C (kp_public_key (vk_keypair vk)) None)"

section \<open>Finding keys\<close>

text \<open>Every key of a well-formed store has its own id.\<close>

definition store_wf :: "KeyStore \<Rightarrow> bool" where
  "store_wf ks \<longleftrightarrow> distinct (map vk_key_id (ks_iter ks))"

lemma find_distinct:
  "distinct (map f xs) \<Longrightarrow> List.find (\<lambda>x. f x = i) xs = Some k \<longleftrightarrow> k \<in> set xs \<and> f k = i"
  by (induction xs) force+

lemma find_by_id_iter: "find_by_id ks i = List.find (\<lambda>k. vk_key_id k = i) (ks_iter ks)"
  by (simp add: find_by_id_def ks_iter_def split: option.split)

lemma find_by_id_iff:
  "store_wf ks \<Longrightarrow> find_by_id ks i = Some k \<longleftrightarrow> k \<in> set (ks_iter ks) \<and> vk_key_id k = i"
  by (simp add: store_wf_def find_by_id_iter find_distinct)

text \<open>What both ways of adding a key promise: nothing is lost, and ids stay apart.\<close>

locale key_addition =
  fixes add :: "KeyStore \<Rightarrow> VersionedKeypair \<Rightarrow> KeyStore"
  assumes adds: "set (ks_iter (add ks k)) = insert k (set (ks_iter ks))"
    and len: "length (ks_iter (add ks k)) = Suc (length (ks_iter ks))"
begin

lemma add_wf:
  assumes "store_wf ks" and "vk_key_id k \<notin> vk_key_id ` set (ks_iter ks)"
  shows "store_wf (add ks k)"
proof -
  have "card (vk_key_id ` set (ks_iter (add ks k))) = Suc (card (vk_key_id ` set (ks_iter ks)))"
    using assms(2) by (simp add: adds)
  also have "\<dots> = length (ks_iter (add ks k))"
    using assms(1) distinct_card [of "map vk_key_id (ks_iter ks)"] by (simp add: store_wf_def len)
  finally have "card (set (map vk_key_id (ks_iter (add ks k)))) = length (map vk_key_id (ks_iter (add ks k)))"
    by simp
  then show ?thesis unfolding store_wf_def by (rule card_distinct)
qed

lemma add_finds_old:
  assumes "store_wf ks" and "vk_key_id k \<notin> vk_key_id ` set (ks_iter ks)" and "find_by_id ks i = Some k'"
  shows "find_by_id (add ks k) i = Some k'"
  using assms add_wf [OF assms(1,2)] by (simp add: find_by_id_iff adds)

lemma add_finds_new:
  "store_wf ks \<Longrightarrow> vk_key_id k \<notin> vk_key_id ` set (ks_iter ks) \<Longrightarrow>
   find_by_id (add ks k) (vk_key_id k) = Some k"
  by (simp add: find_by_id_iff add_wf adds)

end

interpretation rotate: key_addition set_primary
  by unfold_locales (auto simp: set_primary_def ks_iter_def split: option.split)

interpretation archive: key_addition add_historical
  by unfold_locales (auto simp: add_historical_def ks_iter_def split: option.split)

text \<open>A history of rotations and additions.\<close>

datatype store_op = Rotate VersionedKeypair | Archive VersionedKeypair

fun apply_store_op :: "store_op \<Rightarrow> KeyStore \<Rightarrow> KeyStore" where
  "apply_store_op (Rotate k) ks = set_primary ks k"
| "apply_store_op (Archive k) ks = add_historical ks k"

fun op_key :: "store_op \<Rightarrow> VersionedKeypair" where
  "op_key (Rotate k) = k"
| "op_key (Archive k) = k"

lemma apply_store_op_keeps:
  assumes "store_wf ks" and "vk_key_id (op_key x) \<notin> vk_key_id ` set (ks_iter ks)"
  shows "store_wf (apply_store_op x ks)"
    and "set (ks_iter (apply_store_op x ks)) = insert (op_key x) (set (ks_iter ks))"
    and "find_by_id ks i = Some k \<Longrightarrow> find_by_id (apply_store_op x ks) i = Some k"
  using assms by (cases x; simp add: rotate.add_wf archive.add_wf rotate.adds archive.adds
      rotate.add_finds_old archive.add_finds_old)+

lemma fold_store_ops_finds:
  assumes "store_wf ks" and "distinct (map (\<lambda>x. vk_key_id (op_key x)) ops)"
    and "\<forall>x \<in> set ops. vk_key_id (op_key x) \<notin> vk_key_id ` set (ks_iter ks)"
    and "find_by_id ks i = Some k"
  shows "find_by_id (fold apply_store_op ops ks) i = Some k"
  using assms
proof (induction ops arbitrary: ks)
  case (Cons x ops)
  have fresh: "vk_key_id (op_key x) \<notin> vk_key_id ` set (ks_iter ks)" using Cons.prems(3) by simp
  note keeps = apply_store_op_keeps [OF Cons.prems(1) fresh]
  have "\<forall>y \<in> set ops. vk_key_id (op_key y) \<notin> vk_key_id ` set (ks_iter (apply_store_op x ks))"
    using Cons.prems(2,3) by (auto simp: keeps(2)) (metis image_eqI)
  with Cons.IH [OF keeps(1)] Cons.prems(2,4) keeps(3) show ?case by simp
qed simp

section \<open>Sealing and unsealing\<close>

lemma seal_unseal:
  assumes "box_laws C" and "serde_laws P" and "length (rng_nonce rng) = 24"
    and "kp_public_key kp = public_of C (kp_secret_key kp)"
    and "seal C P rng p (kp_public_key kp) = Ok sealed"
  shows "unseal C P sealed kp = Ok p"
proof -
  from assms(5) obtain js c where c: "ser P p = Ok js"
    "box_encrypt C (public_of C (kp_secret_key kp)) (rng_ephemeral rng) (rng_nonce rng) js = Ok c"
    "sealed = public_of C (rng_ephemeral rng) @ rng_nonce rng @ c"
    by (auto simp: seal_def assms(4))
  have laws: "box_decrypt C (public_of C (rng_ephemeral rng)) (kp_secret_key kp) (rng_nonce rng) c = Ok js"
    "length c \<ge> 16" "length (public_of C (rng_ephemeral rng)) = 32"
    using assms(1) c(2) unfolding box_laws_def by blast+
  have "take 32 sealed = public_of C (rng_ephemeral rng)" "take 24 (drop 32 sealed) = rng_nonce rng"
    "drop 56 sealed = c" "\<not> length sealed < 72"
    using laws(2,3) assms(3) by (simp_all add: c(3))
  moreover have "de P js = Ok p" using assms(2) c(1) unfolding serde_laws_def by blast
  ultimately show ?thesis using laws(1) by (simp add: unseal_def)
qed

definition lifetime_ok :: "DecryptConfig \<Rightarrow> TokenPayload \<Rightarrow> u64 \<Rightarrow> bool" where
  "lifetime_ok config p now \<longleftrightarrow>
     (case check_expiration p (dc_clock_skew config) now of
        Valid \<Rightarrow> True | NoExpiration \<Rightarrow> \<not> dc_require_expiration config | _ \<Rightarrow> False)"

lemma expiration_gate_Ok_iff: "expiration_gate config p now = Ok q \<longleftrightarrow> q = p \<and> lifetime_ok config p now"
  by (auto simp: expiration_gate_def lifetime_ok_def split: ExpirationStatus.splits)

lemma decrypt_Ok_iff:
  "decrypt_sealed_token_with_config C B P token ks config now = Ok p \<longleftrightarrow>
     (\<exists>vk sb. find_by_id ks (st_key_id token) = Some vk \<and> b64_decode B (st_ciphertext token) = Ok sb \<and>
        unseal C P sb (vk_keypair vk) = Ok p \<and> lifetime_ok config p now)"
  by (auto simp: decrypt_sealed_token_with_config_def expiration_gate_Ok_iff)

lemma version_digits_no_dash: "CHR ''-'' \<notin> set (nat_to_string n)"
proof (induction n rule: nat_to_string.induct)
  case (1 n)
  have dig: "d < 10 \<Longrightarrow> digit_chars ! d \<noteq> CHR ''-''" for d
  proof -
    assume "d < 10"
    then have "d \<in> set [0, 1, 2, 3, 4, 5, 6, 7, 8, 9]" by auto
    then show ?thesis by (auto simp: digit_chars_def)
  qed
  show ?case
  proof (cases "n < 10")
    case True
    with dig [of n] show ?thesis by (simp add: nat_to_string.simps [of n])
  next
    case False
    with 1 dig [of "n mod 10"] show ?thesis by (simp add: nat_to_string.simps [of n])
  qed
qed

lemma split_last_unique:
  assumes "u @ c # v = u' @ c # v'" and "c \<notin> set v" and "c \<notin> set v'"
  shows "u = u' \<and> v = v'"
proof -
  have "rfind_char c (u @ c # v) = Some (length u)" "rfind_char c (u' @ c # v') = Some (length u')"
    using assms(2,3) by simp_all
  with assms(1) have "length u = length u'" by simp
  with assms(1) show ?thesis by simp
qed

lemma nat_to_string_inj: "nat_to_string m = nat_to_string n \<Longrightarrow> m = n"
  by (metis option.inject parse_nat_nat_to_string)

lemma keypair_info_inj: "keypair_info i v = keypair_info j w \<Longrightarrow> i = j \<and> v = w"
proof -
  assume "keypair_info i v = keypair_info j w"
  then have "i @ CHR ''-'' # nat_to_string (unat v) = j @ CHR ''-'' # nat_to_string (unat w)"
    unfolding keypair_info_def by (simp add: as_bytes_append [symmetric] del: as_bytes_append)
  then have "i = j" "nat_to_string (unat v) = nat_to_string (unat w)"
    using split_last_unique version_digits_no_dash by metis+
  then show ?thesis using nat_to_string_inj unsigned_word_eqI by blast
qed

section \<open>Properties\<close>

text \<open>
  Property C12. A token sealed under the primary key unseals to its payload, also after any history of
  rotations and added keys with fresh ids, while its lifetime is in order.
\<close>

theorem sealed_token_survives_rotation:
  assumes "box_laws C" and "base64_laws B" and "serde_laws P" and "length (rng_nonce rng) = 24"
    and "ks_primary (tc_key_store tc) = Some vk"
    and "kp_public_key (vk_keypair vk) = public_of C (kp_secret_key (vk_keypair vk))"
    and "store_wf (tc_key_store tc)" and "distinct (map (\<lambda>x. vk_key_id (op_key x)) ops)"
    and "\<forall>x \<in> set ops. vk_key_id (op_key x) \<notin> vk_key_id ` set (ks_iter (tc_key_store tc))"
    and "tc_seal C B P rng tc p = Ok token" and "lifetime_ok (tc_decrypt_config tc) p now"
  shows "tc_unseal C B P (tc\<lparr>tc_key_store := fold apply_store_op ops (tc_key_store tc)\<rparr>) token now = Ok p"
proof -
  from assms(5,10) obtain sealed where sealed: "seal C P rng p (kp_public_key (vk_keypair vk)) = Ok sealed"
    "token = SealedToken_new (vk_key_id vk) (b64_encode B sealed)"
    by (auto simp: tc_seal_def create_sealed_token_def)
  have "unseal C P sealed (vk_keypair vk) = Ok p"
    using assms(1,3,4,6) sealed(1) by (rule seal_unseal)
  moreover have "find_by_id (tc_key_store tc) (vk_key_id vk) = Some vk"
    using assms(5) by (simp add: find_by_id_def)
  then have "find_by_id (fold apply_store_op ops (tc_key_store tc)) (vk_key_id vk) = Some vk"
    using fold_store_ops_finds [OF assms(7-9)] by blast
  ultimately show ?thesis
    using assms(2,11) sealed(2)
    by (simp add: tc_unseal_def decrypt_Ok_iff SealedToken_new_def base64_laws_def)
qed

text \<open>Primitives that keep the laws, without any secrecy, and a serialiser for one payload.\<close>

definition plain_crypto :: crypto_lib where
  "plain_crypto =
     \<lparr>public_of = (\<lambda>s. take 32 (s @ replicate 32 0)),
      box_encrypt = (\<lambda>pk sk n m. Ok (replicate 16 0 @ m)), box_decrypt = (\<lambda>pk sk n c. Ok (drop 16 c)),
      hkdf_expand = (\<lambda>salt ikm info. Some (take 32 (info @ replicate 32 0))),
      hmac_sha256 = (\<lambda>k m. Ok (k @ m)), hmac_sha512 = (\<lambda>k m. Ok (m @ k)), sha256 = id,
      hex_encode = chars_of, hex_decode = (\<lambda>s. Ok (as_bytes s))\<rparr>"

definition one_payload_serde :: "TokenPayload \<Rightarrow> TokenPayload serde_lib" where
  "one_payload_serde p = \<lparr>ser = (\<lambda>q. if q = p then Ok [] else Err ''unsupported''), de = (\<lambda>_. Ok p)\<rparr>"

lemma plain_crypto_laws: "box_laws plain_crypto"
  by (auto simp: box_laws_def plain_crypto_def)

lemma one_payload_serde_laws: "serde_laws (one_payload_serde p)"
  by (simp add: serde_laws_def one_payload_serde_def)

definition sample_payload :: TokenPayload where
  "sample_payload = b_expires_at (b_allowed_host (payload_builder ''s3cret'' (PcInject (InjectConfig_bearer ''authorization''))) ''a.io'') 1000"

definition sample_key :: "string \<Rightarrow> VersionedKeypair" where
  "sample_key i = VersionedKeypair_new i \<lparr>kp_public_key = public_of plain_crypto [], kp_secret_key = []\<rparr> 1"

theorem sealed_token_survives_rotation_witness:
  "\<exists>token. tc_seal plain_crypto plain_base64 (one_payload_serde sample_payload)
       \<lparr>rng_ephemeral = [], rng_nonce = replicate 24 0\<rparr>
       (TokenCrypto_new (with_primary (sample_key ''k1''))) sample_payload = Ok token \<and>
     tc_unseal plain_crypto plain_base64 (one_payload_serde sample_payload)
       ((TokenCrypto_new (with_primary (sample_key ''k1'')))
          \<lparr>tc_key_store := set_primary (with_primary (sample_key ''k1'')) (sample_key ''k2'')\<rparr>)
       token 900 = Ok sample_payload"
proof -
  let ?tc = "TokenCrypto_new (with_primary (sample_key ''k1''))"
  let ?rng = "\<lparr>rng_ephemeral = [], rng_nonce = replicate 24 0\<rparr>"
  obtain token where token: "tc_seal plain_crypto plain_base64 (one_payload_serde sample_payload) ?rng
      ?tc sample_payload = Ok token"
    by (simp add: tc_seal_def TokenCrypto_new_def with_primary_def create_sealed_token_def seal_def
        one_payload_serde_def plain_crypto_def)
  have "lifetime_ok (tc_decrypt_config ?tc) sample_payload 900"
    by (simp add: lifetime_ok_def TokenCrypto_new_def DecryptConfig_default_def ClockSkewConfig_default_def
        check_expiration_def check_expiry_def sample_payload_def b_expires_at_def)
  with sealed_token_survives_rotation [OF plain_crypto_laws plain_base64_laws one_payload_serde_laws,
      of ?rng ?tc "sample_key ''k1''" "[Rotate (sample_key ''k2'')]", OF _ _ _ _ _ _ token, of 900] token
  show ?thesis
    by (simp add: TokenCrypto_new_def with_primary_def sample_key_def VersionedKeypair_new_def
        store_wf_def ks_iter_def)
qed

text \<open>
  Note. Unsealing succeeds only for a known key id and a payload whose lifetime is in order at
  the time of the call: never past its expiry and tolerance, never dated further ahead than allowed,
  and never without an expiry when one is required.
\<close>

theorem unseal_checks_lifetime:
  assumes "tc_unseal C B P tc token now = Ok p"
  shows "find_by_id (tc_key_store tc) (st_key_id token) \<noteq> None \<and>
    (check_expiration p (dc_clock_skew (tc_decrypt_config tc)) now = Valid \<or>
     tp_expires_at p = None \<and> \<not> dc_require_expiration (tc_decrypt_config tc))"
  using assms
  by (auto simp: tc_unseal_def decrypt_Ok_iff lifetime_ok_def check_expiration_def check_expiry_def
      split: ExpirationStatus.splits option.splits if_splits)

theorem unseal_checks_lifetime_witness:
  "check_expiration sample_payload ClockSkewConfig_default 900 = Valid"
proof -
  let ?tc = "TokenCrypto_new (with_primary (sample_key ''k1''))"
  have "tc_unseal plain_crypto plain_base64 (one_payload_serde sample_payload) ?tc
      (SealedToken_new ''k1'' (replicate 72 (CHR ''a''))) 900 = Ok sample_payload"
    by (simp add: tc_unseal_def decrypt_Ok_iff SealedToken_new_def TokenCrypto_new_def with_primary_def
        find_by_id_def sample_key_def VersionedKeypair_new_def plain_base64_def unseal_def Let_def
        plain_crypto_def one_payload_serde_def lifetime_ok_def DecryptConfig_default_def
        ClockSkewConfig_default_def check_expiration_def check_expiry_def sample_payload_def b_expires_at_def)
  from unseal_checks_lifetime [OF this] show ?thesis
    by (simp add: TokenCrypto_new_def DecryptConfig_default_def sample_payload_def b_expires_at_def)
qed

text \<open>
  Note. Derivation contexts never collide: different key ids or versions give different
  contexts, and the contexts of key pairs, of HMAC keys and of the API key hash are disjoint.
\<close>

theorem derivation_contexts_disjoint:
  "(keypair_info i v = keypair_info j w \<longleftrightarrow> i = j \<and> v = w) \<and>
   (hmac_info a = hmac_info b \<longleftrightarrow> a = b) \<and>
   keypair_info i v \<noteq> hmac_info a \<and> keypair_info i v \<noteq> api_key_info \<and> hmac_info a \<noteq> api_key_info"
proof -
  have "keypair_info i v = as_bytes (''icebreaker-v1-key-'' @ i @ ''-'' @ nat_to_string (unat v))"
    by (simp only: keypair_info_def KEY_INFO_PREFIX_def as_bytes_append)
  then show ?thesis
    using keypair_info_inj by (auto simp: hmac_info_def api_key_info_def)
qed

end
