(* ===== verification/Auth_Validation.thy ===== *)
theory Auth_Validation
  imports Http Crypto Constraints "HOL-Library.Multiset" "HOL-Library.Char_ord" "HOL-Library.List_Lexorder"
begin

text \<open>
  Signatures and client authentication, \<open>crates/icebreaker-crypto/src/hmac.rs\<close> and
  \<open>auth_validation.rs\<close>: signing and verifying, the canonical request, parsing of credentials, and
  the decision whether a client may use a token. Constant-time comparison is comparison; its timing
  is not modelled.
\<close>

section \<open>Signatures\<close>

definition compute_signature :: "crypto_lib \<Rightarrow> bytes \<Rightarrow> bytes \<Rightarrow> HmacAlgorithm \<Rightarrow> bytes tresult" where
  "compute_signature C key message algorithm =
     (case algorithm of
        Sha256 \<Rightarrow> map_err (\<lambda>e. CryptoError (''HMAC key error: '' @ e)) (hmac_sha256 C key message)
      | Sha512 \<Rightarrow> map_err (\<lambda>e. CryptoError (''HMAC key error: '' @ e)) (hmac_sha512 C key message))"

definition verify_signature :: "crypto_lib \<Rightarrow> bytes \<Rightarrow> bytes \<Rightarrow> bytes \<Rightarrow> HmacAlgorithm \<Rightarrow> bool" where
  "verify_signature C key message signature algorithm =
     (case compute_signature C key message algorithm of
        Inl _ \<Rightarrow> False
      | Inr expected \<Rightarrow> expected = signature)"

definition signature_to_hex :: "crypto_lib \<Rightarrow> bytes \<Rightarrow> string" where
  "signature_to_hex C s = hex_encode C s"

definition signature_from_hex :: "crypto_lib \<Rightarrow> string \<Rightarrow> bytes tresult" where
  "signature_from_hex C s = map_err (\<lambda>e. CryptoError (''invalid hex signature: '' @ e)) (hex_decode C s)"

definition signature_to_base64 :: "base64_lib \<Rightarrow> bytes \<Rightarrow> string" where
  "signature_to_base64 B s = b64_encode B s"

definition signature_from_base64 :: "base64_lib \<Rightarrow> string \<Rightarrow> bytes tresult" where
  "signature_from_base64 B s = map_err (\<lambda>e. CryptoError (''invalid base64 signature: '' @ e)) (b64_decode B s)"

record RequestSigner =
  sg_key :: bytes
  sg_algorithm :: HmacAlgorithm

definition RequestSigner_new :: "bytes \<Rightarrow> HmacAlgorithm \<Rightarrow> RequestSigner" where
  "RequestSigner_new k a = \<lparr>sg_key = k, sg_algorithm = a\<rparr>"

definition sign :: "crypto_lib \<Rightarrow> RequestSigner \<Rightarrow> bytes \<Rightarrow> bytes tresult" where
  "sign C s message = compute_signature C (sg_key s) message (sg_algorithm s)"

definition sign_hex :: "crypto_lib \<Rightarrow> RequestSigner \<Rightarrow> bytes \<Rightarrow> string tresult" where
  "sign_hex C s message = bindR (sign C s message) (\<lambda>g. Ok (signature_to_hex C g))"

definition sign_base64 :: "crypto_lib \<Rightarrow> base64_lib \<Rightarrow> RequestSigner \<Rightarrow> bytes \<Rightarrow> string tresult" where
  "sign_base64 C B s message = bindR (sign C s message) (\<lambda>g. Ok (signature_to_base64 B g))"

definition verify :: "crypto_lib \<Rightarrow> RequestSigner \<Rightarrow> bytes \<Rightarrow> bytes \<Rightarrow> bool" where
  "verify C s message signature = verify_signature C (sg_key s) message signature (sg_algorithm s)"

definition verify_hex :: "crypto_lib \<Rightarrow> RequestSigner \<Rightarrow> bytes \<Rightarrow> string \<Rightarrow> bool tresult" where
  "verify_hex C s message hex_signature =
     bindR (signature_from_hex C hex_signature) (\<lambda>g. Ok (verify C s message g))"

definition verify_base64 :: "crypto_lib \<Rightarrow> base64_lib \<Rightarrow> RequestSigner \<Rightarrow> bytes \<Rightarrow> string \<Rightarrow> bool tresult" where
  "verify_base64 C B s message b64_signature =
     bindR (signature_from_base64 B b64_signature) (\<lambda>g. Ok (verify C s message g))"

text \<open>A text form of signatures: encode and decode, and a decoder that inverts the encoder.\<close>

definition hex_laws :: "crypto_lib \<Rightarrow> bool" where
  "hex_laws C \<longleftrightarrow> (\<forall>b. hex_decode C (hex_encode C b) = Ok b)"

lemma verify_sign: "sign C s m = Ok g \<Longrightarrow> verify C s m g' \<longleftrightarrow> g' = g"
  by (auto simp: sign_def verify_def verify_signature_def)

lemma verify_hex_sign:
  "hex_laws C \<Longrightarrow> sign_hex C s m = Ok h \<Longrightarrow> verify_hex C s m h = Ok True"
  by (auto simp: sign_hex_def verify_hex_def signature_from_hex_def signature_to_hex_def hex_laws_def
      verify_sign)

lemma verify_base64_sign:
  "base64_laws B \<Longrightarrow> sign_base64 C B s m = Ok h \<Longrightarrow> verify_base64 C B s m h = Ok True"
  by (auto simp: sign_base64_def verify_base64_def signature_from_base64_def signature_to_base64_def
      base64_laws_def verify_sign)

text \<open>What a signer of each algorithm computes, and what its text forms are.\<close>

lemma sign_new:
  assumes "if a = Sha256 then mac = hmac_sha256 C k m else mac = hmac_sha512 C k m"
  shows "sign C (RequestSigner_new k a) m = Ok g \<longleftrightarrow> mac = Ok g"
  using assms by (cases a; cases mac) (auto simp: sign_def RequestSigner_new_def compute_signature_def)

lemma verify_sign_iff: "verify C s m g \<longleftrightarrow> sign C s m = Ok g"
  by (auto simp: sign_def verify_def verify_signature_def split: sum.split)

lemma verify_new:
  assumes "if a = Sha256 then mac = hmac_sha256 C k m else mac = hmac_sha512 C k m"
  shows "verify C (RequestSigner_new k a) m g \<longleftrightarrow> mac = Ok g"
  unfolding verify_sign_iff by (rule sign_new [OF assms])

lemma text_signatures:
  "sign_hex C s m = Ok h \<longleftrightarrow> (\<exists>d. sign C s m = Ok d \<and> h = hex_encode C d)"
  "sign_base64 C B s m = Ok h \<longleftrightarrow> (\<exists>d. sign C s m = Ok d \<and> h = b64_encode B d)"
  by (cases "sign C s m"; auto simp: sign_hex_def sign_base64_def signature_to_hex_def
      signature_to_base64_def)+

lemma text_verified:
  "verify_hex C s m t = Ok True \<longleftrightarrow> (\<exists>d. sign C s m = Ok d \<and> hex_decode C t = Ok d)"
  "verify_base64 C B s m t = Ok True \<longleftrightarrow> (\<exists>d. sign C s m = Ok d \<and> b64_decode B t = Ok d)"
  by (cases "hex_decode C t"; cases "b64_decode B t"; auto simp: verify_hex_def verify_base64_def
      signature_from_hex_def signature_from_base64_def verify_sign_iff)+

section \<open>The canonical request\<close>

record CanonicalRequestBuilder =
  cr_method :: string
  cr_path :: string
  cr_query :: string
  cr_headers :: "(string \<times> string) list"
  cr_body_hash :: "string option"

definition CanonicalRequestBuilder_new :: "string \<Rightarrow> string \<Rightarrow> CanonicalRequestBuilder" where
  "CanonicalRequestBuilder_new m p =
     \<lparr>cr_method = m, cr_path = p, cr_query = [], cr_headers = [], cr_body_hash = None\<rparr>"

definition cr_set_query :: "CanonicalRequestBuilder \<Rightarrow> string \<Rightarrow> CanonicalRequestBuilder" where
  "cr_set_query b q = b\<lparr>cr_query := q\<rparr>"

definition cr_header :: "CanonicalRequestBuilder \<Rightarrow> string \<Rightarrow> string \<Rightarrow> CanonicalRequestBuilder" where
  "cr_header b name v = b\<lparr>cr_headers := cr_headers b @ [(to_lower name, v)]\<rparr>"

definition cr_set_body_hash :: "CanonicalRequestBuilder \<Rightarrow> string \<Rightarrow> CanonicalRequestBuilder" where
  "cr_set_body_hash b h = b\<lparr>cr_body_hash := Some h\<rparr>"

definition cr_body :: "crypto_lib \<Rightarrow> CanonicalRequestBuilder \<Rightarrow> bytes \<Rightarrow> CanonicalRequestBuilder" where
  "cr_body C b body = cr_set_body_hash b (hex_encode C (sha256 C body))"

abbreviation nl :: char where "nl \<equiv> CHR 0x0A"

definition header_line :: "string \<times> string \<Rightarrow> string" where
  "header_line h = fst h @ '':'' @ snd h"

definition cr_build :: "CanonicalRequestBuilder \<Rightarrow> string" where
  "cr_build b =
     cr_method b @ [nl] @ cr_path b @ [nl] @ cr_query b @ [nl]
     @ concat (map (\<lambda>h. header_line h @ [nl]) (sort_key fst (cr_headers b)))
     @ [nl] @ unwrap_or (cr_body_hash b) []"

text \<open>Fields that cannot be confused: no line feed, and no colon in a header name.\<close>

definition cr_clean :: "CanonicalRequestBuilder \<Rightarrow> bool" where
  "cr_clean b \<longleftrightarrow> nl \<notin> set (cr_method b) \<and> nl \<notin> set (cr_path b) \<and> nl \<notin> set (cr_query b) \<and>
     list_all (\<lambda>(n, v). nl \<notin> set n \<and> CHR '':'' \<notin> set n \<and> nl \<notin> set v) (cr_headers b)"

lemma split_first_unique:
  assumes "u @ c # v = u' @ c # v'" and "c \<notin> set u" and "c \<notin> set u'"
  shows "u = u' \<and> v = v'"
proof -
  have "split_once c (u @ c # v) = Some (u, v)" "split_once c (u' @ c # v') = Some (u', v')"
    using assms(2,3) by (simp_all add: split_once_eq_Some)
  then have "Some (u, v) = Some (u', v')" unfolding assms(1) by (rule trans [OF sym])
  then show ?thesis by simp
qed

lemma header_line_inj:
  "header_line g = header_line h \<Longrightarrow> CHR '':'' \<notin> set (fst g) \<Longrightarrow> CHR '':'' \<notin> set (fst h) \<Longrightarrow> g = h"
  using split_first_unique [of "fst g" "CHR '':''" "snd g" "fst h" "snd h"]
  by (auto simp: header_line_def prod_eq_iff)

lemma header_block_unique:
  assumes "concat (map (\<lambda>h. header_line h @ [nl]) gs) @ nl # r = concat (map (\<lambda>h. header_line h @ [nl]) hs) @ nl # s"
    and "\<forall>(n, v) \<in> set gs \<union> set hs. nl \<notin> set n \<and> CHR '':'' \<notin> set n \<and> nl \<notin> set v"
  shows "gs = hs \<and> r = s"
  using assms
proof (induction gs arbitrary: hs)
  case Nil
  show ?case
  proof (cases hs)
    case (Cons h hs')
    with Nil have "[] @ nl # r = header_line h @ nl # concat (map (\<lambda>h. header_line h @ [nl]) hs') @ nl # s"
      by simp
    moreover have "nl \<notin> set (header_line h)" using Nil.prems(2) Cons by (auto simp: header_line_def)
    ultimately have "header_line h = []" using split_first_unique [of "[]"] by (metis empty_iff empty_set)
    then show ?thesis by (simp add: header_line_def)
  qed (use Nil in simp)
next
  case (Cons g gs)
  have g: "nl \<notin> set (header_line g)" using Cons.prems(2) by (auto simp: header_line_def)
  show ?case
  proof (cases hs)
    case Nil
    then have "header_line g @ nl # concat (map (\<lambda>h. header_line h @ [nl]) gs) @ nl # r = [] @ nl # s"
      using Cons.prems(1) by simp
    then have "header_line g = []" using split_first_unique [of "header_line g"] g
      by (metis empty_iff empty_set)
    then show ?thesis by (simp add: header_line_def)
  next
    case (Cons h hs')
    have h: "nl \<notin> set (header_line h)" using Cons.prems(2) Cons by (auto simp: header_line_def)
    have "header_line g @ nl # (concat (map (\<lambda>h. header_line h @ [nl]) gs) @ nl # r)
        = header_line h @ nl # (concat (map (\<lambda>h. header_line h @ [nl]) hs') @ nl # s)"
      using Cons.prems(1) Cons by simp
    from split_first_unique [OF this g h] have eq: "header_line g = header_line h"
      "concat (map (\<lambda>h. header_line h @ [nl]) gs) @ nl # r = concat (map (\<lambda>h. header_line h @ [nl]) hs') @ nl # s"
      by simp_all
    have "g = h" using header_line_inj [OF eq(1)] Cons.prems(2) Cons by (auto split: prod.splits)
    with Cons.IH [OF eq(2)] Cons.prems(2) Cons show ?thesis by auto
  qed
qed

lemma cr_build_unambiguous:
  assumes "cr_build a = cr_build b" and "cr_clean a" and "cr_clean b"
  shows "cr_method a = cr_method b \<and> cr_path a = cr_path b \<and> cr_query a = cr_query b \<and>
    sort_key fst (cr_headers a) = sort_key fst (cr_headers b) \<and>
    unwrap_or (cr_body_hash a) [] = unwrap_or (cr_body_hash b) []"
proof -
  let ?hb = "\<lambda>x. concat (map (\<lambda>h. header_line h @ [nl]) (sort_key fst (cr_headers x))) @ nl # unwrap_or (cr_body_hash x) []"
  have build: "cr_build x = cr_method x @ nl # (cr_path x @ nl # (cr_query x @ nl # ?hb x))" for x
    by (simp add: cr_build_def)
  from split_first_unique [OF assms(1) [unfolded build]] assms(2,3)
  have 1: "cr_method a = cr_method b"
    "cr_path a @ nl # (cr_query a @ nl # ?hb a) = cr_path b @ nl # (cr_query b @ nl # ?hb b)"
    by (simp_all add: cr_clean_def)
  from split_first_unique [OF 1(2)] assms(2,3)
  have 2: "cr_path a = cr_path b" "cr_query a @ nl # ?hb a = cr_query b @ nl # ?hb b"
    by (simp_all add: cr_clean_def)
  from split_first_unique [OF 2(2)] assms(2,3)
  have 3: "cr_query a = cr_query b" "?hb a = ?hb b" by (simp_all add: cr_clean_def)
  have "\<forall>(n, v) \<in> set (sort_key fst (cr_headers a)) \<union> set (sort_key fst (cr_headers b)).
      nl \<notin> set n \<and> CHR '':'' \<notin> set n \<and> nl \<notin> set v"
    using assms(2,3) by (auto simp: cr_clean_def list_all_iff)
  from header_block_unique [OF 3(2) this] 1(1) 2(1) 3(1) show ?thesis by blast
qed

section \<open>API key hashes\<close>

definition SUBJECT_PATTERN_REGEX_SIZE_LIMIT :: nat where
  "SUBJECT_PATTERN_REGEX_SIZE_LIMIT = 10 * 1024"

definition PROXY_AUTHORIZATION_HEADER :: string where
  "PROXY_AUTHORIZATION_HEADER = ''Proxy-Authorization''"

definition hash_api_key :: "crypto_lib \<Rightarrow> string \<Rightarrow> bytes \<Rightarrow> string tresult" where
  "hash_api_key C key hmac_key =
     bindR (compute_signature C hmac_key (as_bytes key) Sha256) (\<lambda>signature. Ok (hex_encode C signature))"

definition create_api_key_config :: "crypto_lib \<Rightarrow> string \<Rightarrow> string \<Rightarrow> bytes \<Rightarrow> ApiKeyConfig tresult" where
  "create_api_key_config C header_name key hmac_key =
     bindR (hash_api_key C key hmac_key) (\<lambda>h. Ok (ApiKeyConfig_new header_name h))"

definition create_bearer_api_key_config :: "crypto_lib \<Rightarrow> string \<Rightarrow> bytes \<Rightarrow> ApiKeyConfig tresult" where
  "create_bearer_api_key_config C key hmac_key =
     bindR (hash_api_key C key hmac_key)
       (\<lambda>h. Ok (ak_with_prefix (ApiKeyConfig_new PROXY_AUTHORIZATION_HEADER h) ''Bearer ''))"

definition create_basic_auth_config :: "crypto_lib \<Rightarrow> string \<Rightarrow> string \<Rightarrow> bytes \<Rightarrow> ApiKeyConfig tresult" where
  "create_basic_auth_config C username password hmac_key =
     bindR (hash_api_key C password hmac_key) (\<lambda>h.
     bindR (hash_api_key C username hmac_key) (\<lambda>u.
       Ok (ak_with_username_hash (ApiKeyConfig_new PROXY_AUTHORIZATION_HEADER h) u)))"

section \<open>Credentials of a request\<close>

datatype ProxyCredential = Bearer string | Basic string string

definition parse_auth_header :: "base64_lib \<Rightarrow> string \<Rightarrow> ProxyCredential option" where
  "parse_auth_header B v =
     (let v = trim v in
      case strip_prefix ''Bearer '' v of
        Some token \<Rightarrow> Some (Bearer (trim token))
      | None \<Rightarrow>
          (case Option.bind (strip_prefix ''Basic '' v) (\<lambda>encoded.
                Option.bind (ok (b64_decode B (trim encoded))) (\<lambda>decoded.
                Option.bind (from_utf8 decoded) (split_once (CHR '':'')))) of
             Some (username, password) \<Rightarrow> Some (Basic username password)
           | None \<Rightarrow> if v \<noteq> [] then Some (Bearer v) else None))"

definition parse_custom_auth_header :: "'h header_lib \<Rightarrow> base64_lib \<Rightarrow> ('h, 'b) request \<Rightarrow> string \<Rightarrow>
    ProxyCredential list" where
  "parse_custom_auth_header H B request header_name =
     (case h_get H (rq_headers request) header_name of
        Some header_value \<Rightarrow>
          (case h_to_str H header_value of
             Inr v \<Rightarrow> (case parse_auth_header B v of Some cred \<Rightarrow> [cred] | None \<Rightarrow> [])
           | Inl _ \<Rightarrow> [])
      | None \<Rightarrow> [])"

definition parse_proxy_authorization :: "'h header_lib \<Rightarrow> base64_lib \<Rightarrow> ('h, 'b) request \<Rightarrow>
    ProxyCredential list" where
  "parse_proxy_authorization H B request = parse_custom_auth_header H B request PROXY_AUTHORIZATION_HEADER"

record ExtractedCredential =
  xc_key :: string
  xc_username :: "string option"

definition strip_config_prefix :: "string option \<Rightarrow> string \<Rightarrow> string option" where
  "strip_config_prefix pfx token =
     (case pfx of Some p \<Rightarrow> strip_prefix p token | None \<Rightarrow> Some token)"

fun extract_key_from_credential :: "ProxyCredential \<Rightarrow> string option \<Rightarrow> ExtractedCredential option" where
  "extract_key_from_credential (Bearer token) pfx =
     map_option (\<lambda>key. \<lparr>xc_key = key, xc_username = None\<rparr>) (strip_config_prefix pfx token)"
| "extract_key_from_credential (Basic username password) pfx =
     map_option (\<lambda>key. \<lparr>xc_key = key, xc_username = Some username\<rparr>) (strip_config_prefix pfx password)"

definition check_credential :: "crypto_lib \<Rightarrow> ProxyCredential \<Rightarrow> string option \<Rightarrow> string \<Rightarrow> string option \<Rightarrow>
    bytes \<Rightarrow> bool" where
  "check_credential C cred pfx expected_key_hash expected_username_hash hmac_key =
     (case extract_key_from_credential cred pfx of
        None \<Rightarrow> False
      | Some extracted \<Rightarrow>
          (case hash_api_key C (xc_key extracted) hmac_key of
             Inl _ \<Rightarrow> False
           | Inr provided_key_hash \<Rightarrow>
               if provided_key_hash \<noteq> expected_key_hash then False
               else (case expected_username_hash of
                       None \<Rightarrow> True
                     | Some expected_user_hash \<Rightarrow>
                         (case xc_username extracted of
                            None \<Rightarrow> False
                          | Some username \<Rightarrow>
                              (case hash_api_key C username hmac_key of
                                 Inl _ \<Rightarrow> False
                               | Inr provided_user_hash \<Rightarrow> provided_user_hash = expected_user_hash)))))"

section \<open>The authentication decision\<close>

definition validate_api_key :: "crypto_lib \<Rightarrow> base64_lib \<Rightarrow> 'h header_lib \<Rightarrow> ApiKeyConfig \<Rightarrow>
    ('h, 'b) request \<Rightarrow> bytes \<Rightarrow> unit tresult" where
  "validate_api_key C B H config request hmac_key =
     (let credentials = parse_custom_auth_header H B request (ak_header_name config) in
      if credentials = []
      then Err (ProxyAuthRequired (''missing '' @ ak_header_name config @ '' header''))
      else if list_ex (\<lambda>cred. check_credential C cred (ak_prefix config) (ak_key_hash config)
                                (ak_username_hash config) hmac_key) credentials
      then Ok () else Err (ProxyAuthRequired ''invalid API key''))"

definition validate_mtls :: "regex_lib \<Rightarrow> MutualTlsConfig \<Rightarrow> TlsConnectionInfo option \<Rightarrow> unit tresult" where
  "validate_mtls rx config tls_info =
     bindR (ok_or tls_info (ProxyAuthRequired ''mutual TLS required but no client certificate provided''))
       (\<lambda>tls.
     bindR (ok_or (cert_fingerprint tls) (ProxyAuthRequired ''client certificate fingerprint not available''))
       (\<lambda>fingerprint.
     if fingerprint \<noteq> mt_cert_fingerprint config
     then Err (ProxyAuthRequired ''client certificate fingerprint mismatch'')
     else (case mt_subject_pattern config of
             None \<Rightarrow> Ok ()
           | Some pattern \<Rightarrow>
               bindR (ok_or (subject_dn tls) (ProxyAuthRequired ''client certificate subject DN not available''))
                 (\<lambda>dn.
               bindR (map_err (\<lambda>e. ConfigError (''invalid subject pattern regex: '' @ e))
                        (rx pattern SUBJECT_PATTERN_REGEX_SIZE_LIMIT))
                 (\<lambda>re. if re dn then Ok ()
                       else Err (ProxyAuthRequired ''client certificate subject pattern mismatch''))))))"

definition validate_auth :: "crypto_lib \<Rightarrow> base64_lib \<Rightarrow> 'h header_lib \<Rightarrow> regex_lib \<Rightarrow> AuthConfig \<Rightarrow>
    ('h, 'b) request \<Rightarrow> TlsConnectionInfo option \<Rightarrow> bytes option \<Rightarrow> unit tresult" where
  "validate_auth C B H rx config request tls_info hmac_key_opt =
     (case config of
        AuthNone \<Rightarrow> Ok ()
      | ApiKey api_key_config \<Rightarrow>
          bindR (ok_or hmac_key_opt (ConfigError ''API key HMAC key required for API key authentication''))
            (\<lambda>hmac_key. validate_api_key C B H api_key_config request hmac_key)
      | MutualTls mtls_config \<Rightarrow> validate_mtls rx mtls_config tls_info)"

section \<open>What an accepted client has shown\<close>

text \<open>The credential of the request carries the hashed key, and the hashed user name if one is set.\<close>

definition credential_proves :: "crypto_lib \<Rightarrow> ApiKeyConfig \<Rightarrow> bytes \<Rightarrow> ProxyCredential \<Rightarrow> bool" where
  "credential_proves C config hk cred \<longleftrightarrow>
     (\<exists>x. extract_key_from_credential cred (ak_prefix config) = Some x \<and>
        hash_api_key C (xc_key x) hk = Ok (ak_key_hash config) \<and>
        (\<forall>uh. ak_username_hash config = Some uh \<longrightarrow>
           (\<exists>u. xc_username x = Some u \<and> hash_api_key C u hk = Ok uh)))"

lemma check_credential_iff:
  "check_credential C cred (ak_prefix config) (ak_key_hash config) (ak_username_hash config) hk \<longleftrightarrow>
     credential_proves C config hk cred"
  by (auto simp: check_credential_def credential_proves_def split: option.splits sum.splits)

lemma validate_api_key_Ok_iff:
  "validate_api_key C B H config req hk = Ok () \<longleftrightarrow>
     (\<exists>hv v cred. h_get H (rq_headers req) (ak_header_name config) = Some hv \<and> h_to_str H hv = Ok v \<and>
        parse_auth_header B v = Some cred \<and> credential_proves C config hk cred)"
  by (auto simp: validate_api_key_def parse_custom_auth_header_def check_credential_iff
      split: option.splits sum.splits)

lemma validate_mtls_Ok_iff:
  "validate_mtls rx config tls_info = Ok () \<longleftrightarrow>
     (\<exists>tls. tls_info = Some tls \<and> cert_fingerprint tls = Some (mt_cert_fingerprint config) \<and>
        (\<forall>p. mt_subject_pattern config = Some p \<longrightarrow>
           (\<exists>dn re. subject_dn tls = Some dn \<and> rx p SUBJECT_PATTERN_REGEX_SIZE_LIMIT = Ok re \<and> re dn)))"
proof (cases tls_info)
  case (Some tls)
  show ?thesis
  proof (cases "mt_subject_pattern config")
    case None
    with Some show ?thesis by (auto simp: validate_mtls_def split: if_splits)
  next
    case pat: (Some p)
    show ?thesis
    proof (cases "rx p SUBJECT_PATTERN_REGEX_SIZE_LIMIT")
      case (Inr re)
      with Some pat show ?thesis
        by (cases "subject_dn tls"; cases "cert_fingerprint tls") (simp_all add: validate_mtls_def)
    qed (use Some pat in \<open>auto simp: validate_mtls_def split: if_splits\<close>)
  qed
qed (simp add: validate_mtls_def)

definition auth_shown :: "crypto_lib \<Rightarrow> base64_lib \<Rightarrow> 'h header_lib \<Rightarrow> regex_lib \<Rightarrow> AuthConfig \<Rightarrow>
    ('h, 'b) request \<Rightarrow> TlsConnectionInfo option \<Rightarrow> bytes option \<Rightarrow> bool" where
  "auth_shown C B H rx config req tls hk_opt \<longleftrightarrow>
     (case config of
        AuthNone \<Rightarrow> True
      | ApiKey c \<Rightarrow>
          (\<exists>hk hv v cred. hk_opt = Some hk \<and> h_get H (rq_headers req) (ak_header_name c) = Some hv \<and>
             h_to_str H hv = Ok v \<and> parse_auth_header B v = Some cred \<and> credential_proves C c hk cred)
      | MutualTls c \<Rightarrow>
          (\<exists>t. tls = Some t \<and> cert_fingerprint t = Some (mt_cert_fingerprint c) \<and>
             (\<forall>p. mt_subject_pattern c = Some p \<longrightarrow>
                (\<exists>dn re. subject_dn t = Some dn \<and> rx p SUBJECT_PATTERN_REGEX_SIZE_LIMIT = Ok re \<and> re dn))))"

lemma validate_auth_Ok_iff:
  "validate_auth C B H rx config req tls hk = Ok () \<longleftrightarrow> auth_shown C B H rx config req tls hk"
  by (cases config) (auto simp: validate_auth_def auth_shown_def validate_api_key_Ok_iff validate_mtls_Ok_iff)

text \<open>Trimming leaves a text that has no white space at its ends.\<close>

definition trimmed :: "string \<Rightarrow> bool" where
  "trimmed s \<longleftrightarrow> s \<noteq> [] \<and> \<not> is_ws (hd s) \<and> \<not> is_ws (last s)"

lemma dropWhile_hd: "s \<noteq> [] \<Longrightarrow> \<not> P (hd s) \<Longrightarrow> dropWhile P s = s"
  by (cases s) auto

lemma trim_trimmed: "trimmed s \<Longrightarrow> trim s = s"
  by (simp add: trim_def trimmed_def dropWhile_hd hd_rev)

lemma parse_bearer: "trimmed k \<Longrightarrow> parse_auth_header B (''Bearer '' @ k) = Some (Bearer k)"
proof -
  assume k: "trimmed k"
  then have "trimmed (''Bearer '' @ k)" by (auto simp: trimmed_def is_ws_def)
  then have "trim (''Bearer '' @ k) = ''Bearer '' @ k" by (rule trim_trimmed)
  then show ?thesis unfolding parse_auth_header_def Let_def
    by (simp only: strip_prefix_append option.case trim_trimmed [OF k])
qed

section \<open>Properties\<close>


text \<open>
  Note. The configuration made for bearer keys rejects the proper use of the key: the scheme is
  removed when the header is parsed, and the configured prefix \<open>Bearer \<close> is then looked for again.
\<close>

theorem bearer_config_rejects_bearer_header:
  assumes "create_bearer_api_key_config C key hk = Ok config" and "trimmed key"
    and "\<not> starts_with ''Bearer '' key"
    and "h_get H (rq_headers req) PROXY_AUTHORIZATION_HEADER = Some hv" and "h_to_str H hv = Ok (''Bearer '' @ key)"
  shows "validate_api_key C B H config req hk = Err (ProxyAuthRequired ''invalid API key'')"
proof -
  have config: "ak_header_name config = PROXY_AUTHORIZATION_HEADER" "ak_prefix config = Some ''Bearer ''"
    using assms(1) by (auto simp: create_bearer_api_key_config_def ak_with_prefix_def ApiKeyConfig_new_def)
  have "strip_prefix ''Bearer '' key = None" using assms(3) unfolding starts_with_def by blast
  then have "\<not> check_credential C (Bearer key) (ak_prefix config) kh uh hk" for kh uh
    unfolding check_credential_def extract_key_from_credential.simps config(2) strip_config_prefix_def
    by (simp only: option.case option.map not_False_eq_True)
  then show ?thesis
    using assms(4,5) parse_bearer [OF assms(2)]
    by (simp add: validate_api_key_def parse_custom_auth_header_def config(1) del: append_Cons)
qed

definition bearer_request :: "string \<Rightarrow> ((string \<times> string) list, unit) request" where
  "bearer_request v = \<lparr>rq_method = ''GET'',
     rq_uri = \<lparr>u_scheme = None, u_authority = None, u_path = ''/'', u_query = None\<rparr>,
     rq_headers = [(to_lower PROXY_AUTHORIZATION_HEADER, v)], rq_ext_tls = None, rq_ext_conn = None,
     rq_ext_scheme = None, rq_ext_patterns = None, rq_body = ()\<rparr>"

theorem bearer_config_rejects_bearer_header_witness:
  "\<exists>config. create_bearer_api_key_config plain_crypto ''k1'' [] = Ok config \<and>
     validate_api_key plain_crypto plain_base64 assoc_headers config (bearer_request ''Bearer k1'') [] =
       Err (ProxyAuthRequired ''invalid API key'')"
proof -
  obtain config where c: "create_bearer_api_key_config plain_crypto ''k1'' [] = Ok config"
    by (simp add: create_bearer_api_key_config_def hash_api_key_def compute_signature_def plain_crypto_def)
  from bearer_config_rejects_bearer_header [OF c, of assoc_headers "bearer_request ''Bearer k1''"
      "''Bearer k1''" plain_base64] c
  show ?thesis
    by (simp add: trimmed_def is_ws_def starts_with_def bearer_request_def assoc_headers_def visible_ascii_def)
qed

text \<open>
  Note. A key configured without a prefix is accepted as a bearer credential exactly when the
  presented key has the same hash.
\<close>

theorem api_key_accepts_same_hash:
  assumes "create_api_key_config C name key hk = Ok config" and "trimmed presented"
    and "h_get H (rq_headers req) name = Some hv" and "h_to_str H hv = Ok (''Bearer '' @ presented)"
  shows "validate_api_key C B H config req hk = Ok () \<longleftrightarrow>
     hash_api_key C presented hk = hash_api_key C key hk"
proof -
  from assms(1) obtain h where h: "hash_api_key C key hk = Ok h" "config = ApiKeyConfig_new name h"
    by (auto simp: create_api_key_config_def)
  show ?thesis
    using assms(3,4) parse_bearer [OF assms(2)]
    by (simp add: validate_api_key_Ok_iff h ApiKeyConfig_new_def credential_proves_def
        strip_config_prefix_def del: append_Cons)
qed

theorem api_key_accepts_same_hash_witness:
  "\<exists>config. create_api_key_config plain_crypto PROXY_AUTHORIZATION_HEADER ''k1'' [] = Ok config \<and>
     validate_api_key plain_crypto plain_base64 assoc_headers config (bearer_request ''Bearer k1'') [] = Ok ()"
proof -
  obtain config where c: "create_api_key_config plain_crypto PROXY_AUTHORIZATION_HEADER ''k1'' [] = Ok config"
    by (simp add: create_api_key_config_def hash_api_key_def compute_signature_def plain_crypto_def)
  from api_key_accepts_same_hash [OF c, of "''k1''" assoc_headers "bearer_request ''Bearer k1''"
      "''Bearer k1''" plain_base64] c
  show ?thesis
    by (simp add: trimmed_def is_ws_def bearer_request_def assoc_headers_def visible_ascii_def)
qed

text \<open>
  Note. A subject pattern is matched anywhere in the subject: over a library in which a plain
  text pattern matches every text that contains it, a pattern such as \<open>CN=\<close> accepts every subject
  that contains it, given the fingerprint.
\<close>

theorem subject_pattern_not_anchored:
  assumes "\<forall>n. \<exists>f. rx pat n = Ok f \<and> (\<forall>s. f s = sublist pat s)"
    and "mt_subject_pattern config = Some pat" and "cert_fingerprint tls = Some (mt_cert_fingerprint config)"
    and "subject_dn tls = Some (a @ pat @ b)"
  shows "validate_mtls rx config (Some tls) = Ok ()"
  using assms by (auto simp: validate_mtls_Ok_iff)

theorem subject_pattern_not_anchored_witness:
  "validate_mtls (\<lambda>p _. Ok (sublist p)) (mt_with_subject_pattern (MutualTlsConfig_new ''fp'') ''CN='')
     (Some (with_subject_dn (with_fingerprint ''fp'') ''O=x,CN=evil'')) = Ok ()"
  using subject_pattern_not_anchored [of "\<lambda>p _. Ok (sublist p)" "''CN=''"
      "mt_with_subject_pattern (MutualTlsConfig_new ''fp'') ''CN=''"
      "with_subject_dn (with_fingerprint ''fp'') ''O=x,CN=evil''" "''O=x,''" "''evil''"]
  by (simp add: mt_with_subject_pattern_def MutualTlsConfig_new_def with_subject_dn_def with_fingerprint_def)

text \<open>
  Note. The canonical form that is signed is unambiguous: two requests with clean fields and
  the same canonical form have the same method, path, query, headers up to order, and body hash.
\<close>

theorem canonical_request_unambiguous:
  assumes "cr_build a = cr_build b" and "cr_clean a" and "cr_clean b"
  shows "cr_method a = cr_method b \<and> cr_path a = cr_path b \<and> cr_query a = cr_query b \<and>
    mset (cr_headers a) = mset (cr_headers b) \<and>
    unwrap_or (cr_body_hash a) [] = unwrap_or (cr_body_hash b) []"
  using cr_build_unambiguous [OF assms] by (metis mset_sort)

theorem canonical_request_unambiguous_witness:
  "mset (cr_headers (cr_header (cr_header (CanonicalRequestBuilder_new ''GET'' ''/'') ''b'' ''1'') ''a'' ''2'')) =
   mset (cr_headers (cr_header (cr_header (CanonicalRequestBuilder_new ''GET'' ''/'') ''a'' ''2'') ''b'' ''1''))"
  using canonical_request_unambiguous
    [of "cr_header (cr_header (CanonicalRequestBuilder_new ''GET'' ''/'') ''b'' ''1'') ''a'' ''2''"
      "cr_header (cr_header (CanonicalRequestBuilder_new ''GET'' ''/'') ''a'' ''2'') ''b'' ''1''"]
  by (simp add: cr_header_def CanonicalRequestBuilder_new_def cr_build_def cr_clean_def to_lower_def
      ascii_lower_def ascii_upper_letters_def ascii_lower_letters_def)

text \<open>
  Property C40. A signer signs a message with the HMAC of its algorithm, HMAC-SHA256 or HMAC-SHA512,
  under its key, in raw bytes, hex and base64. Raw bytes verify exactly when they are that HMAC, a hex
  or base64 text exactly when it decodes to it, so each text form that is produced verifies; when
  the HMAC cannot be computed nothing is signed and nothing verifies.
\<close>

theorem signature_roundtrip:
  assumes "hex_laws C" and "base64_laws B"
    and "if a = Sha256 then mac = hmac_sha256 C k m else mac = hmac_sha512 C k m"
    and "s = RequestSigner_new k a"
  shows "(sign C s m = Ok g \<longleftrightarrow> mac = Ok g) \<and>
     (sign_hex C s m = Ok h \<longleftrightarrow> (\<exists>d. mac = Ok d \<and> h = hex_encode C d)) \<and>
     (sign_base64 C B s m = Ok b \<longleftrightarrow> (\<exists>d. mac = Ok d \<and> b = b64_encode B d)) \<and>
     (verify C s m g' \<longleftrightarrow> mac = Ok g') \<and>
     (verify_hex C s m t = Ok True \<longleftrightarrow> (\<exists>d. mac = Ok d \<and> hex_decode C t = Ok d)) \<and>
     (verify_base64 C B s m t = Ok True \<longleftrightarrow> (\<exists>d. mac = Ok d \<and> b64_decode B t = Ok d)) \<and>
     (sign_hex C s m = Ok h \<longrightarrow> verify_hex C s m h = Ok True) \<and>
     (sign_base64 C B s m = Ok b \<longrightarrow> verify_base64 C B s m b = Ok True)"
  using sign_new [OF assms(3)] verify_new [OF assms(3)] text_signatures(1) [of C s m h]
    text_signatures(2) [of C B s m b] text_verified(1) [of C s m t] text_verified(2) [of C B s m t]
    verify_hex_sign [OF assms(1)] verify_base64_sign [OF assms(2)] by (simp add: assms(4))

theorem signature_roundtrip_witness:
  "sign plain_crypto (RequestSigner_new [1] Sha512) [2] = Ok [2, 1] \<and>
   verify_hex plain_crypto (RequestSigner_new [1] Sha512) [2] (chars_of [2, 1]) = Ok True \<and>
   \<not> verify plain_crypto (RequestSigner_new [1] Sha512) [2] [1, 2] \<and>
   verify plain_crypto (RequestSigner_new [1] Sha256) [2] [1, 2]"
proof -
  have "hex_laws plain_crypto" by (simp add: hex_laws_def plain_crypto_def)
  note laws = signature_roundtrip [OF this plain_base64_laws]
  from laws [of Sha512 "Ok [2, 1]" "[1]" "[2]" _ "[2, 1]" "chars_of [2, 1]" _ "[1, 2]" "chars_of [2, 1]"]
    laws [of Sha256 "Ok [1, 2]" "[1]" "[2]" _ "[1, 2]" _ _ "[1, 2]"]
  show ?thesis by (simp add: plain_crypto_def)
qed

end
