(* ===== verification/Redaction.thy ===== *)
theory Redaction
  imports Auth_Validation
begin

text \<open>
  The debug texts of the types that carry credentials: the \<open>Debug\<close> implementations of
  \<open>TokenPayload\<close>, \<open>OAuthMetadata\<close> (\<open>common/src/token.rs\<close>), \<open>Sigv4Config\<close>, \<open>OAuthConfig\<close>
  (\<open>common/src/processor.rs\<close>), \<open>RequestSigner\<close> (\<open>crypto/src/hmac.rs\<close>) and \<open>Keypair\<close>
  (\<open>crypto/src/keypair.rs\<close>), and the derived ones of the types inside them. These texts are what
  reaches logs and panic messages.

  Shown: the text of a payload is the text of the payload with every credential blanked, also inside
  lists of processors, so it tells nothing about them; signers and key pairs likewise.
\<close>

section \<open>Formatting\<close>

text \<open>\<open>f.debug_struct(name).field(..).finish()\<close>, tuple variants, options and vectors.\<close>

definition debug_struct :: "string \<Rightarrow> (string \<times> string) list \<Rightarrow> string" where
  "debug_struct name entries =
     (if entries = [] then name
      else name @ '' { '' @ join_str '', '' (map (\<lambda>(f, v). f @ '': '' @ v) entries) @ '' }'')"

definition debug_tuple :: "string \<Rightarrow> string \<Rightarrow> string" where
  "debug_tuple name v = name @ ''('' @ v @ '')''"

fun debug_option :: "('a \<Rightarrow> string) \<Rightarrow> 'a option \<Rightarrow> string" where
  "debug_option d None = ''None''"
| "debug_option d (Some x) = debug_tuple ''Some'' (d x)"

definition debug_list :: "string list \<Rightarrow> string" where
  "debug_list texts = ''['' @ join_str '', '' texts @ '']''"

definition debug_bool :: "bool \<Rightarrow> string" where
  "debug_bool b = (if b then ''true'' else ''false'')"

definition debug_word :: "'a::len word \<Rightarrow> string" where
  "debug_word w = nat_to_string (unat w)"

definition REDACTED :: string where
  "REDACTED = str_debug ''[REDACTED]''"

section \<open>Configurations\<close>

definition debug_inject :: "InjectConfig \<Rightarrow> string" where
  "debug_inject c = debug_struct ''InjectConfig''
     [(''header_name'', str_debug (ic_header_name c)), (''prefix'', debug_option str_debug (ic_prefix c)),
      (''suffix'', debug_option str_debug (ic_suffix c))]"

fun debug_hmac_algorithm :: "HmacAlgorithm \<Rightarrow> string" where
  "debug_hmac_algorithm Sha256 = ''Sha256''"
| "debug_hmac_algorithm Sha512 = ''Sha512''"

definition debug_hmac :: "HmacConfig \<Rightarrow> string" where
  "debug_hmac c = debug_struct ''HmacConfig''
     [(''signature_header'', str_debug (hc_signature_header c)), (''algorithm'', debug_hmac_algorithm (hc_algorithm c)),
      (''signed_headers'', debug_list (map str_debug (hc_signed_headers c))),
      (''timestamp_header'', debug_option str_debug (hc_timestamp_header c)), (''sign_body'', debug_bool (hc_sign_body c))]"

fun debug_grant_type :: "OAuthGrantType \<Rightarrow> string" where
  "debug_grant_type ClientCredentials = ''ClientCredentials''"
| "debug_grant_type RefreshToken = ''RefreshToken''"

definition debug_oauth_config :: "OAuthConfig \<Rightarrow> string" where
  "debug_oauth_config c = debug_struct ''OAuthConfig''
     [(''token_url'', str_debug (oc_token_url c)), (''client_id'', str_debug (oc_client_id c)),
      (''client_secret_in_payload'', debug_bool (oc_client_secret_in_payload c)),
      (''grant_type'', debug_grant_type (oc_grant_type c)), (''scopes'', debug_list (map str_debug (oc_scopes c))),
      (''header_name'', str_debug (oc_header_name c))]"

definition debug_inject_body :: "InjectBodyConfig \<Rightarrow> string" where
  "debug_inject_body c = debug_struct ''InjectBodyConfig'' [(''placeholder'', str_debug (ib_placeholder c))]"

definition debug_sigv4 :: "Sigv4Config \<Rightarrow> string" where
  "debug_sigv4 c = debug_struct ''Sigv4Config'' [(''access_key'', REDACTED)]"

fun debug_processor :: "ProcessorConfig \<Rightarrow> string" where
  "debug_processor (PcInject c) = debug_tuple ''Inject'' (debug_inject c)"
| "debug_processor (PcInjectHmac c) = debug_tuple ''InjectHmac'' (debug_hmac c)"
| "debug_processor (PcOAuth c) = debug_tuple ''OAuth'' (debug_oauth_config c)"
| "debug_processor (PcInjectBody c) = debug_tuple ''InjectBody'' (debug_inject_body c)"
| "debug_processor (PcSigv4 c) = debug_tuple ''Sigv4'' (debug_sigv4 c)"
| "debug_processor (PcMulti ps) = debug_tuple ''Multi''
     (debug_struct ''MultiProcessorConfig'' [(''processors'', debug_list (map debug_processor ps))])"

definition debug_api_key :: "ApiKeyConfig \<Rightarrow> string" where
  "debug_api_key c = debug_struct ''ApiKeyConfig''
     [(''header_name'', str_debug (ak_header_name c)), (''prefix'', debug_option str_debug (ak_prefix c)),
      (''key_hash'', str_debug (ak_key_hash c)), (''username_hash'', debug_option str_debug (ak_username_hash c))]"

definition debug_mutual_tls :: "MutualTlsConfig \<Rightarrow> string" where
  "debug_mutual_tls c = debug_struct ''MutualTlsConfig''
     [(''cert_fingerprint'', str_debug (mt_cert_fingerprint c)),
      (''subject_pattern'', debug_option str_debug (mt_subject_pattern c))]"

fun debug_auth :: "AuthConfig \<Rightarrow> string" where
  "debug_auth AuthNone = ''None''"
| "debug_auth (ApiKey c) = debug_tuple ''ApiKey'' (debug_api_key c)"
| "debug_auth (MutualTls c) = debug_tuple ''MutualTls'' (debug_mutual_tls c)"

section \<open>Payloads, signers and key pairs\<close>

definition debug_metadata :: "TokenMetadata \<Rightarrow> string" where
  "debug_metadata m = debug_struct ''TokenMetadata''
     [(''token_id'', str_debug (tm_token_id m)), (''org_id'', debug_option str_debug (tm_org_id m)),
      (''user_id'', debug_option str_debug (tm_user_id m)), (''name'', debug_option str_debug (tm_name m)),
      (''tags'', debug_list (map str_debug (tm_tags m)))]"

definition debug_replay :: "ReplayProtection \<Rightarrow> string" where
  "debug_replay r = debug_struct ''ReplayProtection''
     [(''nonce'', str_debug (rp_nonce r)), (''max_uses'', debug_option debug_word (rp_max_uses r)),
      (''nonce_ttl_seconds'', debug_option debug_word (rp_nonce_ttl_seconds r))]"

definition debug_oauth_metadata :: "OAuthMetadata \<Rightarrow> string" where
  "debug_oauth_metadata m = debug_struct ''OAuthMetadata''
     [(''provider_id'', str_debug (om_provider_id m)),
      (''refresh_token'', debug_option (\<lambda>_. REDACTED) (om_refresh_token m)),
      (''token_type'', str_debug (om_token_type m)), (''scopes'', debug_list (map str_debug (om_scopes m))),
      (''access_token_expires_at'', debug_option debug_word (om_access_token_expires_at m))]"

fun debug_scheme :: "UpstreamScheme \<Rightarrow> string" where
  "debug_scheme Http = ''Http''"
| "debug_scheme Https = ''Https''"

definition debug_payload :: "TokenPayload \<Rightarrow> string" where
  "debug_payload p = debug_struct ''TokenPayload''
     [(''secret'', REDACTED), (''processor'', debug_processor (tp_processor p)), (''auth'', debug_auth (tp_auth p)),
      (''allowed_hosts'', debug_list (map str_debug (tp_allowed_hosts p))),
      (''allowed_host_pattern'', debug_option str_debug (tp_allowed_host_pattern p)),
      (''upstream_scheme'', debug_option debug_scheme (tp_upstream_scheme p)),
      (''allowed_methods'', debug_list (map str_debug (tp_allowed_methods p))),
      (''allowed_paths'', debug_list (map str_debug (tp_allowed_paths p))),
      (''allowed_path_pattern'', debug_option str_debug (tp_allowed_path_pattern p)),
      (''expires_at'', debug_option debug_word (tp_expires_at p)),
      (''metadata'', debug_option debug_metadata (tp_metadata p)),
      (''oauth'', debug_option debug_oauth_metadata (tp_oauth p)),
      (''replay_protection'', debug_option debug_replay (tp_replay_protection p))]"

definition debug_signer :: "RequestSigner \<Rightarrow> string" where
  "debug_signer s = debug_struct ''RequestSigner''
     [(''key'', REDACTED), (''algorithm'', debug_hmac_algorithm (sg_algorithm s))]"

definition debug_keypair :: "crypto_lib \<Rightarrow> Keypair \<Rightarrow> string" where
  "debug_keypair C k = debug_struct ''Keypair''
     [(''public_key'', str_debug (hex_encode C (kp_public_key k))), (''secret_key'', REDACTED)]"

section \<open>Blanking\<close>

text \<open>The credentials of a payload: its secret, access keys in its processors, its refresh token.\<close>

fun blank_processor :: "ProcessorConfig \<Rightarrow> ProcessorConfig" where
  "blank_processor (PcSigv4 c) = PcSigv4 (c\<lparr>sc_access_key := []\<rparr>)"
| "blank_processor (PcMulti ps) = PcMulti (map blank_processor ps)"
| "blank_processor c = c"

definition blank_oauth :: "OAuthMetadata \<Rightarrow> OAuthMetadata" where
  "blank_oauth m = m\<lparr>om_refresh_token := map_option (\<lambda>_. []) (om_refresh_token m)\<rparr>"

definition blank :: "TokenPayload \<Rightarrow> TokenPayload" where
  "blank p = p\<lparr>tp_secret := [], tp_processor := blank_processor (tp_processor p),
                tp_oauth := map_option blank_oauth (tp_oauth p)\<rparr>"

lemma debug_processor_blank: "debug_processor (blank_processor c) = debug_processor c"
proof (induction c)
  case (PcMulti ps)
  then show ?case by (simp add: comp_def cong: map_cong)
qed (simp_all add: debug_sigv4_def)

lemma debug_option_map: "debug_option d (map_option f m) = debug_option (d \<circ> f) m"
  by (cases m) simp_all

lemma debug_oauth_blank: "debug_oauth_metadata (blank_oauth m) = debug_oauth_metadata m"
  by (simp add: debug_oauth_metadata_def blank_oauth_def debug_option_map comp_def)

text \<open>The type, the scheme and the number of processors stay visible, so blanking keeps the kind of processor.\<close>

lemma processor_type_blank: "processor_type (blank_processor c) = processor_type c"
  by (cases c) simp_all

lemma is_body_processor_blank: "config_is_body_processor (blank_processor c) = config_is_body_processor c"
proof (induction c)
  case (PcMulti ps)
  then show ?case by (auto simp: list_ex_iff)
qed simp_all

section \<open>Properties\<close>

text \<open>
  Property C19. Debug output tells nothing about credentials: payloads that agree once their secret, the
  access keys of their processors, however nested, and their refresh token are blanked have the same
  text; a signer's text tells nothing of its key and a key pair's nothing of its secret key.
\<close>

theorem debug_hides_credentials:
  "(blank p = blank q \<longrightarrow> debug_payload p = debug_payload q) \<and>
   (sg_algorithm s = sg_algorithm t \<longrightarrow> debug_signer s = debug_signer t) \<and>
   (kp_public_key k = kp_public_key l \<longrightarrow> debug_keypair C k = debug_keypair C l)"
proof -
  have "debug_payload (blank p) = debug_payload p" for p
    by (simp add: debug_payload_def blank_def debug_processor_blank debug_option_map comp_def debug_oauth_blank)
  then have "blank p = blank q \<longrightarrow> debug_payload p = debug_payload q" by metis
  then show ?thesis by (simp add: debug_signer_def debug_keypair_def)
qed

theorem debug_hides_credentials_witness:
  "debug_payload (b_oauth (payload_builder ''s3cret'' (PcMulti [PcSigv4 (Sigv4Config_new ''AKIA'')]))
       (om_with_refresh_token (OAuthMetadata_new ''google'') ''r1'')) =
   debug_payload (b_oauth (payload_builder ''other'' (PcMulti [PcSigv4 (Sigv4Config_new ''BKIB'')]))
       (om_with_refresh_token (OAuthMetadata_new ''google'') ''r2''))"
  by (rule debug_hides_credentials [THEN conjunct1, rule_format])
    (simp add: blank_def blank_oauth_def b_oauth_def payload_builder_def Sigv4Config_new_def om_with_refresh_token_def
      OAuthMetadata_new_def)

end
