(* ===== verification/Ip_Filter.thy ===== *)
theory Ip_Filter
  imports Http
begin

text \<open>
  Protection against requests to internal addresses, \<open>crates/icebreaker-proxy/src/network/ip_filter.rs\<close>
  and \<open>validating_connector.rs\<close>. Addresses are their octets. The network type of the \<open>ipnet\<close> crate is a
  parameter: how a network is parsed from text, and which addresses it contains; the law for the
  hard-coded IPv4 networks is that containment is agreement of the leading bits. Proved: under the
  default configuration the filter lets an address through exactly when it lies outside the
  documented ranges and \<open>100::/16\<close>, also when the address embeds an IPv4 address, and the connector
  only ever connects to addresses that passed the filter.
\<close>

section \<open>Addresses\<close>

type_synonym Ipv4Addr = "byte \<times> byte \<times> byte \<times> byte"
type_synonym Ipv6Addr = "byte list"

datatype IpAddr = V4 Ipv4Addr | V6 Ipv6Addr

text \<open>The standard library's predicates on addresses.\<close>

fun v4_is_loopback :: "Ipv4Addr \<Rightarrow> bool" where
  "v4_is_loopback (a, b, c, d) \<longleftrightarrow> a = 127"

fun v4_is_multicast :: "Ipv4Addr \<Rightarrow> bool" where
  "v4_is_multicast (a, b, c, d) \<longleftrightarrow> 224 \<le> a \<and> a \<le> 239"

definition v6_is_loopback :: "Ipv6Addr \<Rightarrow> bool" where
  "v6_is_loopback o6 \<longleftrightarrow> o6 = replicate 15 0 @ [1]"

definition v6_is_unspecified :: "Ipv6Addr \<Rightarrow> bool" where
  "v6_is_unspecified o6 \<longleftrightarrow> o6 = replicate 16 0"

definition v6_is_multicast :: "Ipv6Addr \<Rightarrow> bool" where
  "v6_is_multicast o6 \<longleftrightarrow> o6 ! 0 = 0xff"

definition last_four :: "Ipv6Addr \<Rightarrow> Ipv4Addr" where
  "last_four o6 = (o6 ! 12, o6 ! 13, o6 ! 14, o6 ! 15)"

definition to_ipv4_mapped :: "Ipv6Addr \<Rightarrow> Ipv4Addr option" where
  "to_ipv4_mapped o6 =
     (if take 12 o6 = replicate 10 0 @ [0xff, 0xff] then Some (last_four o6) else None)"

text \<open>\<open>Display\<close> of addresses: dotted decimal; hexadecimal segments with the first longest run of at
  least two zero segments abbreviated.\<close>

fun v4_to_string :: "Ipv4Addr \<Rightarrow> string" where
  "v4_to_string (a, b, c, d) =
     nat_to_string (unat a) @ ''.'' @ nat_to_string (unat b) @ ''.'' @ nat_to_string (unat c) @ ''.''
     @ nat_to_string (unat d)"

fun hex_string :: "nat \<Rightarrow> string" where
  "hex_string n = (if n < 16 then [''0123456789abcdef'' ! n]
                   else hex_string (n div 16) @ [''0123456789abcdef'' ! (n mod 16)])"

definition v6_segments :: "Ipv6Addr \<Rightarrow> nat list" where
  "v6_segments o6 = map (\<lambda>i. unat (o6 ! (2 * i)) * 256 + unat (o6 ! (2 * i + 1))) [0 ..< 8]"

fun longest_zeros :: "nat \<Rightarrow> nat \<times> nat \<Rightarrow> nat \<times> nat \<Rightarrow> nat list \<Rightarrow> nat \<times> nat" where
  "longest_zeros i cur best [] = best"
| "longest_zeros i cur best (s # ss) =
     (if s = 0 then
        (let cur' = (if snd cur = 0 then (i, 1) else (fst cur, snd cur + 1));
             best' = (if snd cur' > snd best then cur' else best)
         in longest_zeros (i + 1) cur' best' ss)
      else longest_zeros (i + 1) (0, 0) best ss)"

fun join_segments :: "nat list \<Rightarrow> string" where
  "join_segments [] = []"
| "join_segments [s] = hex_string s"
| "join_segments (s # t # ss) = hex_string s @ '':'' @ join_segments (t # ss)"

definition v6_to_string :: "Ipv6Addr \<Rightarrow> string" where
  "v6_to_string o6 =
     (case to_ipv4_mapped o6 of
        Some v4 \<Rightarrow> ''::ffff:'' @ v4_to_string v4
      | None \<Rightarrow>
          (let segs = v6_segments o6; (start, len) = longest_zeros 0 (0, 0) (0, 0) segs in
           if len > 1
           then join_segments (take start segs) @ ''::'' @ join_segments (drop (start + len) segs)
           else join_segments segs))"

fun ip_to_string :: "IpAddr \<Rightarrow> string" where
  "ip_to_string (V4 v4) = v4_to_string v4"
| "ip_to_string (V6 v6) = v6_to_string v6"

section \<open>Networks\<close>

text \<open>An IPv4 network is given by its address and prefix length, as \<open>Ipv4Net::new\<close> takes them.\<close>

type_synonym Ipv4Net = "Ipv4Addr \<times> nat"

record 'n ipnet_lib =
  v4net_contains :: "Ipv4Net \<Rightarrow> Ipv4Addr \<Rightarrow> bool"
  net_parse :: "string \<Rightarrow> (string, 'n) result"
  net_contains :: "'n \<Rightarrow> IpAddr \<Rightarrow> bool"

text \<open>The address as a number, and the law of containment.\<close>

fun v4_nat :: "Ipv4Addr \<Rightarrow> nat" where
  "v4_nat (a, b, c, d) = ((unat a * 256 + unat b) * 256 + unat c) * 256 + unat d"

definition ipnet_laws :: "'n ipnet_lib \<Rightarrow> bool" where
  "ipnet_laws N \<longleftrightarrow> (\<forall>a p ip. p \<le> 32 \<longrightarrow>
     (v4net_contains N (a, p) ip \<longleftrightarrow> v4_nat a div 2 ^ (32 - p) = v4_nat ip div 2 ^ (32 - p)))"

definition private_10 :: Ipv4Net where "private_10 = ((10, 0, 0, 0), 8)"
definition private_172 :: Ipv4Net where "private_172 = ((172, 16, 0, 0), 12)"
definition private_192 :: Ipv4Net where "private_192 = ((192, 168, 0, 0), 16)"
definition link_local :: Ipv4Net where "link_local = ((169, 254, 0, 0), 16)"
definition cgn :: Ipv4Net where "cgn = ((100, 64, 0, 0), 10)"
definition ietf :: Ipv4Net where "ietf = ((192, 0, 0, 0), 24)"
definition test_net_1 :: Ipv4Net where "test_net_1 = ((192, 0, 2, 0), 24)"
definition test_net_2 :: Ipv4Net where "test_net_2 = ((198, 51, 100, 0), 24)"
definition test_net_3 :: Ipv4Net where "test_net_3 = ((203, 0, 113, 0), 24)"

section \<open>The filter\<close>

datatype FilterReason = FrPrivateNetwork | FrLoopback | FrLinkLocal | FrBlockedCidr | FrReserved

fun reason_to_string :: "FilterReason \<Rightarrow> string" where
  "reason_to_string FrPrivateNetwork = ''private network''"
| "reason_to_string FrLoopback = ''loopback address''"
| "reason_to_string FrLinkLocal = ''link-local address''"
| "reason_to_string FrBlockedCidr = ''blocked CIDR''"
| "reason_to_string FrReserved = ''reserved address''"

record 'n IpFilter =
  block_private :: bool
  block_loopback :: bool
  block_link_local :: bool
  blocked_cidrs :: "'n list"
  allowed_cidrs :: "'n list"
  blocked_hostnames :: "string list"

definition IpFilter_new :: "'n ipnet_lib \<Rightarrow> NetworkProtectionConfig \<Rightarrow> 'n IpFilter tresult" where
  "IpFilter_new N config =
     bindR (map_err (\<lambda>e. ConfigError (''invalid blocked CIDR: '' @ e))
              (collectR (net_parse N) (npc_blocked_cidrs config))) (\<lambda>blocked.
     bindR (map_err (\<lambda>e. ConfigError (''invalid allowed CIDR: '' @ e))
              (collectR (net_parse N) (npc_allowed_cidrs config))) (\<lambda>allowed.
       Ok \<lparr>block_private = npc_block_private config, block_loopback = npc_block_loopback config,
           block_link_local = npc_block_link_local config, blocked_cidrs = blocked,
           allowed_cidrs = allowed, blocked_hostnames = npc_blocked_hostnames config\<rparr>))"

definition IpFilter_permissive :: "'n IpFilter" where
  "IpFilter_permissive =
     \<lparr>block_private = False, block_loopback = False, block_link_local = False, blocked_cidrs = [],
      allowed_cidrs = [], blocked_hostnames = []\<rparr>"

definition extract_nat64_ipv4 :: "Ipv6Addr \<Rightarrow> Ipv4Addr option" where
  "extract_nat64_ipv4 octets =
     (if octets ! 0 = 0x00 \<and> octets ! 1 = 0x64 \<and> octets ! 2 = 0xff \<and> octets ! 3 = 0x9b \<and>
         list_all (\<lambda>b. b = 0) (take 8 (drop 4 octets))
      then Some (last_four octets) else None)"

fun is_loopback :: "IpAddr \<Rightarrow> bool" where
  "is_loopback (V4 v4) = v4_is_loopback v4"
| "is_loopback (V6 v6) = v6_is_loopback v6"

definition is_private_v4 :: "'n ipnet_lib \<Rightarrow> Ipv4Addr \<Rightarrow> bool" where
  "is_private_v4 N ip \<longleftrightarrow> v4net_contains N private_10 ip \<or> v4net_contains N private_172 ip \<or>
     v4net_contains N private_192 ip"

unbundle bit_operations_syntax

definition is_private_v6 :: "Ipv6Addr \<Rightarrow> bool" where
  "is_private_v6 octets \<longleftrightarrow> (octets ! 0 AND 0xfe) = 0xfc"

fun is_private :: "'n ipnet_lib \<Rightarrow> IpAddr \<Rightarrow> bool" where
  "is_private N (V4 v4) = is_private_v4 N v4"
| "is_private N (V6 v6) = is_private_v6 v6"

definition is_link_local_v4 :: "'n ipnet_lib \<Rightarrow> Ipv4Addr \<Rightarrow> bool" where
  "is_link_local_v4 N ip = v4net_contains N link_local ip"

definition is_link_local_v6 :: "Ipv6Addr \<Rightarrow> bool" where
  "is_link_local_v6 octets \<longleftrightarrow> octets ! 0 = 0xfe \<and> (octets ! 1 AND 0xc0) = 0x80"

fun is_link_local :: "'n ipnet_lib \<Rightarrow> IpAddr \<Rightarrow> bool" where
  "is_link_local N (V4 v4) = is_link_local_v4 N v4"
| "is_link_local N (V6 v6) = is_link_local_v6 v6"

definition is_reserved_v4 :: "'n ipnet_lib \<Rightarrow> Ipv4Addr \<Rightarrow> bool" where
  "is_reserved_v4 N ip \<longleftrightarrow>
     fst ip = 0 \<or> v4_is_multicast ip \<or> fst ip \<ge> 240 \<or>
     v4net_contains N cgn ip \<or> v4net_contains N ietf ip \<or> v4net_contains N test_net_1 ip \<or>
     v4net_contains N test_net_2 ip \<or> v4net_contains N test_net_3 ip"

definition is_reserved_v6 :: "Ipv6Addr \<Rightarrow> bool" where
  "is_reserved_v6 octets \<longleftrightarrow>
     v6_is_unspecified octets \<or> v6_is_multicast octets \<or>
     (octets ! 0 = 0x20 \<and> octets ! 1 = 0x01 \<and> octets ! 2 = 0x0d \<and> octets ! 3 = 0xb8) \<or>
     (octets ! 0 = 0x01 \<and> octets ! 1 = 0x00)"

fun is_reserved :: "'n ipnet_lib \<Rightarrow> IpAddr \<Rightarrow> bool" where
  "is_reserved N (V4 v4) = is_reserved_v4 N v4"
| "is_reserved N (V6 v6) = is_reserved_v6 v6"

definition is_in_blocked_cidrs :: "'n ipnet_lib \<Rightarrow> 'n IpFilter \<Rightarrow> IpAddr \<Rightarrow> bool" where
  "is_in_blocked_cidrs N self ip = list_ex (\<lambda>cidr. net_contains N cidr ip) (blocked_cidrs self)"

definition is_in_allowed_cidrs :: "'n ipnet_lib \<Rightarrow> 'n IpFilter \<Rightarrow> IpAddr \<Rightarrow> bool" where
  "is_in_allowed_cidrs N self ip = list_ex (\<lambda>cidr. net_contains N cidr ip) (allowed_cidrs self)"

text \<open>The rules after the unwrapping of embedded addresses.\<close>

definition check_rules :: "'n ipnet_lib \<Rightarrow> 'n IpFilter \<Rightarrow> IpAddr \<Rightarrow> FilterReason option" where
  "check_rules N self ip =
     (if is_in_allowed_cidrs N self ip then None
      else if block_loopback self \<and> is_loopback ip then Some FrLoopback
      else if block_private self \<and> is_private N ip then Some FrPrivateNetwork
      else if block_link_local self \<and> is_link_local N ip then Some FrLinkLocal
      else if is_in_blocked_cidrs N self ip then Some FrBlockedCidr
      else if is_reserved N ip then Some FrReserved
      else None)"

text \<open>\<open>check_ip\<close>: the recursive calls are on IPv4 addresses, for which only the rules remain.\<close>

function check_ip :: "'n ipnet_lib \<Rightarrow> 'n IpFilter \<Rightarrow> IpAddr \<Rightarrow> FilterReason option" where
  "check_ip N self (V4 v4) = check_rules N self (V4 v4)"
| "check_ip N self (V6 v6) =
     (case to_ipv4_mapped v6 of
        Some mapped_v4 \<Rightarrow> check_ip N self (V4 mapped_v4)
      | None \<Rightarrow>
          (case extract_nat64_ipv4 v6 of
             Some embedded_v4 \<Rightarrow> check_ip N self (V4 embedded_v4)
           | None \<Rightarrow> check_rules N self (V6 v6)))"
  by pat_completeness auto

termination check_ip
  by (relation "measure (\<lambda>(N, self, ip). case ip of V4 _ \<Rightarrow> 0 | V6 _ \<Rightarrow> 1)") auto

definition is_allowed :: "'n ipnet_lib \<Rightarrow> 'n IpFilter \<Rightarrow> IpAddr \<Rightarrow> bool" where
  "is_allowed N self ip \<longleftrightarrow> check_ip N self ip = None"

definition validate_ip :: "'n ipnet_lib \<Rightarrow> 'n IpFilter \<Rightarrow> IpAddr \<Rightarrow> unit tresult" where
  "validate_ip N self ip =
     (case check_ip N self ip of
        Some reason \<Rightarrow> Err (BlockedAddress (ip_to_string ip) (reason_to_string reason))
      | None \<Rightarrow> Ok ())"

definition is_hostname_blocked :: "'n IpFilter \<Rightarrow> string \<Rightarrow> bool" where
  "is_hostname_blocked self hostname =
     (let hostname_lower = to_lower hostname in
      list_ex (\<lambda>h. hostname_lower = to_lower h) (blocked_hostnames self))"

definition validate_hostname :: "'n IpFilter \<Rightarrow> string \<Rightarrow> unit tresult" where
  "validate_hostname self hostname =
     (if is_hostname_blocked self hostname then Err (HostNotAllowed hostname) else Ok ())"

section \<open>The validating connector\<close>

text \<open>
  DNS resolution is a parameter, from \<open>host:port\<close> to socket addresses or an error. The result is the
  address the connector opens a connection to; an \<open>io::Error\<close> is its kind and text.
\<close>

datatype io_kind = InvalidInput | PermissionDenied | NotFound | OtherKind

type_synonym SocketAddr = "IpAddr \<times> u16"
type_synonym resolver = "string \<Rightarrow> (string, SocketAddr list) result"

fun validate_all :: "'n ipnet_lib \<Rightarrow> 'n IpFilter \<Rightarrow> SocketAddr list \<Rightarrow> unit tresult" where
  "validate_all N self [] = Ok ()"
| "validate_all N self (addr # addrs) = bindR (validate_ip N self (fst addr)) (\<lambda>_. validate_all N self addrs)"

definition connector_port :: "uri \<Rightarrow> authority \<Rightarrow> u16" where
  "connector_port uri authority =
     (case au_port authority of Some p \<Rightarrow> p
      | None \<Rightarrow> if u_scheme uri = Some ''https'' then 443 else 80)"

definition connector_call :: "'n ipnet_lib \<Rightarrow> resolver \<Rightarrow> 'n IpFilter \<Rightarrow> uri \<Rightarrow>
    (io_kind \<times> string, SocketAddr) result" where
  "connector_call N resolve ip_filter uri =
     (case u_authority uri of
        None \<Rightarrow> Err (InvalidInput, ''URI missing host'')
      | Some authority \<Rightarrow>
          (let host = au_host authority; port = connector_port uri authority
           in bindR (map_err (\<lambda>e. (PermissionDenied, to_string e)) (validate_hostname ip_filter host)) (\<lambda>_.
              bindR (map_err (\<lambda>e. (OtherKind, ''DNS failed: '' @ e))
                       (resolve (host @ '':'' @ nat_to_string (unat port)))) (\<lambda>addrs.
              if addrs = [] then Err (NotFound, ''no addresses found for '' @ host)
              else bindR (map_err (\<lambda>e. (PermissionDenied, to_string e)) (validate_all N ip_filter addrs))
                     (\<lambda>_. Ok (addrs ! 0))))))"

section \<open>The documented ranges\<close>

text \<open>IPv4 ranges by their first and last address.\<close>

definition v4_forbidden_ranges :: "(Ipv4Addr \<times> Ipv4Addr) list" where
  "v4_forbidden_ranges =
     [((0, 0, 0, 0), (0, 255, 255, 255)), ((10, 0, 0, 0), (10, 255, 255, 255)),
      ((100, 64, 0, 0), (100, 127, 255, 255)), ((127, 0, 0, 0), (127, 255, 255, 255)),
      ((169, 254, 0, 0), (169, 254, 255, 255)), ((172, 16, 0, 0), (172, 31, 255, 255)),
      ((192, 0, 0, 0), (192, 0, 0, 255)), ((192, 0, 2, 0), (192, 0, 2, 255)),
      ((192, 168, 0, 0), (192, 168, 255, 255)), ((198, 51, 100, 0), (198, 51, 100, 255)),
      ((203, 0, 113, 0), (203, 0, 113, 255)), ((224, 0, 0, 0), (255, 255, 255, 255))]"

definition v4_forbidden :: "Ipv4Addr \<Rightarrow> bool" where
  "v4_forbidden ip \<longleftrightarrow> list_ex (\<lambda>(lo, hi). v4_nat lo \<le> v4_nat ip \<and> v4_nat ip \<le> v4_nat hi) v4_forbidden_ranges"

text \<open>IPv6: \<open>::\<close>, \<open>::1\<close>, \<open>fc00::/7\<close>, \<open>fe80::/10\<close>, \<open>ff00::/8\<close>, \<open>2001:db8::/32\<close>, \<open>100::/64\<close>.\<close>

definition v6_forbidden :: "Ipv6Addr \<Rightarrow> bool" where
  "v6_forbidden o6 \<longleftrightarrow>
     (let s = v6_segments o6 in
      s = [0, 0, 0, 0, 0, 0, 0, 0] \<or> s = [0, 0, 0, 0, 0, 0, 0, 1] \<or>
      (0xfc00 \<le> s ! 0 \<and> s ! 0 \<le> 0xfdff) \<or> (0xfe80 \<le> s ! 0 \<and> s ! 0 \<le> 0xfebf) \<or>
      0xff00 \<le> s ! 0 \<or> (s ! 0 = 0x2001 \<and> s ! 1 = 0xdb8) \<or>
      (s ! 0 = 0x100 \<and> s ! 1 = 0 \<and> s ! 2 = 0 \<and> s ! 3 = 0))"

text \<open>
  The block around the discard prefix: the comment at the test names \<open>100::/64\<close>, the test looks at the
  first two octets only and takes all of \<open>100::/16\<close>.
\<close>

fun around_discard :: "IpAddr \<Rightarrow> bool" where
  "around_discard (V4 _) = False"
| "around_discard (V6 o6) = (v6_segments o6 ! 0 = 0x100)"

text \<open>An address that embeds an IPv4 address is judged by it.\<close>

definition ip_forbidden :: "IpAddr \<Rightarrow> bool" where
  "ip_forbidden ip =
     (case ip of
        V4 v4 \<Rightarrow> v4_forbidden v4
      | V6 v6 \<Rightarrow>
          (case to_ipv4_mapped v6 of
             Some v4 \<Rightarrow> v4_forbidden v4
           | None \<Rightarrow> (case extract_nat64_ipv4 v6 of Some v4 \<Rightarrow> v4_forbidden v4 | None \<Rightarrow> v6_forbidden v6)))"

section \<open>Octets and ranges\<close>

lemma byte_lt: "unat (b :: byte) < 256"
  using unsigned_less [of b] by simp

lemma horner_div: "z < 256 \<Longrightarrow> (n * 256 + z) div (256 * k) = n div (k :: nat)"
  by (simp add: div_mult2_eq)

lemma v4_nat_div:
  "v4_nat (w, x, y, z) div 2 ^ 24 = unat w"
  "v4_nat (w, x, y, z) div 2 ^ 16 = unat w * 256 + unat x"
  "v4_nat (w, x, y, z) div 2 ^ 8 = (unat w * 256 + unat x) * 256 + unat y"
  "v4_nat (w, x, y, z) div 2 ^ 20 = (unat w * 256 + unat x) div 16"
  "v4_nat (w, x, y, z) div 2 ^ 22 = (unat w * 256 + unat x) div 64"
proof -
  have 1: "v4_nat (w, x, y, z) div (256 * k) = ((unat w * 256 + unat x) * 256 + unat y) div k" for k
    unfolding v4_nat.simps by (rule horner_div [OF byte_lt])
  have 2: "v4_nat (w, x, y, z) div (256 * (256 * k)) = (unat w * 256 + unat x) div k" for k
    unfolding 1 by (rule horner_div [OF byte_lt])
  have 3: "v4_nat (w, x, y, z) div (256 * (256 * (256 * k))) = unat w div k" for k
    unfolding 2 by (rule horner_div [OF byte_lt])
  show "v4_nat (w, x, y, z) div 2 ^ 24 = unat w" using 3 [of 1] by simp
  show "v4_nat (w, x, y, z) div 2 ^ 16 = unat w * 256 + unat x" using 2 [of 1] by simp
  show "v4_nat (w, x, y, z) div 2 ^ 8 = (unat w * 256 + unat x) * 256 + unat y" using 1 [of 1] by simp
  show "v4_nat (w, x, y, z) div 2 ^ 20 = (unat w * 256 + unat x) div 16" using 2 [of 16] by simp
  show "v4_nat (w, x, y, z) div 2 ^ 22 = (unat w * 256 + unat x) div 64" using 2 [of 64] by simp
qed

lemma horner_eq: "b < m \<Longrightarrow> x < m \<Longrightarrow> a * m + b = w * m + x \<longleftrightarrow> a = w \<and> b = (x :: nat)"
proof -
  assume b: "b < m" and x: "x < m"
  then have "(a * m + b) div m = a" "(w * m + x) div m = w" by simp_all
  then show ?thesis by auto
qed

lemma horner_div_eq:
  assumes "b < 256" and "x < (256 :: nat)"
  shows "(a * 256 + b) div 16 = (w * 256 + x) div 16 \<longleftrightarrow> a = w \<and> b div 16 = x div 16"
    and "(a * 256 + b) div 64 = (w * 256 + x) div 64 \<longleftrightarrow> a = w \<and> b div 64 = x div 64"
proof -
  have "(n * 256 + k) div 16 = n * 16 + k div 16" "(n * 256 + k) div 64 = n * 4 + k div 64" for n k :: nat
    by presburger+
  moreover have "b div 16 < 16" "x div 16 < 16" "b div 64 < 4" "x div 64 < 4" using assms by simp_all
  ultimately show "(a * 256 + b) div 16 = (w * 256 + x) div 16 \<longleftrightarrow> a = w \<and> b div 16 = x div 16"
    and "(a * 256 + b) div 64 = (w * 256 + x) div 64 \<longleftrightarrow> a = w \<and> b div 64 = x div 64"
    using horner_eq [of "b div 16" 16 "x div 16" a w] horner_eq [of "b div 64" 4 "x div 64" a w]
    by simp_all
qed

lemma net_contains_prefix:
  assumes "ipnet_laws N"
  shows "v4net_contains N ((a, b, c, d), 8) (w, x, y, z) \<longleftrightarrow> unat a = unat w"
    and "v4net_contains N ((a, b, c, d), 16) (w, x, y, z) \<longleftrightarrow> unat a = unat w \<and> unat b = unat x"
    and "v4net_contains N ((a, b, c, d), 24) (w, x, y, z) \<longleftrightarrow>
           unat a = unat w \<and> unat b = unat x \<and> unat c = unat y"
    and "v4net_contains N ((a, b, c, d), 12) (w, x, y, z) \<longleftrightarrow>
           unat a = unat w \<and> unat b div 16 = unat x div 16"
    and "v4net_contains N ((a, b, c, d), 10) (w, x, y, z) \<longleftrightarrow>
           unat a = unat w \<and> unat b div 64 = unat x div 64"
proof -
  have law: "n \<le> 32 \<Longrightarrow> v4net_contains N (p, n) ip \<longleftrightarrow> v4_nat p div 2 ^ (32 - n) = v4_nat ip div 2 ^ (32 - n)"
    for p n ip using assms unfolding ipnet_laws_def by blast
  show "v4net_contains N ((a, b, c, d), 8) (w, x, y, z) \<longleftrightarrow> unat a = unat w"
    using law [of 8 "(a, b, c, d)" "(w, x, y, z)"] v4_nat_div(1) by (simp del: v4_nat.simps)
  show "v4net_contains N ((a, b, c, d), 16) (w, x, y, z) \<longleftrightarrow> unat a = unat w \<and> unat b = unat x"
    using law [of 16 "(a, b, c, d)" "(w, x, y, z)"] v4_nat_div(2)
      horner_eq [OF byte_lt byte_lt, of _ b _ x] by (simp del: v4_nat.simps)
  show "v4net_contains N ((a, b, c, d), 24) (w, x, y, z) \<longleftrightarrow>
      unat a = unat w \<and> unat b = unat x \<and> unat c = unat y"
    using law [of 24 "(a, b, c, d)" "(w, x, y, z)"] v4_nat_div(3) [of a b c d]
      v4_nat_div(3) [of w x y z] horner_eq [OF byte_lt byte_lt, of "unat a * 256 + unat b" c "unat w * 256 + unat x" y]
      horner_eq [OF byte_lt byte_lt, of "unat a" b "unat w" x]
    by (simp only: order.refl numeral_le_iff semiring_norm diff_nat_numeral) simp
  show "v4net_contains N ((a, b, c, d), 12) (w, x, y, z) \<longleftrightarrow>
      unat a = unat w \<and> unat b div 16 = unat x div 16"
    using law [of 12 "(a, b, c, d)" "(w, x, y, z)"] v4_nat_div(4)
    by (simp del: v4_nat.simps add: horner_div_eq byte_lt)
  show "v4net_contains N ((a, b, c, d), 10) (w, x, y, z) \<longleftrightarrow>
      unat a = unat w \<and> unat b div 64 = unat x div 64"
    using law [of 10 "(a, b, c, d)" "(w, x, y, z)"] v4_nat_div(5)
    by (simp del: v4_nat.simps add: horner_div_eq byte_lt)
qed

lemma range_div: "0 < m \<Longrightarrow> k * m \<le> n \<and> n \<le> k * m + (m - 1) \<longleftrightarrow> n div m = (k :: nat)"
proof
  assume m: "0 < m" and r: "k * m \<le> n \<and> n \<le> k * m + (m - 1)"
  then have "k * m \<le> n" "n < k * m + m" by linarith+
  then have "m * k \<le> n" "n < m * Suc k" by (simp_all add: mult.commute)
  then show "n div m = k" by (rule div_nat_eqI)
next
  assume m: "0 < m" and d: "n div m = k"
  have "k * m \<le> n" unfolding d [symmetric] by (rule div_times_less_eq_dividend)
  moreover have "n < k * m + m" unfolding d [symmetric] using dividend_less_div_times [OF m, of n] by simp
  ultimately show "k * m \<le> n \<and> n \<le> k * m + (m - 1)" using m by simp
qed

text \<open>Each documented range as a condition on octets.\<close>

definition v4_octets_forbidden :: "nat \<Rightarrow> nat \<Rightarrow> nat \<Rightarrow> bool" where
  "v4_octets_forbidden w x y \<longleftrightarrow>
     w = 0 \<or> w = 10 \<or> (w = 100 \<and> x div 64 = 1) \<or> w = 127 \<or> (w = 169 \<and> x = 254) \<or>
     (w = 172 \<and> x div 16 = 1) \<or> (w = 192 \<and> x = 0 \<and> y = 0) \<or> (w = 192 \<and> x = 0 \<and> y = 2) \<or>
     (w = 192 \<and> x = 168) \<or> (w = 198 \<and> x = 51 \<and> y = 100) \<or> (w = 203 \<and> x = 0 \<and> y = 113) \<or> 224 \<le> w"

lemma v4_range_octets:
  "k * 16777216 \<le> v4_nat (w, x, y, z) \<and> v4_nat (w, x, y, z) \<le> k * 16777216 + 16777215 \<longleftrightarrow> unat w = k"
  "k * 65536 \<le> v4_nat (w, x, y, z) \<and> v4_nat (w, x, y, z) \<le> k * 65536 + 65535 \<longleftrightarrow> unat w * 256 + unat x = k"
  "k * 256 \<le> v4_nat (w, x, y, z) \<and> v4_nat (w, x, y, z) \<le> k * 256 + 255 \<longleftrightarrow>
     (unat w * 256 + unat x) * 256 + unat y = k"
  "k * 1048576 \<le> v4_nat (w, x, y, z) \<and> v4_nat (w, x, y, z) \<le> k * 1048576 + 1048575 \<longleftrightarrow>
     (unat w * 256 + unat x) div 16 = k"
  "k * 4194304 \<le> v4_nat (w, x, y, z) \<and> v4_nat (w, x, y, z) \<le> k * 4194304 + 4194303 \<longleftrightarrow>
     (unat w * 256 + unat x) div 64 = k"
  using range_div [of 16777216 k "v4_nat (w, x, y, z)"] range_div [of 65536 k "v4_nat (w, x, y, z)"]
    range_div [of 256 k "v4_nat (w, x, y, z)"] range_div [of 1048576 k "v4_nat (w, x, y, z)"]
    range_div [of 4194304 k "v4_nat (w, x, y, z)"] v4_nat_div [of w x y z]
  by (simp_all del: v4_nat.simps)

lemma v4_forbidden_octets: "v4_forbidden (w, x, y, z) \<longleftrightarrow> v4_octets_forbidden (unat w) (unat x) (unat y)"
proof -
  let ?n = "v4_nat (w, x, y, z)" and ?w = "unat w" and ?x = "unat x" and ?y = "unat y"
  note lt = byte_lt [of w] byte_lt [of x] byte_lt [of y] byte_lt [of z]
  have e2: "?w * 256 + ?x = a * 256 + b \<longleftrightarrow> ?w = a \<and> ?x = b" if "b < 256" for a b
    using horner_eq [of ?x 256 b ?w a] lt that by simp
  have e3: "(?w * 256 + ?x) * 256 + ?y = (a * 256 + b) * 256 + c \<longleftrightarrow> ?w = a \<and> ?x = b \<and> ?y = c"
    if "b < 256" "c < 256" for a b c
    using horner_eq [of ?y 256 c "?w * 256 + ?x" "a * 256 + b"] e2 [of b a] lt that by blast
  have top: "3758096384 \<le> ?n \<and> ?n \<le> 4294967295 \<longleftrightarrow> 224 \<le> ?w"
    using lt by auto
  have "v4_forbidden (w, x, y, z) \<longleftrightarrow>
     (0 \<le> ?n \<and> ?n \<le> 16777215) \<or> (167772160 \<le> ?n \<and> ?n \<le> 184549375) \<or>
     (1681915904 \<le> ?n \<and> ?n \<le> 1686110207) \<or> (2130706432 \<le> ?n \<and> ?n \<le> 2147483647) \<or>
     (2851995648 \<le> ?n \<and> ?n \<le> 2852061183) \<or> (2886729728 \<le> ?n \<and> ?n \<le> 2887778303) \<or>
     (3221225472 \<le> ?n \<and> ?n \<le> 3221225727) \<or> (3221225984 \<le> ?n \<and> ?n \<le> 3221226239) \<or>
     (3232235520 \<le> ?n \<and> ?n \<le> 3232301055) \<or> (3325256704 \<le> ?n \<and> ?n \<le> 3325256959) \<or>
     (3405803776 \<le> ?n \<and> ?n \<le> 3405804031) \<or> (3758096384 \<le> ?n \<and> ?n \<le> 4294967295)"
    by (simp add: v4_forbidden_def v4_forbidden_ranges_def)
  also have "\<dots> \<longleftrightarrow> v4_octets_forbidden ?w ?x ?y"
    unfolding v4_octets_forbidden_def
    using v4_range_octets(1) [of 0 w x y z] v4_range_octets(1) [of 10 w x y z]
      v4_range_octets(5) [of 401 w x y z] v4_range_octets(1) [of 127 w x y z]
      v4_range_octets(2) [of 43518 w x y z] v4_range_octets(4) [of 2753 w x y z]
      v4_range_octets(3) [of 12582912 w x y z] v4_range_octets(3) [of 12582914 w x y z]
      v4_range_octets(2) [of 49320 w x y z] v4_range_octets(3) [of 12989284 w x y z]
      v4_range_octets(3) [of 13303921 w x y z] top
      e2 [of 254 169] e2 [of 168 192] e3 [of 0 0 192] e3 [of 0 2 192] e3 [of 51 100 198] e3 [of 0 113 203]
      horner_div_eq(1) [of ?x 16 ?w 172] horner_div_eq(2) [of ?x 64 ?w 100] lt
    by (simp del: v4_nat.simps)
  finally show ?thesis .
qed

lemma byte_eq_iff: "(b :: byte) = c \<longleftrightarrow> unat b = unat c"
  using unsigned_word_eqI [of b c] by auto

lemma byte_le_iff: "(b :: byte) \<le> c \<longleftrightarrow> unat b \<le> unat c"
  by (rule word_le_nat_alt)

text \<open>The rules of the filter with every block switched on and no configured network.\<close>

definition blocks_all :: "'n IpFilter \<Rightarrow> bool" where
  "blocks_all f \<longleftrightarrow> block_private f \<and> block_loopback f \<and> block_link_local f \<and>
     blocked_cidrs f = [] \<and> allowed_cidrs f = []"

lemma check_rules_blocks_all:
  "blocks_all f \<Longrightarrow> check_rules N f ip = None \<longleftrightarrow>
     \<not> (is_loopback ip \<or> is_private N ip \<or> is_link_local N ip \<or> is_reserved N ip)"
  by (simp add: blocks_all_def check_rules_def is_in_allowed_cidrs_def is_in_blocked_cidrs_def)

lemma v4_rules_octets:
  assumes "ipnet_laws N"
  shows "is_loopback (V4 (w, x, y, z)) \<or> is_private N (V4 (w, x, y, z)) \<or> is_link_local N (V4 (w, x, y, z)) \<or>
    is_reserved N (V4 (w, x, y, z)) \<longleftrightarrow> v4_octets_forbidden (unat w) (unat x) (unat y)"
proof -
  note net = net_contains_prefix [OF assms]
  have m: "v4_is_multicast (w, x, y, z) \<or> w \<ge> 240 \<longleftrightarrow> 224 \<le> unat w"
    by (auto simp: byte_le_iff)
  have m': "P \<or> v4_is_multicast (w, x, y, z) \<or> w \<ge> 240 \<or> Q \<longleftrightarrow> P \<or> 224 \<le> unat w \<or> Q" for P Q
    using m by blast
  have c: "unat x div 64 = 1 \<longleftrightarrow> 1 = unat x div 64" "unat x div 16 = 1 \<longleftrightarrow> 1 = unat x div 16" by auto
  have z: "w = 0 \<longleftrightarrow> unat w = 0" "w = 127 \<longleftrightarrow> unat w = 127" by (simp_all add: byte_eq_iff)
  have 1: "is_loopback (V4 (w, x, y, z)) \<longleftrightarrow> unat w = 127" by (simp add: z)
  have 2: "is_private N (V4 (w, x, y, z)) \<longleftrightarrow>
      unat w = 10 \<or> (unat w = 172 \<and> unat x div 16 = 1) \<or> (unat w = 192 \<and> unat x = 168)"
    by (auto simp: is_private_v4_def private_10_def private_172_def private_192_def net)
  have 3: "is_link_local N (V4 (w, x, y, z)) \<longleftrightarrow> unat w = 169 \<and> unat x = 254"
    by (auto simp: is_link_local_v4_def link_local_def net)
  have 4: "is_reserved N (V4 (w, x, y, z)) \<longleftrightarrow>
      unat w = 0 \<or> 224 \<le> unat w \<or> (unat w = 100 \<and> unat x div 64 = 1) \<or>
      (unat w = 192 \<and> unat x = 0 \<and> unat y = 0) \<or> (unat w = 192 \<and> unat x = 0 \<and> unat y = 2) \<or>
      (unat w = 198 \<and> unat x = 51 \<and> unat y = 100) \<or> (unat w = 203 \<and> unat x = 0 \<and> unat y = 113)"
    unfolding is_reserved.simps is_reserved_v4_def cgn_def ietf_def test_net_1_def test_net_2_def
      test_net_3_def net fst_conv z(1) m' by simp argo
  show ?thesis unfolding 1 2 3 4 v4_octets_forbidden_def by argo
qed

lemma v4_check_exact:
  assumes "ipnet_laws N" and "blocks_all f"
  shows "check_rules N f (V4 v4) = None \<longleftrightarrow> \<not> v4_forbidden v4"
proof -
  obtain w x y z where "v4 = (w, x, y, z)" by (metis surj_pair)
  then show ?thesis
    by (simp only: check_rules_blocks_all [OF assms(2)] v4_rules_octets [OF assms(1)] v4_forbidden_octets)
qed

text \<open>Bit masks on an octet as ranges.\<close>

lemma mask_fe: "((b :: byte) AND 0xfe) = 0xfc \<longleftrightarrow> 0xfc \<le> unat b \<and> unat b \<le> 0xfd"
proof -
  have "list_all (\<lambda>n. ((of_nat n :: byte) AND 0xfe = 0xfc) = (0xfc \<le> n \<and> n \<le> 0xfd)) [0 ..< 256]"
    by code_simp
  then have "((of_nat (unat b) :: byte) AND 0xfe = 0xfc) = (0xfc \<le> unat b \<and> unat b \<le> 0xfd)"
    using byte_lt [of b] unfolding list_all_iff set_upt by (meson atLeastLessThan_iff le0)
  then show ?thesis by simp
qed

lemma mask_c0: "((b :: byte) AND 0xc0) = 0x80 \<longleftrightarrow> 0x80 \<le> unat b \<and> unat b \<le> 0xbf"
proof -
  have "list_all (\<lambda>n. ((of_nat n :: byte) AND 0xc0 = 0x80) = (0x80 \<le> n \<and> n \<le> 0xbf)) [0 ..< 256]"
    by code_simp
  then have "((of_nat (unat b) :: byte) AND 0xc0 = 0x80) = (0x80 \<le> unat b \<and> unat b \<le> 0xbf)"
    using byte_lt [of b] unfolding list_all_iff set_upt by (meson atLeastLessThan_iff le0)
  then show ?thesis by simp
qed

lemma v6_octets:
  assumes "length o6 = 16"
  obtains b0 b1 b2 b3 b4 b5 b6 b7 b8 b9 b10 b11 b12 b13 b14 b15
  where "o6 = [b0, b1, b2, b3, b4, b5, b6, b7, b8, b9, b10, b11, b12, b13, b14, b15]"
  using assms by (auto simp: eval_nat_numeral length_Suc_conv)

lemma v6_segment_eq: "unat (a :: byte) * 256 + unat (b :: byte) = k * 256 + j \<longleftrightarrow> unat a = k \<and> unat b = j" if "j < 256"
  using horner_eq [OF byte_lt that, of "unat a" b k] .

lemma v6_segment_zero: "unat (a :: byte) * 256 + unat (b :: byte) = 0 \<longleftrightarrow> a = 0 \<and> b = 0"
  by (simp add: unat_eq_0)

lemma v6_check_exact:
  assumes len: "length o6 = 16" and f: "blocks_all f"
  shows "check_rules N f (V6 o6) = None \<longleftrightarrow> \<not> v6_forbidden o6 \<and> \<not> around_discard (V6 o6)"
proof -
  obtain b0 b1 b2 b3 b4 b5 b6 b7 b8 b9 b10 b11 b12 b13 b14 b15
    where o: "o6 = [b0, b1, b2, b3, b4, b5, b6, b7, b8, b9, b10, b11, b12, b13, b14, b15]"
    using v6_octets [OF len] .
  let ?s0 = "unat b0 * 256 + unat b1" and ?s1 = "unat b2 * 256 + unat b3"
  have segs: "v6_segments o6 = [?s0, ?s1, unat b4 * 256 + unat b5, unat b6 * 256 + unat b7,
      unat b8 * 256 + unat b9, unat b10 * 256 + unat b11, unat b12 * 256 + unat b13, unat b14 * 256 + unat b15]"
    by (simp add: v6_segments_def o upt_rec)
  note lt = byte_lt [of b0] byte_lt [of b1]
  have 1: "is_loopback (V6 o6) \<longleftrightarrow> v6_segments o6 = [0, 0, 0, 0, 0, 0, 0, 1]"
    unfolding segs list.inject v6_segment_zero using v6_segment_eq [of 1 b14 b15 0]
    by (simp add: v6_is_loopback_def o eval_nat_numeral byte_eq_iff [of b15] unat_eq_0)
  have 2: "v6_is_unspecified o6 \<longleftrightarrow> v6_segments o6 = [0, 0, 0, 0, 0, 0, 0, 0]"
    unfolding segs list.inject v6_segment_zero by (simp add: v6_is_unspecified_def o eval_nat_numeral)
  have 3: "is_private N (V6 o6) \<longleftrightarrow> 0xfc00 \<le> ?s0 \<and> ?s0 \<le> 0xfdff"
    using lt by (simp add: is_private_v6_def o mask_fe) linarith
  have 4: "is_link_local N (V6 o6) \<longleftrightarrow> 0xfe80 \<le> ?s0 \<and> ?s0 \<le> 0xfebf"
    using lt by (simp add: is_link_local_v6_def o mask_c0 byte_eq_iff [of b0]) presburger
  have 5: "v6_is_multicast o6 \<longleftrightarrow> 0xff00 \<le> ?s0"
    using lt by (simp add: v6_is_multicast_def o byte_eq_iff [of b0]) linarith
  have 6: "b0 = 0x20 \<and> b1 = 0x01 \<and> b2 = 0x0d \<and> b3 = 0xb8 \<longleftrightarrow> ?s0 = 0x2001 \<and> ?s1 = 0xdb8"
    using v6_segment_eq [of 1 b0 b1 32] v6_segment_eq [of 184 b2 b3 13]
    by (simp add: byte_eq_iff [of b0] byte_eq_iff [of b1] byte_eq_iff [of b2] byte_eq_iff [of b3])
  have 7: "b0 = 0x01 \<and> b1 = 0x00 \<longleftrightarrow> ?s0 = 0x100"
    using v6_segment_eq [of 0 b0 b1 1] by (simp add: byte_eq_iff [of b0] unat_eq_0)
  have n: "o6 ! 0 = b0" "o6 ! 1 = b1" "o6 ! 2 = b2" "o6 ! 3 = b3"
    "v6_segments o6 ! 0 = ?s0" "v6_segments o6 ! 1 = ?s1"
    by (simp_all add: segs) (simp_all add: o)
  show ?thesis
    unfolding check_rules_blocks_all [OF f] v6_forbidden_def Let_def is_reserved.simps is_reserved_v6_def
      around_discard.simps n 1 2 3 4 5 6 7 by argo
qed

definition ip_wf :: "IpAddr \<Rightarrow> bool" where
  "ip_wf ip = (case ip of V4 _ \<Rightarrow> True | V6 o6 \<Rightarrow> length o6 = 16)"

lemma embedding_not_discard:
  assumes "length o6 = 16" and "to_ipv4_mapped o6 \<noteq> None \<or> extract_nat64_ipv4 o6 \<noteq> None"
  shows "\<not> around_discard (V6 o6)"
proof -
  from assms(2) have "o6 ! 0 = 0"
  proof
    assume "to_ipv4_mapped o6 \<noteq> None"
    then have "take 12 o6 = replicate 10 0 @ [0xff, 0xff]" by (simp add: to_ipv4_mapped_def split: if_splits)
    then have "take 12 o6 ! 0 = (replicate 10 0 @ [0xff, 0xff]) ! 0" by (simp only:)
    then show ?thesis by (simp add: nth_append)
  qed (simp add: extract_nat64_ipv4_def split: if_splits)
  then show ?thesis using byte_lt [of "o6 ! 1"] by (simp add: v6_segments_def upt_rec)
qed

lemma check_ip_exact:
  assumes "ipnet_laws N" and "blocks_all f" and "ip_wf ip"
  shows "check_ip N f ip = None \<longleftrightarrow> \<not> ip_forbidden ip \<and> \<not> around_discard ip"
proof (cases ip)
  case (V4 v4)
  then show ?thesis by (simp add: ip_forbidden_def v4_check_exact [OF assms(1,2)])
next
  case (V6 o6)
  then have "length o6 = 16" using assms(3) by (simp add: ip_wf_def)
  with V6 show ?thesis
    using embedding_not_discard [of o6]
    by (cases "to_ipv4_mapped o6"; cases "extract_nat64_ipv4 o6")
      (simp_all add: ip_forbidden_def v4_check_exact [OF assms(1,2)] v6_check_exact [OF _ assms(2)]
        del: around_discard.simps)
qed

lemma IpFilter_new_default: "IpFilter_new N NetworkProtectionConfig_default = Ok f \<Longrightarrow> blocks_all f"
  by (auto simp: IpFilter_new_def NetworkProtectionConfig_default_def blocks_all_def)

lemma validate_all_Ok_iff: "validate_all N f addrs = Ok () \<longleftrightarrow> (\<forall>a \<in> set addrs. is_allowed N f (fst a))"
  by (induction addrs) (auto simp: validate_ip_def is_allowed_def split: option.splits)

section \<open>Properties\<close>

text \<open>
  Property C13. Under the default configuration the filter allows an address exactly when it lies outside
  the internal and special ranges that its comments document, given by first and last address, and
  outside \<open>100::/16\<close>, of which they document only \<open>100::/64\<close>; an IPv6 address that embeds an IPv4
  address, mapped or through the NAT64 prefix, is judged by that address.
\<close>

theorem default_filter_exact:
  assumes "ipnet_laws N" and "IpFilter_new N NetworkProtectionConfig_default = Ok f" and "ip_wf ip"
  shows "is_allowed N f ip \<longleftrightarrow> \<not> ip_forbidden ip \<and> \<not> around_discard ip"
  unfolding is_allowed_def using assms(1) IpFilter_new_default [OF assms(2)] assms(3) by (rule check_ip_exact)

text \<open>
  Note. The block is wider than its comment: \<open>100:1::\<close> lies outside every documented range, \<open>100::/64\<close>
  included, and is not allowed.
\<close>

theorem discard_prefix_too_wide:
  assumes "ipnet_laws N" and "IpFilter_new N NetworkProtectionConfig_default = Ok f"
    and "o6 = [1, 0, 0, 1, 0, 0, 0, 0, 0, 0, 0, 0, 0, 0, 0, 0]"
  shows "\<not> ip_forbidden (V6 o6) \<and> \<not> is_allowed N f (V6 o6)"
proof -
  have segs: "v6_segments o6 = [256, 1, 0, 0, 0, 0, 0, 0]" by (simp add: v6_segments_def upt_rec assms(3))
  have "to_ipv4_mapped o6 = None" "extract_nat64_ipv4 o6 = None"
    by (simp_all add: to_ipv4_mapped_def extract_nat64_ipv4_def assms(3))
  moreover have "\<not> v6_forbidden o6" "around_discard (V6 o6)" by (simp_all add: v6_forbidden_def segs)
  moreover have "ip_wf (V6 o6)" by (simp add: ip_wf_def assms(3))
  ultimately show ?thesis
    using check_ip_exact [OF assms(1) IpFilter_new_default [OF assms(2)], of "V6 o6"]
    by (simp add: is_allowed_def ip_forbidden_def del: around_discard.simps check_ip.simps)
qed

text \<open>Networks as address and prefix length; only IPv4 networks can be written.\<close>

definition pair_nets :: "Ipv4Net ipnet_lib" where
  "pair_nets =
     \<lparr>v4net_contains = (\<lambda>n ip. v4_nat (fst n) div 2 ^ (32 - snd n) = v4_nat ip div 2 ^ (32 - snd n)),
      net_parse = (\<lambda>s. if s = ''10.0.0.0/8'' then Ok private_10 else Err ''invalid IP address syntax''),
      net_contains = (\<lambda>n ip. case ip of
          V4 v4 \<Rightarrow> v4_nat (fst n) div 2 ^ (32 - snd n) = v4_nat v4 div 2 ^ (32 - snd n) | V6 _ \<Rightarrow> False)\<rparr>"

lemma pair_nets_laws: "ipnet_laws pair_nets"
  by (simp add: ipnet_laws_def pair_nets_def)

theorem default_filter_exact_witness:
  "\<exists>f. IpFilter_new pair_nets NetworkProtectionConfig_default = Ok f \<and>
     \<not> is_allowed pair_nets f (V4 (10, 1, 2, 3)) \<and> is_allowed pair_nets f (V4 (8, 8, 8, 8))"
proof -
  obtain f where f: "IpFilter_new pair_nets NetworkProtectionConfig_default = Ok f"
    by (simp add: IpFilter_new_def NetworkProtectionConfig_default_def)
  have "ip_forbidden (V4 (10, 1, 2, 3))" "\<not> ip_forbidden (V4 (8, 8, 8, 8))"
    by (simp_all add: ip_forbidden_def v4_forbidden_def v4_forbidden_ranges_def)
  with default_filter_exact [OF pair_nets_laws f, of "V4 (10, 1, 2, 3)"]
    default_filter_exact [OF pair_nets_laws f, of "V4 (8, 8, 8, 8)"] f
  show ?thesis by (auto simp: ip_wf_def)
qed

text \<open>
  Property C35. The connector only connects to an address that passed the filter: then the host name is
  not a blocked one, every address it resolves to is allowed, and the connection goes to the first.
\<close>

theorem connector_only_allowed:
  assumes "connector_call N resolve f uri = Ok addr"
  shows "\<exists>au addrs. u_authority uri = Some au \<and> \<not> is_hostname_blocked f (au_host au) \<and>
     resolve (au_host au @ '':'' @ nat_to_string (unat (connector_port uri au))) = Ok addrs \<and>
     (\<forall>a \<in> set addrs. is_allowed N f (fst a)) \<and> addrs \<noteq> [] \<and> addr = hd addrs"
  using assms
  by (auto simp: connector_call_def Let_def validate_hostname_def validate_all_Ok_iff hd_conv_nth
      split: option.splits if_splits)

theorem connector_only_allowed_witness:
  "\<exists>f. IpFilter_new pair_nets NetworkProtectionConfig_default = Ok f \<and>
     connector_call pair_nets (\<lambda>_. Ok [(V4 (8, 8, 8, 8), 443)]) f
       \<lparr>u_scheme = Some ''https'', u_authority = Some \<lparr>au_str = ''a.io'', au_host = ''a.io'', au_port = None\<rparr>,
        u_path = ''/'', u_query = None\<rparr> = Ok (V4 (8, 8, 8, 8), 443) \<and>
     is_allowed pair_nets f (V4 (8, 8, 8, 8))"
proof -
  obtain f where f: "IpFilter_new pair_nets NetworkProtectionConfig_default = Ok f" and
    h: "blocked_hostnames f = []"
    by (simp add: IpFilter_new_def NetworkProtectionConfig_default_def)
  let ?uri = "\<lparr>u_scheme = Some ''https'', u_authority = Some \<lparr>au_str = ''a.io'', au_host = ''a.io'', au_port = None\<rparr>,
        u_path = ''/'', u_query = None\<rparr>"
  have "\<not> ip_forbidden (V4 (8, 8, 8, 8))"
    by (simp add: ip_forbidden_def v4_forbidden_def v4_forbidden_ranges_def)
  then have "check_ip pair_nets f (V4 (8, 8, 8, 8)) = None"
    using check_ip_exact [OF pair_nets_laws IpFilter_new_default [OF f], of "V4 (8, 8, 8, 8)"]
    by (simp add: ip_wf_def)
  then have c: "connector_call pair_nets (\<lambda>_. Ok [(V4 (8, 8, 8, 8), 443)]) f ?uri = Ok (V4 (8, 8, 8, 8), 443)"
    by (simp add: connector_call_def validate_hostname_def is_hostname_blocked_def h validate_ip_def)
  from connector_only_allowed [OF c] f c show ?thesis by auto
qed

text \<open>
  Note. The filter documented to allow all addresses still blocks every reserved one: its
  switches turn off the private, loopback and link-local rules only.
\<close>

theorem permissive_blocks_reserved:
  assumes "is_reserved N (V4 v4)"
  shows "check_ip N IpFilter_permissive (V4 v4) = Some FrReserved"
  using assms
  by (simp add: check_rules_def is_in_allowed_cidrs_def is_in_blocked_cidrs_def IpFilter_permissive_def)

theorem permissive_blocks_reserved_witness:
  "check_ip pair_nets IpFilter_permissive (V4 (0, 0, 0, 0)) = Some FrReserved"
  using permissive_blocks_reserved [of pair_nets "(0, 0, 0, 0)"] by (simp add: is_reserved_v4_def)

text \<open>
  Note. An allowed network overrides every blocking rule for the addresses it contains, also for
  an IPv4 address embedded in an IPv6 address.
\<close>

theorem allowed_cidr_overrides:
  assumes "cidr \<in> set (allowed_cidrs f)" and "net_contains N cidr (V4 v4)"
    and "ip = V4 v4 \<or> (\<exists>o6. ip = V6 o6 \<and> to_ipv4_mapped o6 = Some v4)"
  shows "is_allowed N f ip"
  using assms by (auto simp: is_allowed_def check_rules_def is_in_allowed_cidrs_def list_ex_iff)

theorem allowed_cidr_overrides_witness:
  "\<exists>f. IpFilter_new pair_nets (NetworkProtectionConfig_default\<lparr>npc_allowed_cidrs := [''10.0.0.0/8'']\<rparr>) = Ok f \<and>
     is_allowed pair_nets f (V6 (replicate 10 0 @ [0xff, 0xff, 10, 1, 2, 3]))"
proof -
  obtain f where f: "IpFilter_new pair_nets (NetworkProtectionConfig_default\<lparr>npc_allowed_cidrs := [''10.0.0.0/8'']\<rparr>) = Ok f"
    and a: "allowed_cidrs f = [private_10]"
    by (simp add: IpFilter_new_def NetworkProtectionConfig_default_def pair_nets_def)
  have "to_ipv4_mapped (replicate 10 0 @ [0xff, 0xff, 10, 1, 2, 3]) = Some (10, 1, 2, 3)"
    by (simp add: to_ipv4_mapped_def last_four_def eval_nat_numeral)
  moreover have "net_contains pair_nets private_10 (V4 (10, 1, 2, 3))"
    by (simp add: pair_nets_def private_10_def)
  ultimately show ?thesis using allowed_cidr_overrides [of private_10 f pair_nets "(10, 1, 2, 3)"] f a by auto
qed

end
