(* ===== verification/Host_Policy.thy ===== *)
theory Host_Policy
  imports Http Constraints
begin

text \<open>
  The static host policy, \<open>crates/icebreaker-proxy/src/middleware/host_validation.rs\<close>: allowlist and
  blocklist of hosts and patterns, and the service that applies it. A \<open>HashSet\<close> of hosts is a list here;
  the matching of a list is shown not to depend on order or repetition (the contract
  \<open>port_aware_matcher\<close>, interpreted for the policy's host sets). Compiled patterns are their
  \<open>is_match\<close>.
\<close>

record HostValidationConfig =
  hv_allowed_hosts :: "string list"
  hv_allowed_patterns :: "regex list"
  hv_blocked_hosts :: "string list"
  hv_blocked_patterns :: "regex list"

text \<open>The two fixed patterns \<open>.*\<close> and \<open>^$\<close> as the expression library documents them.\<close>

definition match_all_regex :: regex where
  "match_all_regex s = True"

definition match_none_regex :: regex where
  "match_none_regex s \<longleftrightarrow> s = []"

definition HostValidationConfig_new :: HostValidationConfig where
  "HostValidationConfig_new =
     \<lparr>hv_allowed_hosts = [], hv_allowed_patterns = [], hv_blocked_hosts = [], hv_blocked_patterns = []\<rparr>"

definition allow_all :: HostValidationConfig where
  "allow_all = HostValidationConfig_new\<lparr>hv_allowed_patterns := [match_all_regex]\<rparr>"

definition set_insert :: "'a \<Rightarrow> 'a list \<Rightarrow> 'a list" where
  "set_insert x xs = (if x \<in> set xs then xs else xs @ [x])"

definition allow_host :: "HostValidationConfig \<Rightarrow> string \<Rightarrow> HostValidationConfig" where
  "allow_host c h = c\<lparr>hv_allowed_hosts := set_insert h (hv_allowed_hosts c)\<rparr>"

definition allow_hosts :: "HostValidationConfig \<Rightarrow> string list \<Rightarrow> HostValidationConfig" where
  "allow_hosts c hs = fold (\<lambda>h c. c\<lparr>hv_allowed_hosts := set_insert h (hv_allowed_hosts c)\<rparr>) hs c"

text \<open>A pattern that does not compile is replaced by \<open>match_none_regex\<close>.\<close>

definition compile_or_none :: "regex_lib \<Rightarrow> string \<Rightarrow> regex" where
  "compile_or_none rx pattern =
     (case rx pattern HOST_PATTERN_REGEX_SIZE_LIMIT of Inr re \<Rightarrow> re | Inl _ \<Rightarrow> match_none_regex)"

definition allow_pattern :: "regex_lib \<Rightarrow> HostValidationConfig \<Rightarrow> string \<Rightarrow> HostValidationConfig" where
  "allow_pattern rx c p = c\<lparr>hv_allowed_patterns := hv_allowed_patterns c @ [compile_or_none rx p]\<rparr>"

definition block_host :: "HostValidationConfig \<Rightarrow> string \<Rightarrow> HostValidationConfig" where
  "block_host c h = c\<lparr>hv_blocked_hosts := set_insert h (hv_blocked_hosts c)\<rparr>"

definition block_pattern :: "regex_lib \<Rightarrow> HostValidationConfig \<Rightarrow> string \<Rightarrow> HostValidationConfig" where
  "block_pattern rx c p = c\<lparr>hv_blocked_patterns := hv_blocked_patterns c @ [compile_or_none rx p]\<rparr>"

definition host_set_matches :: "string list \<Rightarrow> string \<Rightarrow> u16 option \<Rightarrow> bool" where
  "host_set_matches entries req_host req_port =
     list_ex (\<lambda>entry. let (entry_host, entry_port) = split_host_port entry
                in entry_host = req_host \<and> (entry_port = None \<or> entry_port = req_port)) entries"

definition policy_validate :: "HostValidationConfig \<Rightarrow> string \<Rightarrow> unit tresult" where
  "policy_validate self authority =
     (let (req_host, req_port) = split_host_port authority in
      if host_set_matches (hv_blocked_hosts self) req_host req_port \<or>
         list_ex (\<lambda>p. p req_host) (hv_blocked_patterns self)
      then Err (HostNotAllowed authority)
      else if host_set_matches (hv_allowed_hosts self) req_host req_port \<or>
              list_ex (\<lambda>p. p req_host) (hv_allowed_patterns self)
      then Ok ()
      else if hv_allowed_hosts self \<noteq> [] \<or> hv_allowed_patterns self \<noteq> []
      then Err (HostNotAllowed authority)
      else Ok ())"

text \<open>\<open>HostValidationService::call\<close>: the inner service is an argument.\<close>

definition HostValidationService_call :: "'h header_lib \<Rightarrow> HostValidationConfig \<Rightarrow>
    (('h, 'b) request \<Rightarrow> ('e, 'r) result) \<Rightarrow> ('h, 'b) request \<Rightarrow> 'r tresult" where
  "HostValidationService_call H config inner request =
     bindR (ok_or
       (case u_authority (rq_uri request) of
          Some au \<Rightarrow> Some (au_str au)
        | None \<Rightarrow> Option.bind (h_get H (rq_headers request) ''host'') (\<lambda>v. ok (h_to_str H v)))
       (HostNotAllowed ''<unknown>'')) (\<lambda>authority.
     bindR (policy_validate config authority) (\<lambda>_.
       map_err (\<lambda>_. HttpError ''upstream request failed'') (inner request)))"

interpretation policy_hosts: port_aware_matcher host_set_matches
  by unfold_locales (auto simp: host_set_matches_def entry_matches_def)

section \<open>Lemmas\<close>

definition policy_blocks :: "HostValidationConfig \<Rightarrow> string \<Rightarrow> u16 option \<Rightarrow> bool" where
  "policy_blocks c h p \<longleftrightarrow>
     (\<exists>e \<in> set (hv_blocked_hosts c). entry_matches e h p) \<or> (\<exists>re \<in> set (hv_blocked_patterns c). re h)"

definition policy_lists :: "HostValidationConfig \<Rightarrow> string \<Rightarrow> u16 option \<Rightarrow> bool" where
  "policy_lists c h p \<longleftrightarrow>
     (\<exists>e \<in> set (hv_allowed_hosts c). entry_matches e h p) \<or> (\<exists>re \<in> set (hv_allowed_patterns c). re h)"

lemma policy_validate_eq:
  "policy_validate c authority =
     (case split_host_port authority of (h, p) \<Rightarrow>
        if \<not> policy_blocks c h p \<and>
           (policy_lists c h p \<or> hv_allowed_hosts c = [] \<and> hv_allowed_patterns c = [])
        then Ok () else Err (HostNotAllowed authority))"
proof -
  obtain h p where hp: "split_host_port authority = (h, p)" by fastforce
  show ?thesis
    unfolding policy_validate_def policy_blocks_def policy_lists_def hp policy_hosts.matches_iff list_ex_iff
    by (simp, blast)
qed

lemma policy_validate_sets:
  assumes "set (hv_allowed_hosts c) = set (hv_allowed_hosts d)"
    and "set (hv_blocked_hosts c) = set (hv_blocked_hosts d)"
    and "hv_allowed_patterns c = hv_allowed_patterns d" and "hv_blocked_patterns c = hv_blocked_patterns d"
  shows "policy_validate c authority = policy_validate d authority"
proof -
  have "hv_allowed_hosts c = [] \<longleftrightarrow> hv_allowed_hosts d = []" using assms(1) by (metis set_empty)
  then show ?thesis
    using assms by (simp add: policy_validate_eq policy_blocks_def policy_lists_def split: prod.split)
qed

section \<open>Properties\<close>

text \<open>
  Note. The static policy admits an authority exactly when no block rule names its host, on any or
  on this port, and an allow rule does or no allow rule exists; block rules always win, whatever is
  allowed besides.
\<close>

theorem host_policy_exact:
  "policy_validate c authority = Ok () \<longleftrightarrow>
     \<not> policy_blocks c (fst (split_host_port authority)) (snd (split_host_port authority)) \<and>
     (policy_lists c (fst (split_host_port authority)) (snd (split_host_port authority)) \<or>
      hv_allowed_hosts c = [] \<and> hv_allowed_patterns c = [])"
  by (simp add: policy_validate_eq split: prod.split)

text \<open>
  Note. An invalid allow pattern is replaced by one documented to match nothing; that pattern matches the
  empty host, so an authority that is only a port is admitted through it.
\<close>

theorem invalid_pattern_admits_empty_host:
  assumes "rx p HOST_PATTERN_REGEX_SIZE_LIMIT = Err e"
  shows "policy_validate (allow_pattern rx HostValidationConfig_new p) '':80'' = Ok ()"
proof -
  have "split_host_port (join_host_port [] 80) = ([], Some 80)"
    by (rule split_bare_join) (simp add: bare_host_def starts_with_def)
  moreover have "join_host_port [] 80 = '':80''"
    by (simp add: join_host_port_def nat_to_string.simps digit_chars_def)
  ultimately show ?thesis
    using assms by (simp add: policy_validate_eq policy_blocks_def policy_lists_def allow_pattern_def
        HostValidationConfig_new_def compile_or_none_def match_none_regex_def)
qed

end
