(* ===== verification/Rate_Limit.thy ===== *)
theory Rate_Limit
  imports Nonce Http
begin

text \<open>
  The rate limiter, \<open>crates/icebreaker-proxy/src/middleware/rate_limit.rs\<close>: the generic cell rate
  algorithm per key, and the service that applies it. Instants and durations are nanoseconds; adding
  to an instant may panic. The locale \<open>gcra\<close> is the contract of one check; in it the sliding-window
  bound on admitted requests is proved for any sequence of calls, and it is interpreted on \<open>check\<close>.
\<close>

section \<open>The limiter\<close>

record RateLimiter =
  rl_config :: RateLimitConfig
  rl_state :: "string \<rightharpoonup> instant"

definition RateLimiter_new :: "RateLimitConfig \<Rightarrow> RateLimiter" where
  "RateLimiter_new config = \<lparr>rl_config = config, rl_state = Map.empty\<rparr>"

text \<open>\<open>Duration::checked_div\<close> with the fallback to zero, and \<open>Duration::saturating_mul\<close>.\<close>

definition emission_interval :: "RateLimitConfig \<Rightarrow> duration" where
  "emission_interval c =
     (if max_requests c = 0 then 0 else period c div unat (max_requests c))"

definition burst_tolerance :: "RateLimitConfig \<Rightarrow> duration" where
  "burst_tolerance c = min (emission_interval c * unat (burst c)) duration_max"

text \<open>
  \<open>new_tat.checked_sub(burst_tolerance).unwrap_or(now)\<close>. An instant may lie before the origin of the
  clock, down to the smallest 64-bit second.
\<close>

definition allow_at :: "instant \<Rightarrow> duration \<Rightarrow> instant \<Rightarrow> int" where
  "allow_at new_tat tolerance now =
     (let t = int new_tat - int tolerance in
      if - (2 ^ 63 * int nanos_per_sec) \<le> t then t else int now)"

definition check :: "RateLimiter \<Rightarrow> string \<Rightarrow> instant \<Rightarrow> bool outcome \<times> RateLimiter" where
  "check self key now =
     (let interval = emission_interval (rl_config self);
          tolerance = burst_tolerance (rl_config self);
          store = (\<lambda>tat. self\<lparr>rl_state := (rl_state self)(key \<mapsto> tat)\<rparr>)
      in case rl_state self key of
           None \<Rightarrow>
             (case instant_add now interval of
                Panic m \<Rightarrow> (Panic m, store now)
              | Returns tat \<Rightarrow> (Returns True, store tat))
         | Some tat \<Rightarrow>
             (case instant_add (if tat < now then now else tat) interval of
                Panic m \<Rightarrow> (Panic m, self)
              | Returns new_tat \<Rightarrow>
                  if allow_at new_tat tolerance now > int now then (Returns False, self)
                  else (Returns True, store new_tat)))"

definition clear :: "RateLimiter \<Rightarrow> string \<Rightarrow> RateLimiter" where
  "clear self key = self\<lparr>rl_state := (rl_state self)(key := None)\<rparr>"

definition clear_all :: "RateLimiter \<Rightarrow> RateLimiter" where
  "clear_all self = self\<lparr>rl_state := Map.empty\<rparr>"

section \<open>The service\<close>

definition extract_rate_limit_key :: "('h, 'b) request \<Rightarrow> string" where
  "extract_rate_limit_key request =
     (case rq_ext_conn request of Some conn_info \<Rightarrow> rate_limit_key conn_info | None \<Rightarrow> ''default'')"

text \<open>The inner service is an argument; its error is given as text.\<close>

definition RateLimitService_call :: "RateLimiter \<Rightarrow> (('h, 'b) request \<Rightarrow> (string, 'r) result) \<Rightarrow>
    ('h, 'b) request \<Rightarrow> instant \<Rightarrow> 'r tresult outcome \<times> RateLimiter" where
  "RateLimitService_call limiter inner request now =
     (case check limiter (extract_rate_limit_key request) now of
        (Panic m, l) \<Rightarrow> (Panic m, l)
      | (Returns False, l) \<Rightarrow> (Returns (Err RateLimitExceeded), l)
      | (Returns True, l) \<Rightarrow>
          (Returns (map_err (\<lambda>e. HttpError (''upstream request failed: '' @ e)) (inner request)), l))"

section \<open>Sequences of checks\<close>

text \<open>The instants at which a run of checks lets the key through.\<close>

fun allowed_times :: "('s \<Rightarrow> string \<Rightarrow> instant \<Rightarrow> bool outcome \<times> 's) \<Rightarrow> string \<Rightarrow> 's \<Rightarrow>
    (string \<times> instant) list \<Rightarrow> instant list" where
  "allowed_times chk k s [] = []"
| "allowed_times chk k s ((k', now) # es) =
     (case chk s k' now of
        (r, s') \<Rightarrow> (if k' = k \<and> r = Returns True then [now] else []) @ allowed_times chk k s' es)"

text \<open>
  The contract of a check: a call for another key leaves the arrival time \<open>tat\<close> of the key alone, a
  refused call too; an admitted call moves it by an interval at least, to at least an interval after
  now, and to no more than the tolerance after now unless the key is new.
\<close>

locale gcra =
  fixes chk :: "'s \<Rightarrow> string \<Rightarrow> instant \<Rightarrow> bool outcome \<times> 's"
    and tat :: "'s \<Rightarrow> string \<Rightarrow> instant option" and ei bt :: nat
    and valid :: "'s \<Rightarrow> bool"
  assumes other: "valid s \<Longrightarrow> chk s k' now = (r, s') \<Longrightarrow> k' \<noteq> k \<Longrightarrow> tat s' k = tat s k"
    and refused: "valid s \<Longrightarrow> chk s k now = (r, s') \<Longrightarrow> tat s k = Some t \<Longrightarrow> r \<noteq> Returns True \<Longrightarrow> tat s' k = Some t"
    and admitted: "valid s \<Longrightarrow> chk s k now = (Returns True, s') \<Longrightarrow>
       \<exists>t'. tat s' k = Some t' \<and> now + ei \<le> t' \<and> (\<forall>t. tat s k = Some t \<longrightarrow> t + ei \<le> t' \<and> t' \<le> now + bt)"
    and stays_valid: "valid s \<Longrightarrow> chk s k now = (r, s') \<Longrightarrow> valid s'"
begin

lemma window_from:
  assumes "valid s" and "tat s k = Some t" and "j < length (allowed_times chk k s es)"
  shows "t + (j + 1) * ei \<le> allowed_times chk k s es ! j + bt"
  using assms
proof (induction es arbitrary: s t j)
  case (Cons e es)
  obtain k' now r s' where e: "e = (k', now)" and c: "chk s k' now = (r, s')" by (metis surj_pair)
  have v: "valid s'" using stays_valid [OF Cons.prems(1) c] .
  show ?case
  proof (cases "k' = k \<and> r = Returns True")
    case True
    with c have "chk s k now = (Returns True, s')" by simp
    from admitted [OF Cons.prems(1) this] Cons.prems(2) obtain t' where
      t': "tat s' k = Some t'" "t + ei \<le> t'" "t' \<le> now + bt" by blast
    show ?thesis
    proof (cases j)
      case 0
      with t' e c True show ?thesis by simp
    next
      case (Suc j')
      with Cons.prems(3) e c True have "j' < length (allowed_times chk k s' es)" by simp
      from Cons.IH [OF v t'(1) this] t'(2) e c True Suc show ?thesis by simp
    qed
  next
    case False
    then have "tat s' k = Some t"
      using other [OF Cons.prems(1) c] refused [OF Cons.prems(1) _ Cons.prems(2)] c Cons.prems(2) by metis
    with Cons.IH [OF v this] Cons.prems(3) e c False show ?thesis by auto
  qed
qed simp

lemma window_bound:
  assumes "valid s" and "i < j" and "j < length (allowed_times chk k s es)"
  shows "allowed_times chk k s es ! i + (j - i + 1) * ei \<le> allowed_times chk k s es ! j + bt"
  using assms
proof (induction es arbitrary: s i j)
  case (Cons e es)
  obtain k' now r s' where e: "e = (k', now)" and c: "chk s k' now = (r, s')" by (metis surj_pair)
  have v: "valid s'" using stays_valid [OF Cons.prems(1) c] .
  show ?case
  proof (cases "k' = k \<and> r = Returns True")
    case True
    obtain j' where j: "j = Suc j'" using Cons.prems(2) by (cases j) auto
    have len: "j' < length (allowed_times chk k s' es)" using Cons.prems(3) e c True j by simp
    show ?thesis
    proof (cases i)
      case 0
      from True c have "chk s k now = (Returns True, s')" by simp
      from admitted [OF Cons.prems(1) this] obtain t' where
        t': "tat s' k = Some t'" "now + ei \<le> t'" by blast
      from window_from [OF v t'(1) len] t'(2) e c True 0 j show ?thesis by simp
    next
      case (Suc i')
      with Cons.IH [OF v _ len, of i'] Cons.prems(2) e c True j show ?thesis by simp
    qed
  next
    case False
    with Cons.IH [OF v Cons.prems(2)] Cons.prems(3) e c show ?thesis by auto
  qed
qed simp

end

lemma allow_at_le: "\<not> allow_at t d now > int now \<Longrightarrow> d \<le> 2 ^ 63 * nanos_per_sec \<Longrightarrow> t \<le> now + d"
  by (auto simp: allow_at_def Let_def split: if_splits)

text \<open>
  The limiter meets the contract for every configuration whose tolerance fits the clock's range.
\<close>

definition limiter_valid :: "RateLimitConfig \<Rightarrow> RateLimiter \<Rightarrow> bool" where
  "limiter_valid c s \<longleftrightarrow> rl_config s = c \<and> burst_tolerance c \<le> 2 ^ 63 * nanos_per_sec"

lemma check_admitted:
  assumes "limiter_valid c s" and "check s k now = (Returns True, s')"
  shows "\<exists>t'. rl_state s' k = Some t' \<and> now + emission_interval c \<le> t' \<and>
           (\<forall>t. rl_state s k = Some t \<longrightarrow>
              t' = (if t < now then now else t) + emission_interval c \<and> t' \<le> now + burst_tolerance c)"
  using assms
  by (auto simp: limiter_valid_def check_def Let_def instant_add_def
      split: option.splits outcome.splits if_splits dest!: allow_at_le)

lemma limiter_frame: "check s k now = (r, s') \<Longrightarrow> rl_config s' = rl_config s \<and> (\<forall>k'. k' \<noteq> k \<longrightarrow> rl_state s' k' = rl_state s k')"
  by (auto simp: check_def Let_def split: option.splits outcome.splits if_splits)

lemma check_refused:
  "check s k now = (r, s') \<Longrightarrow> rl_state s k = Some t \<Longrightarrow> r \<noteq> Returns True \<Longrightarrow> s' = s"
  by (auto simp: check_def Let_def split: option.splits outcome.splits if_splits)

interpretation limiter: gcra check rl_state "emission_interval c" "burst_tolerance c" "limiter_valid c"
  for c
proof unfold_locales
  fix s s' k k' r t now
  assume v: "limiter_valid c s"
  show "check s k' now = (r, s') \<Longrightarrow> k' \<noteq> k \<Longrightarrow> rl_state s' k = rl_state s k"
    by (drule limiter_frame) auto
  show "check s k now = (r, s') \<Longrightarrow> rl_state s k = Some t \<Longrightarrow> r \<noteq> Returns True \<Longrightarrow> rl_state s' k = Some t"
    by (drule check_refused) auto
  show "check s k now = (Returns True, s') \<Longrightarrow>
       \<exists>t'. rl_state s' k = Some t' \<and> now + emission_interval c \<le> t' \<and>
         (\<forall>t. rl_state s k = Some t \<longrightarrow> t + emission_interval c \<le> t' \<and> t' \<le> now + burst_tolerance c)"
    using check_admitted [OF v, of k now s'] by fastforce
  show "check s k now = (r, s') \<Longrightarrow> limiter_valid c s'"
    using v by (auto simp: limiter_valid_def dest: limiter_frame)
qed

section \<open>Properties\<close>

text \<open>
  Property C17. In any run of checks by any clients, take two admissions of the same key, the \<open>i\<close>-th and
  the \<open>j\<close>-th. The \<open>j - i + 1\<close> requests admitted from one to the other take no less than
  \<open>j - i + 1\<close> emission intervals, less the burst tolerance: no window is overspent, however the
  checks of other keys interleave and however the clock moves.
\<close>

theorem rate_window_bound:
  assumes "burst_tolerance (rl_config l) \<le> 2 ^ 63 * nanos_per_sec"
    and "i < j" and "j < length (allowed_times check k l es)"
  shows "allowed_times check k l es ! i + (j - i + 1) * emission_interval (rl_config l)
           \<le> allowed_times check k l es ! j + burst_tolerance (rl_config l)"
  by (rule limiter.window_bound) (use assms in \<open>simp_all add: limiter_valid_def\<close>)

theorem rate_window_bound_witness:
  "let l = RateLimiter_new \<lparr>max_requests = 2, period = 10, burst = 2\<rparr>;
       es = [(''a'', 0), (''b'', 0), (''a'', 0), (''a'', 0), (''a'', 5)]
   in allowed_times check ''a'' l es = [0, 0, 5] \<and> 0 + 3 * (5::nat) \<le> 5 + 10"
proof -
  define l where "l = RateLimiter_new \<lparr>max_requests = 2, period = 10, burst = 2\<rparr>"
  define es :: "(string \<times> nat) list" where
    "es = [(''a'', 0), (''b'', 0), (''a'', 0), (''a'', 0), (''a'', 5)]"
  have c: "emission_interval (rl_config l) = 5" "burst_tolerance (rl_config l) = 10"
    by (simp_all add: l_def RateLimiter_new_def emission_interval_def burst_tolerance_def duration_max_def nanos_per_sec_def)
  have t: "allowed_times check ''a'' l es = [0, 0, 5]"
    by (simp add: l_def es_def RateLimiter_new_def check_def Let_def emission_interval_def burst_tolerance_def
        duration_max_def nanos_per_sec_def allow_at_def instant_add_def instant_max_def)
  have "burst_tolerance (rl_config l) \<le> 2 ^ 63 * nanos_per_sec" by (simp add: c nanos_per_sec_def)
  from rate_window_bound [OF this, of 0 2 "''a''" es] have "0 + 3 * (5::nat) \<le> 5 + 10"
    by (simp add: c t)
  with t show ?thesis by (simp add: l_def es_def)
qed

text \<open>
  Note. A limit of no requests per period is an interval of zero, and every request passes; a burst of
  zero with a positive interval refuses every request but a key's first, for ever.
\<close>

theorem zero_limit_allows_all:
  assumes "max_requests (rl_config l) = 0" and "check l k now = (Returns b, l')"
    and "\<forall>t. rl_state l k = Some t \<longrightarrow> t \<le> now"
  shows b
  using assms by (auto simp: check_def Let_def emission_interval_def burst_tolerance_def allow_at_def
      instant_add_def split: option.splits outcome.splits if_splits)

theorem zero_burst_locks_out:
  assumes "0 < emission_interval (rl_config l)" and "burst (rl_config l) = 0"
    and "rl_state l k = Some t"
  shows "fst (check l k now) \<noteq> Returns True \<and> snd (check l k now) = l"
  using assms by (auto simp: check_def Let_def burst_tolerance_def allow_at_def instant_add_def
      split: outcome.splits if_splits)

end
