(* ===== verification/Processors.thy ===== *)
theory Processors
  imports Auth_Validation
begin

text \<open>
  The request processors, \<open>crates/icebreaker-proxy/src/processor/\<close>: header injection
  (\<open>inject.rs\<close>), signing (\<open>hmac.rs\<close>), OAuth tokens (\<open>oauth.rs\<close>), body placeholders
  (\<open>inject_body.rs\<close>), AWS re-signing (\<open>sigv4.rs\<close>) and the dispatch over them (\<open>mod.rs\<close>). A
  processor struct with one field is its configuration. The clock is read once per processing, as the
  argument \<open>now\<close>; the body of a request is read by an argument \<open>collect\<close>, with the text of the error
  if the stream fails. The AWS signer and its date parser are a parameter \<open>sigv4_lib\<close>. The loop over
  a body is a partial function: \<open>None\<close> is a call that does not return.
\<close>

section \<open>Header injection (inject.rs)\<close>

type_synonym InjectProcessor = InjectConfig
type_synonym HmacProcessor = HmacConfig
type_synonym InjectBodyProcessor = InjectBodyConfig
type_synonym Sigv4Processor = Sigv4Config

definition set_header :: "'h header_lib \<Rightarrow> ('h, 'b) request \<Rightarrow> string \<Rightarrow> string \<Rightarrow> ('h, 'b) request" where
  "set_header H request n v = request\<lparr>rq_headers := h_insert H (rq_headers request) n v\<rparr>"

definition inject_process :: "'h header_lib \<Rightarrow> InjectProcessor \<Rightarrow> ('h, 'b) request \<Rightarrow> TokenPayload \<Rightarrow>
    ('h, 'b) request tresult" where
  "inject_process H self request payload =
     bindR (map_err (\<lambda>e. ConfigError (''invalid header name: '' @ e)) (h_name H (ic_header_name self)))
       (\<lambda>header_name.
     bindR (map_err (\<lambda>e. ConfigError (''invalid header value: '' @ e))
              (h_value H (format_value self (tp_secret payload)))) (\<lambda>header_value.
       Ok (set_header H request header_name header_value)))"

section \<open>OAuth tokens (oauth.rs)\<close>

record OAuthProcessor =
  op_config :: OAuthConfig
  op_clock_skew :: ClockSkewConfig

definition OAuthProcessor_new :: "OAuthConfig \<Rightarrow> OAuthProcessor" where
  "OAuthProcessor_new config = \<lparr>op_config = config, op_clock_skew = ClockSkewConfig_default\<rparr>"

definition OAuthProcessor_with_clock_skew :: "OAuthConfig \<Rightarrow> ClockSkewConfig \<Rightarrow> OAuthProcessor" where
  "OAuthProcessor_with_clock_skew config clock_skew = \<lparr>op_config = config, op_clock_skew = clock_skew\<rparr>"

definition oauth_gate :: "OAuthProcessor \<Rightarrow> TokenPayload \<Rightarrow> u64 \<Rightarrow> unit tresult" where
  "oauth_gate self payload now =
     (case tp_oauth payload of
        None \<Rightarrow> Ok ()
      | Some oauth \<Rightarrow>
          (case check_access_token_expiration oauth (op_clock_skew self) now of
             Expired \<Rightarrow> Err (OAuthRefreshError ''access token expired, refresh required'')
           | FutureDated n \<Rightarrow> Err (InvalidPayload (''access token expiration is '' @
               nat_to_string (unat n) @ '' seconds too far in the future''))
           | _ \<Rightarrow> Ok ()))"

definition oauth_process :: "'h header_lib \<Rightarrow> OAuthProcessor \<Rightarrow> ('h, 'b) request \<Rightarrow> TokenPayload \<Rightarrow> u64 \<Rightarrow>
    ('h, 'b) request tresult" where
  "oauth_process H self request payload now =
     bindR (oauth_gate self payload now) (\<lambda>_.
     bindR (map_err (\<lambda>e. ConfigError (''invalid header name: '' @ e)) (h_name H (oc_header_name (op_config self))))
       (\<lambda>header_name.
     bindR (map_err (\<lambda>e. ConfigError (''invalid header value: '' @ e))
              (h_value H (''Bearer '' @ tp_secret payload))) (\<lambda>header_value.
       Ok (set_header H request header_name header_value))))"

section \<open>Signatures (hmac.rs)\<close>

text \<open>The builder calls both canonical forms share: method, path, query, then the signed headers found.\<close>

fun add_signed_headers :: "'h header_lib \<Rightarrow> 'h \<Rightarrow> string list \<Rightarrow> CanonicalRequestBuilder \<Rightarrow> CanonicalRequestBuilder" where
  "add_signed_headers H hs [] builder = builder"
| "add_signed_headers H hs (name # names) builder =
     add_signed_headers H hs names
       (case h_get H hs name of
          None \<Rightarrow> builder
        | Some v \<Rightarrow> (case h_to_str H v of Inl _ \<Rightarrow> builder | Inr s \<Rightarrow> cr_header builder name s))"

definition canonical_builder :: "'h header_lib \<Rightarrow> HmacProcessor \<Rightarrow> ('h, 'b) request \<Rightarrow> CanonicalRequestBuilder" where
  "canonical_builder H self request =
     (let b = CanonicalRequestBuilder_new (rq_method request) (u_path (rq_uri request));
          b = (case u_query (rq_uri request) of None \<Rightarrow> b | Some q \<Rightarrow> cr_set_query b q)
      in add_signed_headers H (rq_headers request) (hc_signed_headers self) b)"

definition build_canonical_request :: "'h header_lib \<Rightarrow> HmacProcessor \<Rightarrow> ('h, 'b) request \<Rightarrow> string" where
  "build_canonical_request H self request = cr_build (canonical_builder H self request)"

definition build_canonical_request_with_body :: "crypto_lib \<Rightarrow> 'h header_lib \<Rightarrow> HmacProcessor \<Rightarrow>
    ('h, 'b) request \<Rightarrow> bytes \<Rightarrow> string" where
  "build_canonical_request_with_body C H self parts body = cr_build (cr_body C (canonical_builder H self parts) body)"

definition add_timestamp :: "'h header_lib \<Rightarrow> HmacProcessor \<Rightarrow> ('h, 'b) request \<Rightarrow> u64 \<Rightarrow> ('h, 'b) request tresult" where
  "add_timestamp H self request now =
     (case hc_timestamp_header self of
        None \<Rightarrow> Ok request
      | Some timestamp_header \<Rightarrow>
          bindR (map_err (\<lambda>e. ConfigError (''invalid timestamp header name: '' @ e)) (h_name H timestamp_header))
            (\<lambda>header_name.
          bindR (map_err (\<lambda>e. ConfigError (''invalid timestamp value: '' @ e))
                   (h_value H (nat_to_string (unat now)))) (\<lambda>header_value.
            Ok (set_header H request header_name header_value))))"

definition add_signature :: "'h header_lib \<Rightarrow> HmacProcessor \<Rightarrow> ('h, 'b) request \<Rightarrow> string \<Rightarrow> ('h, 'b) request tresult" where
  "add_signature H self request signature =
     bindR (map_err (\<lambda>e. ConfigError (''invalid signature header name: '' @ e)) (h_name H (hc_signature_header self)))
       (\<lambda>sig_header_name.
     bindR (map_err (\<lambda>e. ConfigError (''invalid signature value: '' @ e)) (h_value H signature))
       (\<lambda>sig_header_value.
       Ok (set_header H request sig_header_name sig_header_value)))"

definition hmac_signer :: "HmacProcessor \<Rightarrow> TokenPayload \<Rightarrow> RequestSigner" where
  "hmac_signer self payload = RequestSigner_new (as_bytes (tp_secret payload)) (hc_algorithm self)"

definition hmac_process :: "crypto_lib \<Rightarrow> 'h header_lib \<Rightarrow> HmacProcessor \<Rightarrow> ('h, 'b) request \<Rightarrow> TokenPayload \<Rightarrow>
    u64 \<Rightarrow> ('h, 'b) request tresult" where
  "hmac_process C H self request payload now =
     bindR (add_timestamp H self request now) (\<lambda>request.
     bindR (sign_hex C (hmac_signer self payload) (as_bytes (build_canonical_request H self request)))
       (\<lambda>signature. add_signature H self request signature))"

text \<open>\<open>Request::from_parts\<close> with another body.\<close>

definition with_body :: "('h, 'b) request \<Rightarrow> 'c \<Rightarrow> ('h, 'c) request" where
  "with_body r b = \<lparr>rq_method = rq_method r, rq_uri = rq_uri r, rq_headers = rq_headers r,
     rq_ext_tls = rq_ext_tls r, rq_ext_conn = rq_ext_conn r, rq_ext_scheme = rq_ext_scheme r,
     rq_ext_patterns = rq_ext_patterns r, rq_body = b\<rparr>"

definition process_body_signing :: "crypto_lib \<Rightarrow> 'h header_lib \<Rightarrow> ('b \<Rightarrow> (string, bytes) result) \<Rightarrow>
    HmacProcessor \<Rightarrow> ('h, 'b) request \<Rightarrow> TokenPayload \<Rightarrow> u64 \<Rightarrow> ('h, bytes) request tresult" where
  "process_body_signing C H collect self request payload now =
     bindR (map_err (\<lambda>e. HttpError (''failed to read request body: '' @ e)) (collect (rq_body request)))
       (\<lambda>body_bytes.
     bindR (add_timestamp H self (with_body request body_bytes) now) (\<lambda>parts.
     bindR (sign_hex C (hmac_signer self payload)
              (as_bytes (build_canonical_request_with_body C H self parts body_bytes)))
       (\<lambda>signature. add_signature H self parts signature)))"

section \<open>Body placeholders (inject\_body.rs)\<close>

definition contains_bytes :: "bytes \<Rightarrow> bytes \<Rightarrow> bool" where
  "contains_bytes haystack needle \<longleftrightarrow> (if needle = [] then True else any_window needle haystack)"

text \<open>The loop \<open>while i < body.len()\<close>, with \<open>result\<close> the output so far.\<close>

partial_function (option) replace_loop :: "bytes \<Rightarrow> bytes \<Rightarrow> bytes \<Rightarrow> nat \<Rightarrow> bytes \<Rightarrow> bytes option" where
  "replace_loop placeholder replacement body i result =
     (if i < length body
      then if starts_with placeholder (drop i body)
           then replace_loop placeholder replacement body (i + length placeholder) (result @ replacement)
           else replace_loop placeholder replacement body (i + 1) (result @ [body ! i])
      else Some result)"

definition replace_placeholder :: "InjectBodyProcessor \<Rightarrow> bytes \<Rightarrow> string \<Rightarrow> bytes option" where
  "replace_placeholder self body secret =
     (let placeholder = as_bytes (ib_placeholder self); replacement = as_bytes secret in
      if \<not> contains_bytes body placeholder then Some body
      else replace_loop placeholder replacement body 0 [])"

definition inject_body_process :: "'h header_lib \<Rightarrow> ('b \<Rightarrow> (string, bytes) result) \<Rightarrow> InjectBodyProcessor \<Rightarrow>
    ('h, 'b) request \<Rightarrow> string \<Rightarrow> ('h, bytes) request tresult option" where
  "inject_body_process H collect self request secret =
     (case map_err (\<lambda>e. HttpError (''failed to read request body: '' @ e)) (collect (rq_body request)) of
        Inl e \<Rightarrow> Some (Err e)
      | Inr body_bytes \<Rightarrow>
          map_option (\<lambda>new_body.
            bindR (map_err (\<lambda>e. ConfigError (''invalid content-length: '' @ e))
                     (h_value H (nat_to_string (length new_body)))) (\<lambda>v.
              Ok (set_header H (with_body request new_body) ''content-length'' v)))
            (replace_placeholder self body_bytes secret))"

section \<open>AWS re-signing (sigv4.rs)\<close>

record CredentialScope =
  cs_date :: string
  cs_region :: string
  cs_service :: string

definition extract_credential_scope :: "string \<Rightarrow> CredentialScope option" where
  "extract_credential_scope auth_header =
     Option.bind (find_str ''Credential='' auth_header) (\<lambda>credential_start.
       let credential_part = drop (credential_start + 11) auth_header in
     Option.bind (find_char CHR '','' credential_part) (\<lambda>credential_end.
       let parts = split_on CHR ''/'' (take credential_end credential_part) in
       if length parts \<noteq> 5 then None
       else Some \<lparr>cs_date = parts ! 1, cs_region = parts ! 2, cs_service = parts ! 3\<rparr>))"

definition extract_signed_headers :: "string \<Rightarrow> string list option" where
  "extract_signed_headers auth_header =
     Option.bind (find_str ''SignedHeaders='' auth_header) (\<lambda>headers_start.
       let headers_part = drop (headers_start + 14) auth_header in
     Option.bind (find_char CHR '','' headers_part) (\<lambda>headers_end.
       Some (split_on CHR '';'' (take headers_end headers_part))))"

datatype SignableBody = UnsignedPayload | StreamingUnsignedPayloadTrailer | Precomputed string

record signing_params =
  sp_access_key :: string
  sp_secret_key :: string
  sp_region :: string
  sp_name :: string
  sp_time :: u64

record signable_request =
  sr_method :: string
  sr_uri :: string
  sr_headers :: "(string \<times> string) list"
  sr_body :: SignableBody

text \<open>
  The signer: \<open>time\<close>'s parser of the compact ISO format, giving seconds since the epoch; the text of a
  URI; the checks of the two builders; and the signature's header instructions.
\<close>

record sigv4_lib =
  sv_parse_date :: "string \<Rightarrow> int option"
  sv_uri_to_string :: "uri \<Rightarrow> string"
  sv_build_params :: "signing_params \<Rightarrow> (string, unit) result"
  sv_signable :: "signable_request \<Rightarrow> (string, unit) result"
  sv_sign :: "signable_request \<Rightarrow> signing_params \<Rightarrow> (string, (string \<times> string) list) result"

definition parse_amz_date :: "sigv4_lib \<Rightarrow> string \<Rightarrow> u64 option" where
  "parse_amz_date V amz_date =
     Option.bind (sv_parse_date V amz_date) (\<lambda>unix_ts. if unix_ts < 0 then None else Some (of_int unix_ts))"

definition header_str :: "'h header_lib \<Rightarrow> ('h, 'b) request \<Rightarrow> string \<Rightarrow> string option" where
  "header_str H request n = Option.bind (h_get H (rq_headers request) n) (\<lambda>v. ok (h_to_str H v))"

definition headers_to_sign :: "'h header_lib \<Rightarrow> ('h, 'b) request \<Rightarrow> string list \<Rightarrow> (string \<times> string) list" where
  "headers_to_sign H request signed_headers =
     List.map_filter (\<lambda>name. if to_lower name = ''authorization'' then None
       else map_option (\<lambda>v. (name, v)) (header_str H request name)) signed_headers"

definition signable_body :: "string option \<Rightarrow> SignableBody" where
  "signable_body content_sha256 =
     (case content_sha256 of
        None \<Rightarrow> UnsignedPayload
      | Some s \<Rightarrow> if s = ''UNSIGNED-PAYLOAD'' then UnsignedPayload
                 else if s = ''STREAMING-AWS4-HMAC-SHA256-PAYLOAD'' then StreamingUnsignedPayloadTrailer
                 else Precomputed s)"

fun apply_instructions :: "'h header_lib \<Rightarrow> ('h, 'b) request \<Rightarrow> (string \<times> string) list \<Rightarrow> ('h, 'b) request tresult" where
  "apply_instructions H request [] = Ok request"
| "apply_instructions H request ((name, v) # rest) =
     bindR (map_err (\<lambda>e. SigningError (''Invalid header name from signing: '' @ e)) (h_name H name)) (\<lambda>header_name.
     bindR (map_err (\<lambda>e. SigningError (''Invalid header value from signing: '' @ e)) (h_value H v)) (\<lambda>header_value.
       apply_instructions H (set_header H request header_name header_value) rest))"

definition sigv4_process :: "sigv4_lib \<Rightarrow> 'h header_lib \<Rightarrow> Sigv4Processor \<Rightarrow> ('h, 'b) request \<Rightarrow> TokenPayload \<Rightarrow>
    ('h, 'b) request tresult" where
  "sigv4_process V H self request payload =
     bindR (ok_or (header_str H request ''authorization'')
              (InvalidPayload ''SigV4 processor requires Authorization header'')) (\<lambda>auth_header.
     if \<not> starts_with ''AWS4-HMAC-SHA256'' auth_header
     then Err (InvalidPayload ''Authorization header is not AWS SigV4 format'')
     else
     bindR (ok_or (extract_credential_scope auth_header)
              (InvalidPayload ''Failed to parse credential scope'')) (\<lambda>scope.
     bindR (ok_or (extract_signed_headers auth_header)
              (InvalidPayload ''Failed to parse signed headers'')) (\<lambda>signed_headers.
     bindR (ok_or (header_str H request ''x-amz-date'')
              (InvalidPayload ''SigV4 processor requires X-Amz-Date header'')) (\<lambda>amz_date.
     bindR (ok_or (parse_amz_date V amz_date)
              (InvalidPayload (''Failed to parse X-Amz-Date: '' @ amz_date))) (\<lambda>signing_time.
     let content_sha256 = header_str H request ''x-amz-content-sha256'';
         request = request\<lparr>rq_headers := h_remove H (rq_headers request) ''x-tokenizer-token''\<rparr>;
         params = \<lparr>sp_access_key = sc_access_key self, sp_secret_key = tp_secret payload,
                   sp_region = cs_region scope, sp_name = cs_service scope, sp_time = signing_time\<rparr>;
         signable = \<lparr>sr_method = rq_method request, sr_uri = sv_uri_to_string V (rq_uri request),
                     sr_headers = headers_to_sign H request signed_headers,
                     sr_body = signable_body content_sha256\<rparr>
     in
     bindR (map_err (\<lambda>e. SigningError (''Failed to build signing params: '' @ e)) (sv_build_params V params)) (\<lambda>_.
     bindR (map_err (\<lambda>e. SigningError (''Failed to create signable request: '' @ e)) (sv_signable V signable)) (\<lambda>_.
     bindR (map_err (\<lambda>e. SigningError (''Failed to sign request: '' @ e)) (sv_sign V signable params)) (\<lambda>instructions.
       apply_instructions H (request\<lparr>rq_headers := h_remove H (rq_headers request) ''authorization''\<rparr>)
         instructions))))))))"

section \<open>Dispatch (mod.rs)\<close>

datatype Processor =
    Inject InjectProcessor
  | Hmac HmacProcessor
  | OAuth OAuthProcessor
  | InjectBody InjectBodyProcessor
  | Sigv4 Sigv4Processor
  | Multi "Processor list"

text \<open>\<open>Processor::process\<close>; \<open>process_all\<close> is the loop of the \<open>Multi\<close> arm.\<close>

fun process :: "crypto_lib \<Rightarrow> sigv4_lib \<Rightarrow> 'h header_lib \<Rightarrow> Processor \<Rightarrow> ('h, 'b) request \<Rightarrow> TokenPayload \<Rightarrow> u64 \<Rightarrow>
    ('h, 'b) request tresult"
  and process_all :: "crypto_lib \<Rightarrow> sigv4_lib \<Rightarrow> 'h header_lib \<Rightarrow> Processor list \<Rightarrow> ('h, 'b) request \<Rightarrow>
    TokenPayload \<Rightarrow> u64 \<Rightarrow> ('h, 'b) request tresult" where
  "process C V H (Inject p) request payload now = inject_process H p request payload"
| "process C V H (Hmac p) request payload now =
     (if hc_sign_body p then Ok request else hmac_process C H p request payload now)"
| "process C V H (OAuth p) request payload now = oauth_process H p request payload now"
| "process C V H (Sigv4 p) request payload now = sigv4_process V H p request payload"
| "process C V H (InjectBody p) request payload now = Ok request"
| "process C V H (Multi processors) request payload now = process_all C V H processors request payload now"
| "process_all C V H [] request payload now = Ok request"
| "process_all C V H (p # ps) request payload now =
     bindR (process C V H p request payload now) (\<lambda>req. process_all C V H ps req payload now)"

fun is_body_processor :: "Processor \<Rightarrow> bool" where
  "is_body_processor (InjectBody p) = True"
| "is_body_processor (Hmac p) = hc_sign_body p"
| "is_body_processor (Multi processors) = list_ex is_body_processor processors"
| "is_body_processor _ = False"

text \<open>The first loop of the \<open>Multi\<close> arm of \<open>process_body\<close>, and the arm that only reads the body.\<close>

fun header_phase :: "crypto_lib \<Rightarrow> sigv4_lib \<Rightarrow> 'h header_lib \<Rightarrow> Processor list \<Rightarrow> ('h, 'b) request \<Rightarrow>
    TokenPayload \<Rightarrow> u64 \<Rightarrow> ('h, 'b) request tresult" where
  "header_phase C V H [] req payload now = Ok req"
| "header_phase C V H (p # ps) req payload now =
     bindR (if \<not> is_body_processor p then process C V H p req payload now else Ok req)
       (\<lambda>req. header_phase C V H ps req payload now)"

definition collect_unchanged :: "('b \<Rightarrow> (string, bytes) result) \<Rightarrow> ('h, 'b) request \<Rightarrow> ('h, bytes) request tresult" where
  "collect_unchanged collect request =
     bindR (map_err (\<lambda>e. HttpError (''failed to collect body: '' @ e)) (collect (rq_body request)))
       (\<lambda>body_bytes. Ok (with_body request body_bytes))"

fun process_body :: "crypto_lib \<Rightarrow> sigv4_lib \<Rightarrow> 'h header_lib \<Rightarrow> ('b \<Rightarrow> (string, bytes) result) \<Rightarrow> Processor \<Rightarrow>
    ('h, 'b) request \<Rightarrow> TokenPayload \<Rightarrow> u64 \<Rightarrow> ('h, bytes) request tresult option"
  and first_body :: "crypto_lib \<Rightarrow> sigv4_lib \<Rightarrow> 'h header_lib \<Rightarrow> ('b \<Rightarrow> (string, bytes) result) \<Rightarrow> Processor list \<Rightarrow>
    ('h, 'b) request \<Rightarrow> TokenPayload \<Rightarrow> u64 \<Rightarrow> ('h, bytes) request tresult option" where
  "process_body C V H collect (InjectBody p) request payload now =
     inject_body_process H collect p request (tp_secret payload)"
| "process_body C V H collect (Hmac p) request payload now =
     (if hc_sign_body p then Some (process_body_signing C H collect p request payload now)
      else Some (collect_unchanged collect request))"
| "process_body C V H collect (Multi processors) request payload now =
     (case header_phase C V H processors request payload now of
        Inl e \<Rightarrow> Some (Err e)
      | Inr req \<Rightarrow> first_body C V H collect processors req payload now)"
| "process_body C V H collect p request payload now = Some (collect_unchanged collect request)"
| "first_body C V H collect [] req payload now = Some (collect_unchanged collect req)"
| "first_body C V H collect (p # ps) req payload now =
     (if is_body_processor p then process_body C V H collect p req payload now
      else first_body C V H collect ps req payload now)"

fun body_config :: "Processor \<Rightarrow> InjectBodyConfig option" and
  body_config_list :: "Processor list \<Rightarrow> InjectBodyConfig option" where
  "body_config (InjectBody p) = Some p"
| "body_config (Multi processors) = body_config_list processors"
| "body_config _ = None"
| "body_config_list [] = None"
| "body_config_list (p # ps) = (case body_config p of Some c \<Rightarrow> Some c | None \<Rightarrow> body_config_list ps)"

fun create_processor :: "ProcessorConfig \<Rightarrow> Processor" where
  "create_processor (PcInject c) = Inject c"
| "create_processor (PcInjectHmac c) = Hmac c"
| "create_processor (PcOAuth c) = OAuth (OAuthProcessor_new c)"
| "create_processor (PcInjectBody c) = InjectBody c"
| "create_processor (PcSigv4 c) = Sigv4 c"
| "create_processor (PcMulti ps) = Multi (map create_processor ps)"

definition validate_processor_config :: "ProcessorConfig \<Rightarrow> unit tresult" where
  "validate_processor_config config =
     (case config of PcMulti ps \<Rightarrow> map_err InvalidPayload (multi_validate ps) | _ \<Rightarrow> Ok ())"

section \<open>Lemmas on placeholder replacement\<close>

text \<open>The reference: replace at every occurrence from the left, by recursion on the rest of the body.\<close>

function replace_all :: "bytes \<Rightarrow> bytes \<Rightarrow> bytes \<Rightarrow> bytes" where
  "replace_all p r [] = []"
| "replace_all p r (x # xs) =
     (if p \<noteq> [] \<and> starts_with p (x # xs) then r @ replace_all p r (drop (length p) (x # xs))
      else x # replace_all p r xs)"
  by pat_completeness auto
termination
  by (relation "measure (\<lambda>(p, r, b). length b)") (auto simp: length_greater_0_conv [symmetric] simp del: length_greater_0_conv)

lemma replace_loop_refines:
  assumes "p \<noteq> []"
  shows "replace_loop p r body i acc = Some (acc @ replace_all p r (drop i body))"
proof (induction "length body - i" arbitrary: i acc rule: less_induct)
  case less
  show ?case
  proof (cases "i < length body")
    case True
    then have d: "drop i body = body ! i # drop (Suc i) body" by (rule Cons_nth_drop_Suc [symmetric])
    show ?thesis
    proof (cases "starts_with p (drop i body)")
      case t: True
      have "replace_loop p r body i acc = replace_loop p r body (i + length p) (acc @ r)"
        using True t by (simp add: replace_loop.simps [of p r body i])
      also have "\<dots> = Some ((acc @ r) @ replace_all p r (drop (i + length p) body))"
        by (rule less) (use assms True in \<open>simp add: diff_less_mono2\<close>)
      finally show ?thesis
        using t assms d by (simp add: add.commute [of i] drop_drop [symmetric] del: drop_drop)
    next
      case f: False
      have "replace_loop p r body i acc = replace_loop p r body (i + 1) (acc @ [body ! i])"
        using True f by (simp add: replace_loop.simps [of p r body i])
      also have "\<dots> = Some ((acc @ [body ! i]) @ replace_all p r (drop (i + 1) body))"
        by (rule less) (use True in auto)
      finally show ?thesis using f d by simp
    qed
  next
    case False
    then show ?thesis by (simp add: replace_loop.simps)
  qed
qed

lemma replace_loop_empty_diverges:
  assumes "i < length body"
  shows "replace_loop [] r body i acc = None"
proof -
  have "p = [] \<longrightarrow> \<not> i < length body" if "replace_loop p r body i acc = Some out" for p r body i acc out
    by (rule replace_loop.raw_induct [of "\<lambda>p r body i acc out. p = [] \<longrightarrow> \<not> i < length body", OF _ that])
       (auto split: if_splits)
  with assms show ?thesis by fastforce
qed

lemma replace_all_absent: "\<not> sublist p body \<Longrightarrow> p \<noteq> [] \<Longrightarrow> replace_all p r body = body"
proof (induction p r body rule: replace_all.induct)
  case (2 p r x xs)
  have "\<not> starts_with p (x # xs)" using "2.prems" by (metis starts_with_iff prefixI prefix_imp_sublist)
  moreover have "\<not> sublist p xs" using "2.prems"(1) by (auto simp: sublist_Cons_right)
  ultimately show ?case using 2 by simp
qed simp

lemma replace_placeholder_eq:
  "replace_placeholder c body secret =
     (if ib_placeholder c = [] \<and> body \<noteq> [] then None
      else Some (replace_all (as_bytes (ib_placeholder c)) (as_bytes secret) body))"
proof -
  have e: "as_bytes s = [] \<longleftrightarrow> s = []" "as_bytes [] = []" for s by (simp_all add: as_bytes_def)
  show ?thesis
    by (auto simp: replace_placeholder_def Let_def contains_bytes_def any_window_iff_sublist e
        replace_loop_refines replace_loop_empty_diverges replace_loop.simps [of "[]" _ "[]"] replace_all_absent)
qed

text \<open>A list of segments written with a separator between them.\<close>

fun join_with :: "'a list \<Rightarrow> 'a list list \<Rightarrow> 'a list" where
  "join_with sep [] = []"
| "join_with sep [s] = s"
| "join_with sep (s # t # ts) = s @ sep @ join_with sep (t # ts)"

lemma join_with_Cons: "ts \<noteq> [] \<Longrightarrow> join_with sep (s # ts) = s @ sep @ join_with sep ts"
  by (cases ts) auto

lemma join_with_extend: "join_with sep ((x # s) # ts) = x # join_with sep (s # ts)"
  by (cases ts) auto

lemma starts_with_join: "starts_with p (join_with p (s # ts)) \<or> \<not> prefix p s"
  by (cases ts) (auto simp: starts_with_iff prefix_def)

lemma replace_all_segments:
  "p \<noteq> [] \<Longrightarrow> \<exists>segs. segs \<noteq> [] \<and> body = join_with p segs \<and> replace_all p r body = join_with r segs \<and>
     (\<forall>s \<in> set segs. \<not> sublist p s)"
proof (induction p r body rule: replace_all.induct)
  case (1 p r)
  then show ?case by (intro exI [of _ "[[]]"]) simp
next
  case (2 p r x xs)
  show ?case
  proof (cases "starts_with p (x # xs)")
    case True
    with "2.IH"(1) "2.prems" obtain segs where segs: "segs \<noteq> []"
      "drop (length p) (x # xs) = join_with p segs"
      "replace_all p r (drop (length p) (x # xs)) = join_with r segs" "\<forall>s \<in> set segs. \<not> sublist p s" by blast
    have "x # xs = p @ join_with p segs" using True segs(2) by (auto simp: starts_with_iff)
    moreover have "replace_all p r (x # xs) = r @ join_with r segs" using True "2.prems" segs(3) by simp
    ultimately show ?thesis
      using segs "2.prems" by (intro exI [of _ "[] # segs"]) (simp add: join_with_Cons)
  next
    case False
    with "2.IH"(2) "2.prems" obtain s ts where segs: "xs = join_with p (s # ts)"
      "replace_all p r xs = join_with r (s # ts)" "\<forall>s \<in> set (s # ts). \<not> sublist p s"
      by (metis list.exhaust)
    have "\<not> prefix p (x # s)"
      using starts_with_join [of p "x # s" ts] False segs(1) by (simp add: join_with_extend)
    then have "\<not> sublist p (x # s)" using segs(3) by (simp add: sublist_Cons_right)
    with segs False show ?thesis
      by (intro exI [of _ "(x # s) # ts"]) (simp add: join_with_extend)
  qed
qed

section \<open>Lemmas on headers and dispatch\<close>

text \<open>A step that changes the headers and nothing else.\<close>

definition only_headers :: "('h, 'b) request \<Rightarrow> ('h, 'b) request \<Rightarrow> bool" where
  "only_headers r r' \<longleftrightarrow> r' = r\<lparr>rq_headers := rq_headers r'\<rparr>"

lemma only_headers_refl [simp]: "only_headers r r"
  by (simp add: only_headers_def)

lemma only_headers_update [simp]: "only_headers r (r'\<lparr>rq_headers := h\<rparr>) \<longleftrightarrow> only_headers r r'"
  by (cases r; cases r') (simp add: only_headers_def)

lemma only_headers_set [simp]: "only_headers r (set_header H r' n v) \<longleftrightarrow> only_headers r r'"
  by (simp add: set_header_def)

lemma only_headers_trans: "only_headers r r' \<Longrightarrow> only_headers r' r'' \<Longrightarrow> only_headers r r''"
  by (cases r; cases r'; cases r'') (simp add: only_headers_def)

lemma apply_instructions_only_headers: "apply_instructions H r is = Ok r' \<Longrightarrow> only_headers r r'"
proof (induction H r "is" rule: apply_instructions.induct)
  case (2 H request name v rest)
  then obtain n w where "apply_instructions H (set_header H request n w) rest = Ok r'"
    and "only_headers (set_header H request n w) r'" by auto
  then show ?case using only_headers_set only_headers_trans only_headers_refl by metis
qed simp

lemma sigv4_only_headers: "sigv4_process V H self r payload = Ok r' \<Longrightarrow> only_headers r r'"
  by (auto simp: sigv4_process_def Let_def split: if_splits dest!: apply_instructions_only_headers
      elim: only_headers_trans [rotated])

lemma process_only_headers:
  "process C V H p r payload now = Ok r' \<Longrightarrow> only_headers r r'"
  "process_all C V H ps r payload now = Ok r' \<Longrightarrow> only_headers r r'"
proof (induction C V H p r payload now and C V H ps r payload now arbitrary: r' and r' rule: process_process_all.induct)
  case (8 C V H p ps request payload now)
  then show ?case by (auto intro: only_headers_trans)
qed (auto simp: inject_process_def hmac_process_def add_timestamp_def add_signature_def oauth_process_def
    sigv4_only_headers split: if_splits option.splits)

lemma is_body_processor_create [simp]: "is_body_processor (create_processor c) = config_is_body_processor c"
  by (induction c rule: config_is_body_processor.induct) (auto simp: list_ex_iff)

lemma header_phase_eq:
  "header_phase C V H ps r payload now = process_all C V H (filter (Not \<circ> is_body_processor) ps) r payload now"
  by (induction ps arbitrary: r) (auto simp: bindR_def split: sum.splits)

lemma first_body_eq:
  "first_body C V H collect ps r payload now =
     (case filter is_body_processor ps of
        [] \<Rightarrow> Some (collect_unchanged collect r)
      | p # _ \<Rightarrow> process_body C V H collect p r payload now)"
  by (induction ps arbitrary: r) (auto split: list.splits)

lemma add_signed_headers_cong:
  "(\<forall>n \<in> set names. h_get H hs n = h_get H hs' n) \<Longrightarrow>
     add_signed_headers H hs names b = add_signed_headers H hs' names b"
  by (induction names arbitrary: b) auto

lemma canonical_after_insert:
  assumes "header_laws H" and "\<forall>n \<in> set (hc_signed_headers self). \<not> eq_ignore_ascii_case m n"
  shows "canonical_builder H self (set_header H r m v) = canonical_builder H self r"
  using assms
  by (auto simp: canonical_builder_def set_header_def Let_def header_lawsD(1) intro!: add_signed_headers_cong
      split: option.splits)

text \<open>What a signing step leaves: the signature it computed, readable under the configured name.\<close>

lemma add_signature_get:
  assumes "header_laws H" and "add_signature H self r sig = Ok r'"
  shows "h_get H (rq_headers r') (hc_signature_header self) = Some sig"
    and "\<exists>m v. r' = set_header H r m v \<and> eq_ignore_ascii_case (hc_signature_header self) m"
  using assms(2)
  by (auto simp: add_signature_def set_header_def header_lawsD(1) [OF assms(1)] eq_ignore_ascii_case_sym
      dest!: header_lawsD(5,6) [OF assms(1)])

lemma canonical_after_signature:
  assumes "header_laws H" and "add_signature H self r sig = Ok r'"
    and "\<forall>n \<in> set (hc_signed_headers self). \<not> eq_ignore_ascii_case (hc_signature_header self) n"
  shows "canonical_builder H self r' = canonical_builder H self r"
proof -
  obtain m v where m: "r' = set_header H r m v" "eq_ignore_ascii_case (hc_signature_header self) m"
    using add_signature_get(2) [OF assms(1,2)] by blast
  have "\<forall>n \<in> set (hc_signed_headers self). \<not> eq_ignore_ascii_case m n"
    using assms(3) m(2) by (auto simp: eq_ignore_ascii_case_def)
  then show ?thesis unfolding m(1) by (rule canonical_after_insert [OF assms(1)])
qed

lemma hmac_header_signature_verifies:
  assumes "header_laws H" and "hex_laws C" and "hmac_process C H self r payload now = Ok r'"
    and "\<forall>n \<in> set (hc_signed_headers self). \<not> eq_ignore_ascii_case (hc_signature_header self) n"
  shows "\<exists>sig. h_get H (rq_headers r') (hc_signature_header self) = Some sig \<and>
     verify_hex C (hmac_signer self payload) (as_bytes (build_canonical_request H self r')) sig = Ok True"
proof -
  from assms(3) obtain q sig where q: "sign_hex C (hmac_signer self payload) (as_bytes (build_canonical_request H self q)) = Ok sig"
    "add_signature H self q sig = Ok r'" by (auto simp: hmac_process_def)
  show ?thesis
    using add_signature_get(1) [OF assms(1) q(2)] verify_hex_sign [OF assms(2) q(1)]
      canonical_after_signature [OF assms(1) q(2) assms(4)]
    by (simp add: build_canonical_request_def)
qed

section \<open>Properties\<close>

text \<open>
  Property C20. Placeholder replacement returns for every body exactly when the placeholder is not empty;
  with an empty placeholder the loop does not end on any body that is not empty, and no validation
  refuses such a configuration.
\<close>

theorem replace_placeholder_terminates:
  "(replace_placeholder c body secret = None \<longleftrightarrow> ib_placeholder c = [] \<and> body \<noteq> []) \<and>
   validate_processor_config (PcInjectBody c) = Ok ()"
  by (auto simp: replace_placeholder_eq validate_processor_config_def)

text \<open>
  Property C21. With a placeholder, replacement rewrites the body at its occurrences and nowhere else: the
  body is a sequence of segments free of the placeholder, joined by the placeholder; the result is the
  same segments, joined by the secret.
\<close>

theorem replace_placeholder_exact:
  assumes "ib_placeholder c \<noteq> []"
  shows "\<exists>segs. body = join_with (as_bytes (ib_placeholder c)) segs \<and>
     (\<forall>s \<in> set segs. \<not> sublist (as_bytes (ib_placeholder c)) s) \<and>
     replace_placeholder c body secret = Some (join_with (as_bytes secret) segs)"
proof -
  have "as_bytes (ib_placeholder c) \<noteq> []" using assms by (simp add: as_bytes_def)
  from replace_all_segments [OF this] assms show ?thesis by (metis (lifting) replace_placeholder_eq)
qed

theorem replace_placeholder_exact_witness:
  "\<exists>segs. as_bytes ''a{}b'' = join_with (as_bytes ''{}'') segs \<and> (\<forall>s \<in> set segs. \<not> sublist (as_bytes ''{}'') s) \<and>
     replace_placeholder (InjectBodyConfig_new ''{}'') (as_bytes ''a{}b'') ''xyz'' = Some (join_with (as_bytes ''xyz'') segs)"
  using replace_placeholder_exact [of "InjectBodyConfig_new ''{}''" "as_bytes ''a{}b''" "''xyz''"]
  by (simp add: InjectBodyConfig_new_def)

text \<open>
  Property C23. The signature that a body-signing processor puts into the request verifies, under the
  secret of the token, against the canonical form of the very request that is sent, body hash
  included, as long as the signature header is not itself among the signed headers; and the body is
  the one that was read.
\<close>

theorem body_signature_verifies:
  assumes "header_laws H" and "hex_laws C" and "hc_sign_body self"
    and "process_body C V H collect (Hmac self) request payload now = Some (Ok request')"
    and "\<forall>n \<in> set (hc_signed_headers self). \<not> eq_ignore_ascii_case (hc_signature_header self) n"
  shows "collect (rq_body request) = Ok (rq_body request') \<and>
    (\<exists>sig. h_get H (rq_headers request') (hc_signature_header self) = Some sig \<and>
      verify_hex C (hmac_signer self payload)
        (as_bytes (build_canonical_request_with_body C H self request' (rq_body request'))) sig = Ok True)"
proof -
  from assms(3,4) obtain body parts sig where
    steps: "collect (rq_body request) = Ok body" "add_timestamp H self (with_body request body) now = Ok parts"
      "sign_hex C (hmac_signer self payload) (as_bytes (build_canonical_request_with_body C H self parts body)) = Ok sig"
      "add_signature H self parts sig = Ok request'"
    by (auto simp: process_body_signing_def)
  have "rq_body parts = body"
    using steps(2) by (auto simp: add_timestamp_def with_body_def set_header_def split: option.splits)
  moreover have "rq_body request' = rq_body parts"
    using add_signature_get(2) [OF assms(1) steps(4)] by (auto simp: set_header_def)
  moreover note canonical_after_signature [OF assms(1) steps(4) assms(5)]
  ultimately show ?thesis
    using steps add_signature_get(1) [OF assms(1) steps(4)] verify_hex_sign [OF assms(2) steps(3)]
    by (auto simp: build_canonical_request_with_body_def)
qed

definition short_mac :: crypto_lib where
  "short_mac = plain_crypto\<lparr>hmac_sha256 := (\<lambda>k m. Ok k)\<rparr>"

text \<open>A signer that signs nothing, and knows one date.\<close>

definition plain_sigv4 :: sigv4_lib where
  "plain_sigv4 = \<lparr>sv_parse_date = (\<lambda>s. if s = ''20130524T000000Z'' then Some 1369353600 else None),
     sv_uri_to_string = u_path, sv_build_params = (\<lambda>_. Ok ()), sv_signable = (\<lambda>_. Ok ()),
     sv_sign = (\<lambda>r p. Ok [(''authorization'', sp_access_key p)])\<rparr>"

definition signing_config :: HmacConfig where
  "signing_config = HmacConfig_default\<lparr>hc_timestamp_header := None\<rparr>"

theorem body_signature_verifies_witness:
  "\<exists>request'. process_body short_mac plain_sigv4 assoc_headers (\<lambda>_. Ok [1, 2]) (Hmac signing_config)
       (bearer_request ''x'') sample_payload 0 = Some (Ok request') \<and> rq_body request' = [1, 2]"
proof -
  obtain r' where r': "process_body short_mac plain_sigv4 assoc_headers (\<lambda>_. Ok [1, 2]) (Hmac signing_config)
       (bearer_request ''x'') sample_payload 0 = Some (Ok r')"
    by (simp add: signing_config_def HmacConfig_default_def process_body_signing_def add_timestamp_def
        sign_hex_def sign_def compute_signature_def hmac_signer_def RequestSigner_new_def short_mac_def
        plain_crypto_def signature_to_hex_def add_signature_def assoc_headers_def sample_payload_def
        b_expires_at_def b_allowed_host_def payload_builder_def visible_ascii_def)
  have laws: "hex_laws short_mac" by (simp add: hex_laws_def short_mac_def plain_crypto_def)
  have c: "hc_sign_body signing_config"
    "\<forall>n \<in> set (hc_signed_headers signing_config). \<not> eq_ignore_ascii_case (hc_signature_header signing_config) n"
    by (simp_all add: signing_config_def HmacConfig_default_def eq_ignore_ascii_case_def to_lower_def)
  from body_signature_verifies [OF assoc_headers_laws laws c(1) r' c(2)] r' show ?thesis by auto
qed

text \<open>
  Property C25. The header phase of every processor, also of a list of them, changes headers only: the
  method, the target, the extensions and the body of the request are the ones it was given.
\<close>

theorem processors_change_headers_only:
  assumes "process C V H p request payload now = Ok request'"
  shows "only_headers request request'"
  using assms by (rule process_only_headers(1))

text \<open>
  Property C24. For a configuration that passes validation, the body phase of a list of processors is:
  first every header processor in its order, then the one body processor, if there is one, on their
  result, and otherwise the body unchanged. An error of a header processor ends it.
\<close>

theorem multi_body_phase:
  assumes "validate_processor_config (PcMulti cs) = Ok ()"
  shows "process_body C V H collect (create_processor (PcMulti cs)) request payload now =
    (case process_all C V H (map create_processor (filter (Not \<circ> config_is_body_processor) cs)) request payload now of
       Inl e \<Rightarrow> Some (Err e)
     | Inr req \<Rightarrow>
         (case filter config_is_body_processor cs of
            [c] \<Rightarrow> process_body C V H collect (create_processor c) req payload now
          | _ \<Rightarrow> Some (collect_unchanged collect req)))"
proof -
  have "length (filter config_is_body_processor cs) \<le> 1"
    using assms by (simp add: validate_processor_config_def multi_validate_Ok_iff)
  then have l: "filter config_is_body_processor cs = [] \<or> (\<exists>c. filter config_is_body_processor cs = [c])"
    by (cases "filter config_is_body_processor cs") auto
  have f: "filter is_body_processor (map create_processor cs) = map create_processor (filter config_is_body_processor cs)"
    "filter (Not \<circ> is_body_processor) (map create_processor cs) =
       map create_processor (filter (Not \<circ> config_is_body_processor) cs)"
    by (simp_all add: filter_map o_def)
  show ?thesis using l by (auto simp: header_phase_eq first_body_eq f split: sum.split)
qed

theorem multi_body_phase_witness:
  "let cs = [PcInjectHmac HmacConfig_default, PcInject (InjectConfig_raw ''x-key'')];
       request = bearer_request ''x'' in
   process_body plain_crypto plain_sigv4 assoc_headers (\<lambda>_. Ok [1]) (create_processor (PcMulti cs)) request sample_payload 0 =
     (case process plain_crypto plain_sigv4 assoc_headers (Inject (InjectConfig_raw ''x-key'')) request sample_payload 0 of
        Inl e \<Rightarrow> Some (Err e)
      | Inr req \<Rightarrow> process_body plain_crypto plain_sigv4 assoc_headers (\<lambda>_. Ok [1]) (Hmac HmacConfig_default) req sample_payload 0)"
proof -
  have v: "validate_processor_config (PcMulti [PcInjectHmac HmacConfig_default, PcInject (InjectConfig_raw ''x-key'')]) = Ok ()"
    by (simp add: validate_processor_config_def multi_validate_Ok_iff)
  show ?thesis unfolding Let_def multi_body_phase [OF v]
    by (simp add: HmacConfig_default_def bindR_def split: sum.split)
qed

theorem processors_change_headers_only_witness:
  "\<exists>r. process plain_crypto plain_sigv4 assoc_headers (Inject (InjectConfig_bearer ''x-key'')) (bearer_request ''x'')
     sample_payload 0 = Ok r \<and> only_headers (bearer_request ''x'') r"
proof -
  obtain r where r: "process plain_crypto plain_sigv4 assoc_headers (Inject (InjectConfig_bearer ''x-key''))
     (bearer_request ''x'') sample_payload 0 = Ok r"
    by (simp add: inject_process_def assoc_headers_def InjectConfig_bearer_def format_value_def
        sample_payload_def b_expires_at_def b_allowed_host_def payload_builder_def visible_ascii_def)
  from processors_change_headers_only [OF r] r show ?thesis by blast
qed

end
