(* ===== verification/Admission.thy ===== *)
theory Admission
  imports Processors Host_Policy Nonce Response_Scan
begin

text \<open>
  The admission pipeline, \<open>crates/icebreaker-proxy/src/admission.rs\<close>. The libraries are bundled in
  \<open>admission_libs\<close>; the nonce store is any type \<open>'s\<close> with its \<open>check_and_record\<close> as the argument
  \<open>chk\<close> (the source has a trait object), threaded through the pipeline. Each reading of a clock in
  one admission is a field of \<open>admission_clock\<close>, in the order of the calls. A step returns the metrics it
  records and its result; a panic of the store ends the admission.
\<close>

section \<open>Libraries, clocks and metrics\<close>

record 'h admission_libs =
  al_crypto :: crypto_lib
  al_base64 :: base64_lib
  al_token_serde :: "SealedToken serde_lib"
  al_payload_serde :: "TokenPayload serde_lib"
  al_headers :: "'h header_lib"
  al_regex :: regex_lib
  al_sigv4 :: sigv4_lib
  al_encoders :: encoder_lib

record admission_clock =
  ck_unseal :: u64
  ck_ttl :: u64
  ck_mono :: instant
  ck_process :: u64

type_synonym 'a recorded = "metric list \<times> 'a tresult"

text \<open>\<open>?\<close> on a step that records metrics, and a result without metrics.\<close>

definition bindW :: "'a recorded \<Rightarrow> ('a \<Rightarrow> 'b recorded) \<Rightarrow> 'b recorded" where
  "bindW r k = (case r of (w, Inl e) \<Rightarrow> (w, Inl e) | (w, Inr x) \<Rightarrow> (case k x of (w', y) \<Rightarrow> (w @ w', y)))"

definition silent :: "'a tresult \<Rightarrow> 'a recorded" where
  "silent r = ([], r)"

text \<open>An error records its metrics first; a success records nothing.\<close>

definition or_record :: "'a tresult \<Rightarrow> (TokenizerError \<Rightarrow> metric list) \<Rightarrow> 'a recorded" where
  "or_record r ms = (case r of Inl e \<Rightarrow> (ms e, Inl e) | Inr x \<Rightarrow> ([], Inr x))"

lemma bindW_simps [simp]:
  "bindW (w, Inl e) k = (w, Inl e)" "bindW (w, Inr x) k = (w @ fst (k x), snd (k x))"
  by (simp_all add: bindW_def split: prod.split)

lemma bindW_eq_Inr: "snd (bindW r k) = Inr y \<longleftrightarrow> (\<exists>x. snd r = Inr x \<and> snd (k x) = Inr y)"
  by (cases r; cases "snd r") (auto simp: bindW_def split: prod.split)

lemma snd_silent [simp]: "snd (silent r) = r"
  by (simp add: silent_def)

lemma snd_or_record [simp]: "snd (or_record r ms) = r"
  by (cases r) (simp_all add: or_record_def)

section \<open>The pipeline\<close>

definition TOKEN_HEADER :: string where
  "TOKEN_HEADER = ''X-Tokenizer-Token''"

text \<open>Addition on \<open>u64\<close> wraps in a release build.\<close>

definition ttl_from_expiry :: "u64 option \<Rightarrow> u64 \<Rightarrow> ClockSkewConfig \<Rightarrow> u64 \<Rightarrow> duration tresult" where
  "ttl_from_expiry explicit_ttl_seconds expires_at clock_skew now =
     (case explicit_ttl_seconds of
        Some secs \<Rightarrow> Ok (from_secs secs)
      | None \<Rightarrow>
          (case checked_sub (expires_at + tolerance_seconds clock_skew) now of
             Some secs \<Rightarrow> if secs > 0 then Ok (from_secs secs) else Err TokenExpired
           | None \<Rightarrow> Err TokenExpired))"

definition request_authority :: "'h header_lib \<Rightarrow> ('h, 'b) request \<Rightarrow> string option" where
  "request_authority H request =
     (case u_authority (rq_uri request) of
        Some a \<Rightarrow> Some (au_str a)
      | None \<Rightarrow> Option.bind (h_get H (rq_headers request) ''host'') (\<lambda>v. ok (h_to_str H v)))"

record 's TokenAdmission =
  ta_crypto :: TokenCrypto
  ta_response_scan_enabled :: bool
  ta_nonce_store :: "'s option"
  ta_clock_skew :: ClockSkewConfig
  ta_token_optional :: bool
  ta_host_policy :: HostValidationConfig

definition TokenAdmission_new :: "TokenCrypto \<Rightarrow> 's TokenAdmission" where
  "TokenAdmission_new crypto =
     \<lparr>ta_crypto = crypto, ta_response_scan_enabled = True, ta_nonce_store = None,
      ta_clock_skew = ClockSkewConfig_default, ta_token_optional = False,
      ta_host_policy = HostValidationConfig_new\<rparr>"

definition with_response_scan :: "'s TokenAdmission \<Rightarrow> bool \<Rightarrow> 's TokenAdmission" where
  "with_response_scan self enabled = self\<lparr>ta_response_scan_enabled := enabled\<rparr>"

definition with_nonce_store :: "'s TokenAdmission \<Rightarrow> 's \<Rightarrow> 's TokenAdmission" where
  "with_nonce_store self store = self\<lparr>ta_nonce_store := Some store\<rparr>"

definition ta_with_clock_skew :: "'s TokenAdmission \<Rightarrow> ClockSkewConfig \<Rightarrow> 's TokenAdmission" where
  "ta_with_clock_skew self clock_skew = self\<lparr>ta_clock_skew := clock_skew\<rparr>"

definition with_token_optional :: "'s TokenAdmission \<Rightarrow> bool \<Rightarrow> HostValidationConfig \<Rightarrow> 's TokenAdmission" where
  "with_token_optional self token_optional host_policy =
     self\<lparr>ta_token_optional := token_optional, ta_host_policy := host_policy\<rparr>"

definition admit_token_optional :: "'h admission_libs \<Rightarrow> 's TokenAdmission \<Rightarrow> ('h, 'b) request \<Rightarrow> ('h, 'b) request recorded" where
  "admit_token_optional L self request =
     (if \<not> ta_token_optional self
      then ([record_token_validation Missing], Err (InvalidPayload ''missing token header''))
      else bindW ([record_token_validation Skipped], Ok ()) (\<lambda>_.
           bindW (silent (ok_or (request_authority (al_headers L) request)
                    (InvalidPayload ''request has no host in URI or Host header''))) (\<lambda>authority.
           bindW (or_record (policy_validate (ta_host_policy self) authority)
                    (\<lambda>_. [record_token_optional_host_rejection])) (\<lambda>_. silent (Ok request)))))"

definition decrypt :: "'h admission_libs \<Rightarrow> 's TokenAdmission \<Rightarrow> string \<Rightarrow> u64 \<Rightarrow> (SealedToken \<times> TokenPayload) recorded" where
  "decrypt L self token_header now =
     bindW (or_record (from_header (al_base64 L) (al_token_serde L) token_header)
              (\<lambda>_. [record_token_validation Invalid])) (\<lambda>sealed_token.
     bindW (or_record (tc_unseal (al_crypto L) (al_base64 L) (al_payload_serde L) (ta_crypto self) sealed_token now)
              (\<lambda>e. [record_token_validation (if e = TokenExpired then TvExpired else DecryptionFailed)]))
       (\<lambda>payload. silent (Ok (sealed_token, payload))))"

definition target_host :: "'h header_lib \<Rightarrow> ('h, 'b) request \<Rightarrow> string tresult" where
  "target_host H request =
     (case u_authority (rq_uri request) of
        Some authority \<Rightarrow> Ok (au_str authority)
      | None \<Rightarrow>
          (case h_get H (rq_headers request) ''host'' of
             Some header \<Rightarrow> map_err (\<lambda>e. InvalidPayload (''Host header is not valid ASCII: '' @ e)) (h_to_str H header)
           | None \<Rightarrow> Err (InvalidPayload ''request has no host in URI or Host header'')))"

definition validate_request :: "'h admission_libs \<Rightarrow> 's TokenAdmission \<Rightarrow> TokenPayload \<Rightarrow> SealedToken \<Rightarrow>
    ('h, 'b) request \<Rightarrow> unit recorded" where
  "validate_request L self payload sealed_token request =
     (let invalid = (\<lambda>_. [record_token_validation Invalid]);
          hmac_key = ok (api_key_hmac_key (al_crypto L) (ta_crypto self) (st_key_id sealed_token))
      in
      bindW (or_record (validate_auth (al_crypto L) (al_base64 L) (al_headers L) (al_regex L) (tp_auth payload)
               request (rq_ext_tls request) hmac_key) invalid) (\<lambda>_.
      bindW (or_record (target_host (al_headers L) request) invalid) (\<lambda>host.
      bindW (or_record (validate_host (al_regex L) payload host)
               (\<lambda>_. [record_token_validation HostValidationFailed, record_host_rejection host])) (\<lambda>_.
      bindW (or_record (validate_method payload (rq_method request))
               (\<lambda>_. [record_token_validation MethodValidationFailed, record_method_rejection (rq_method request)])) (\<lambda>_.
      bindW (or_record (validate_path (al_regex L) payload (u_path (rq_uri request)))
               (\<lambda>_. [record_token_validation PathValidationFailed, record_path_rejection (u_path (rq_uri request))]))
        (\<lambda>_. silent (Ok ())))))))"

text \<open>The part of \<open>check_replay\<close> before the store: what to ask it, if anything.\<close>

definition replay_query :: "'s TokenAdmission \<Rightarrow> TokenPayload \<Rightarrow> u64 \<Rightarrow>
    ('s \<times> string \<times> u32 option \<times> duration) option recorded" where
  "replay_query self payload now =
     (case tp_replay_protection payload of
        None \<Rightarrow> silent (Ok None)
      | Some replay \<Rightarrow>
          bindW (or_record (ok_or (ta_nonce_store self) ReplayProtectionUnavailable)
                   (\<lambda>_. [record_token_validation TvReplayProtectionUnavailable])) (\<lambda>store.
          bindW (or_record (ok_or (tp_expires_at payload) ReplayProtectionRequiresExpiry)
                   (\<lambda>_. [record_token_validation TvReplayProtectionUnavailable])) (\<lambda>expires_at.
          bindW (silent (ttl_from_expiry (rp_nonce_ttl_seconds replay) expires_at (ta_clock_skew self) now)) (\<lambda>ttl.
            silent (Ok (Some (store, rp_nonce replay, rp_max_uses replay, ttl)))))))"

definition check_replay :: "'s check_fn \<Rightarrow> 's TokenAdmission \<Rightarrow> TokenPayload \<Rightarrow> u64 \<Rightarrow> instant \<Rightarrow>
    (unit recorded \<times> 's TokenAdmission) outcome" where
  "check_replay chk self payload now instant_now =
     (case replay_query self payload now of
        (w, Inl e) \<Rightarrow> Returns ((w, Err e), self)
      | (w, Inr None) \<Rightarrow> Returns ((w, Ok ()), self)
      | (w, Inr (Some (store, nonce, max_uses, ttl))) \<Rightarrow>
          (case chk store nonce max_uses ttl instant_now of
             Panic m \<Rightarrow> Panic m
           | Returns (r, store') \<Rightarrow> Returns
               (case r of
                  Inr (Denied current lim) \<Rightarrow>
                    (w @ [record_replay_attempt], Err (TokenReplayDetected current lim))
                | Inr (Allowed current lim) \<Rightarrow> (w, Ok ())
                | Inl e \<Rightarrow> (w, Err (NonceStoreError (to_string e))),
                self\<lparr>ta_nonce_store := Some store'\<rparr>)))"

definition finalize :: "'h admission_libs \<Rightarrow> 's TokenAdmission \<Rightarrow> ('h, 'b) request \<Rightarrow> TokenPayload \<Rightarrow> u64 \<Rightarrow>
    ('h, 'b) request recorded" where
  "finalize L self request payload now =
     ([record_token_validation Success, record_processor_used (processor_type (tp_processor payload))],
      let request = request\<lparr>rq_headers := h_remove (al_headers L) (rq_headers request) TOKEN_HEADER,
            rq_ext_scheme := Some (unwrap_or (tp_upstream_scheme payload) UpstreamScheme_default)\<rparr>
      in bindR (validate_processor_config (tp_processor payload)) (\<lambda>_.
         bindR (process (al_crypto L) (al_sigv4 L) (al_headers L) (create_processor (tp_processor payload))
                  request payload now) (\<lambda>processed_request.
           Ok (if ta_response_scan_enabled self
               then processed_request\<lparr>rq_ext_patterns := Some (generate_scan_patterns (al_encoders L) (tp_secret payload))\<rparr>
               else processed_request))))"

definition admit :: "'h admission_libs \<Rightarrow> 's check_fn \<Rightarrow> 's TokenAdmission \<Rightarrow> ('h, 'b) request \<Rightarrow> admission_clock \<Rightarrow>
    (('h, 'b) request recorded \<times> 's TokenAdmission) outcome" where
  "admit L chk self request ck =
     (case h_get (al_headers L) (rq_headers request) TOKEN_HEADER of
        None \<Rightarrow> Returns (admit_token_optional L self request, self)
      | Some header \<Rightarrow>
          (case or_record (map_err (\<lambda>e. InvalidPayload (''invalid token header: '' @ e)) (h_to_str (al_headers L) header))
                  (\<lambda>_. [record_token_validation Invalid]) of
             (w, Inl e) \<Rightarrow> Returns ((w, Err e), self)
           | (_, Inr token_header) \<Rightarrow>
          (case bindW (decrypt L self token_header (ck_unseal ck)) (\<lambda>(sealed_token, payload).
                bindW (validate_request L self payload sealed_token request) (\<lambda>_. silent (Ok payload))) of
             (w, Inl e) \<Rightarrow> Returns ((w, Err e), self)
           | (w, Inr payload) \<Rightarrow>
               (case check_replay chk self payload (ck_ttl ck) (ck_mono ck) of
                  Panic m \<Rightarrow> Panic m
                | Returns ((w', Inl e), self') \<Rightarrow> Returns ((w @ w', Err e), self')
                | Returns ((w', Inr _), self') \<Rightarrow>
                    (case finalize L self' request payload (ck_process ck) of
                       (w'', r) \<Rightarrow> Returns ((w @ w' @ w'', r), self'))))))"

section \<open>What an admission has checked\<close>

text \<open>The token of a request, unsealed, and every check of the request against its payload.\<close>

definition presents :: "'h admission_libs \<Rightarrow> 's TokenAdmission \<Rightarrow> ('h, 'b) request \<Rightarrow> u64 \<Rightarrow> SealedToken \<Rightarrow> TokenPayload \<Rightarrow> bool" where
  "presents L self request now token payload \<longleftrightarrow>
     (\<exists>hv s. h_get (al_headers L) (rq_headers request) TOKEN_HEADER = Some hv \<and> h_to_str (al_headers L) hv = Ok s \<and>
        from_header (al_base64 L) (al_token_serde L) s = Ok token) \<and>
     tc_unseal (al_crypto L) (al_base64 L) (al_payload_serde L) (ta_crypto self) token now = Ok payload"

definition request_permitted :: "'h admission_libs \<Rightarrow> 's TokenAdmission \<Rightarrow> ('h, 'b) request \<Rightarrow> SealedToken \<Rightarrow> TokenPayload \<Rightarrow> bool" where
  "request_permitted L self request token payload \<longleftrightarrow>
     auth_shown (al_crypto L) (al_base64 L) (al_headers L) (al_regex L) (tp_auth payload) request (rq_ext_tls request)
       (ok (api_key_hmac_key (al_crypto L) (ta_crypto self) (st_key_id token))) \<and>
     (\<exists>host. target_host (al_headers L) request = Ok host \<and> validate_host (al_regex L) payload host = Ok ()) \<and>
     validate_method payload (rq_method request) = Ok () \<and>
     validate_path (al_regex L) payload (u_path (rq_uri request)) = Ok ()"

text \<open>The store lets the token pass: it has no replay protection, or one more use was recorded.\<close>

definition replay_passed :: "'s check_fn \<Rightarrow> 's TokenAdmission \<Rightarrow> 's TokenAdmission \<Rightarrow> TokenPayload \<Rightarrow> admission_clock \<Rightarrow> bool" where
  "replay_passed chk self self' payload ck \<longleftrightarrow>
     (case tp_replay_protection payload of
        None \<Rightarrow> self' = self
      | Some replay \<Rightarrow>
          (\<exists>store expires_at ttl r store'. ta_nonce_store self = Some store \<and> tp_expires_at payload = Some expires_at \<and>
             ttl_from_expiry (rp_nonce_ttl_seconds replay) expires_at (ta_clock_skew self) (ck_ttl ck) = Ok ttl \<and>
             chk store (rp_nonce replay) (rp_max_uses replay) ttl (ck_mono ck) = Returns (r, store') \<and> allowed_of r \<and>
             self' = self\<lparr>ta_nonce_store := Some store'\<rparr>))"

lemma decrypt_Ok_iff_presents:
  assumes "h_get (al_headers L) (rq_headers request) TOKEN_HEADER = Some hv" and "h_to_str (al_headers L) hv = Ok s"
  shows "snd (decrypt L self s now) = Ok (token, payload) \<longleftrightarrow> presents L self request now token payload"
  using assms by (auto simp: decrypt_def bindW_eq_Inr presents_def)

lemma validate_request_Ok_iff:
  "snd (validate_request L self payload token request) = Ok () \<longleftrightarrow> request_permitted L self request token payload"
  by (auto simp: validate_request_def Let_def bindW_eq_Inr request_permitted_def validate_auth_Ok_iff)

lemma replay_query_Ok:
  "snd (replay_query self payload now) = Ok q \<longleftrightarrow>
     (case tp_replay_protection payload of
        None \<Rightarrow> q = None
      | Some replay \<Rightarrow>
          (\<exists>store expires_at ttl. ta_nonce_store self = Some store \<and> tp_expires_at payload = Some expires_at \<and>
             ttl_from_expiry (rp_nonce_ttl_seconds replay) expires_at (ta_clock_skew self) now = Ok ttl \<and>
             q = Some (store, rp_nonce replay, rp_max_uses replay, ttl)))"
  by (auto simp: replay_query_def bindW_eq_Inr split: option.splits)

lemma check_replay_Ok:
  assumes "check_replay chk self payload (ck_ttl ck) (ck_mono ck) = Returns ((w, Ok u), self')"
  shows "replay_passed chk self self' payload ck"
proof -
  obtain v q where q: "replay_query self payload (ck_ttl ck) = (v, q)" by fastforce
  with assms obtain x where x: "q = Ok x" by (cases q) (auto simp: check_replay_def)
  then have o: "snd (replay_query self payload (ck_ttl ck)) = Ok x" using q by simp
  show ?thesis
    using o assms q x unfolding replay_query_Ok replay_passed_def check_replay_def
    by (auto split: option.splits outcome.splits sum.splits CheckResult.splits)
qed

lemma admit_token_Ok:
  assumes "admit L chk self request ck = Returns ((w, Ok request'), self')"
    and "h_get (al_headers L) (rq_headers request) TOKEN_HEADER = Some hv"
  shows "\<exists>token payload w'. presents L self request (ck_unseal ck) token payload \<and>
      request_permitted L self request token payload \<and> replay_passed chk self self' payload ck \<and>
      finalize L self' request payload (ck_process ck) = (w', Ok request')"
proof -
  from assms obtain s where s: "h_to_str (al_headers L) hv = Ok s"
    by (cases "h_to_str (al_headers L) hv") (auto simp: admit_def or_record_def)
  let ?d = "bindW (decrypt L self s (ck_unseal ck)) (\<lambda>(sealed_token, payload).
              bindW (validate_request L self payload sealed_token request) (\<lambda>_. silent (Ok payload)))"
  obtain v r where d: "?d = (v, r)" by fastforce
  from assms s d obtain payload where r: "r = Ok payload"
    by (cases r) (auto simp: admit_def or_record_def)
  then have "snd ?d = Ok payload" using d by simp
  then obtain token where t: "presents L self request (ck_unseal ck) token payload"
      "request_permitted L self request token payload"
    by (auto simp: bindW_eq_Inr decrypt_Ok_iff_presents [OF assms(2) s] validate_request_Ok_iff [symmetric])
  from assms s d r obtain w1 w2 where "check_replay chk self payload (ck_ttl ck) (ck_mono ck) = Returns ((w1, Ok ()), self')"
    and f: "finalize L self' request payload (ck_process ck) = (w2, Ok request')"
    by (auto simp: admit_def or_record_def split: outcome.splits sum.splits prod.splits)
  with check_replay_Ok t show ?thesis by blast
qed

lemma admit_checked_complete:
  assumes "presents L self request (ck_unseal ck) token payload" and "request_permitted L self request token payload"
    and "check_replay chk self payload (ck_ttl ck) (ck_mono ck) = Returns ((v', Ok ()), self')"
    and "finalize L self' request payload (ck_process ck) = (w, Ok request')"
  shows "\<exists>w. admit L chk self request ck = Returns ((w, Ok request'), self')"
proof -
  from assms(1) obtain hv s where hv: "h_get (al_headers L) (rq_headers request) TOKEN_HEADER = Some hv"
    "h_to_str (al_headers L) hv = Ok s" by (auto simp: presents_def)
  let ?d = "bindW (decrypt L self s (ck_unseal ck)) (\<lambda>(sealed_token, payload).
              bindW (validate_request L self payload sealed_token request) (\<lambda>_. silent (Ok payload)))"
  obtain v r where d: "?d = (v, r)" by fastforce
  moreover have "snd ?d = Ok payload"
    using assms(1,2) by (auto simp: bindW_eq_Inr decrypt_Ok_iff_presents [OF hv] validate_request_Ok_iff)
  ultimately have r: "r = Ok payload" by simp
  with hv d assms(3,4) show ?thesis by (simp add: admit_def or_record_def)
qed

lemma admit_token_complete:
  assumes "presents L self request (ck_unseal ck) token payload" and "request_permitted L self request token payload"
    and "tp_replay_protection payload = None" and "finalize L self request payload (ck_process ck) = (w, Ok request')"
  shows "\<exists>w. admit L chk self request ck = Returns ((w, Ok request'), self)"
proof -
  have "check_replay chk self payload (ck_ttl ck) (ck_mono ck) = Returns (([], Ok ()), self)"
    using assms(3) by (simp add: check_replay_def replay_query_def silent_def)
  from admit_checked_complete [OF assms(1,2) this assms(4)] show ?thesis .
qed

lemma finalize_Ok:
  assumes "header_laws (al_headers L)" and "finalize L self request payload now = (w, Ok request')"
  obtains cleared processed where
    "cleared = request\<lparr>rq_headers := h_remove (al_headers L) (rq_headers request) TOKEN_HEADER,
       rq_ext_scheme := Some (unwrap_or (tp_upstream_scheme payload) UpstreamScheme_default)\<rparr>"
    "h_get (al_headers L) (rq_headers cleared) TOKEN_HEADER = None"
    "validate_processor_config (tp_processor payload) = Ok ()"
    "process (al_crypto L) (al_sigv4 L) (al_headers L) (create_processor (tp_processor payload))
       cleared payload now = Ok processed"
    "request' = (if ta_response_scan_enabled self
       then processed\<lparr>rq_ext_patterns := Some (generate_scan_patterns (al_encoders L) (tp_secret payload))\<rparr>
       else processed)"
  using assms(2) by (auto simp: finalize_def Let_def header_lawsD(2) [OF assms(1)])

text \<open>The request that is forwarded: its target is the one that was checked.\<close>

definition forwards :: "'h admission_libs \<Rightarrow> 's TokenAdmission \<Rightarrow> TokenPayload \<Rightarrow> ('h, 'b) request \<Rightarrow> ('h, 'b) request \<Rightarrow> bool" where
  "forwards L self payload request request' \<longleftrightarrow>
     rq_method request' = rq_method request \<and> rq_uri request' = rq_uri request \<and> rq_body request' = rq_body request \<and>
     rq_ext_scheme request' = Some (unwrap_or (tp_upstream_scheme payload) UpstreamScheme_default) \<and>
     (ta_response_scan_enabled self \<longrightarrow>
        rq_ext_patterns request' = Some (generate_scan_patterns (al_encoders L) (tp_secret payload)))"

lemma finalize_forwards:
  assumes "header_laws (al_headers L)" and "finalize L self request payload now = (w, Ok request')"
  shows "forwards L self payload request request'"
  using assms
proof (rule finalize_Ok)
  fix cleared processed
  assume c: "cleared = request\<lparr>rq_headers := h_remove (al_headers L) (rq_headers request) TOKEN_HEADER,
       rq_ext_scheme := Some (unwrap_or (tp_upstream_scheme payload) UpstreamScheme_default)\<rparr>"
    and p: "process (al_crypto L) (al_sigv4 L) (al_headers L) (create_processor (tp_processor payload))
       cleared payload now = Ok processed"
    and r: "request' = (if ta_response_scan_enabled self
       then processed\<lparr>rq_ext_patterns := Some (generate_scan_patterns (al_encoders L) (tp_secret payload))\<rparr>
       else processed)"
  obtain hs where "processed = cleared\<lparr>rq_headers := hs\<rparr>"
    using process_only_headers(1) [OF p] unfolding only_headers_def by blast
  with c r show ?thesis by (simp add: forwards_def)
qed

section \<open>Runs of admissions\<close>

definition presented :: "'h admission_libs \<Rightarrow> 's TokenAdmission \<Rightarrow> ('h, 'b) request \<Rightarrow> u64 \<Rightarrow> (SealedToken \<times> TokenPayload) option" where
  "presented L self request now =
     Option.bind (h_get (al_headers L) (rq_headers request) TOKEN_HEADER) (\<lambda>hv.
     Option.bind (ok (h_to_str (al_headers L) hv)) (\<lambda>s.
     Option.bind (ok (from_header (al_base64 L) (al_token_serde L) s)) (\<lambda>token.
     map_option (Pair token) (ok (tc_unseal (al_crypto L) (al_base64 L) (al_payload_serde L) (ta_crypto self) token now)))))"

lemma presents_iff: "presents L self request now token payload \<longleftrightarrow> presented L self request now = Some (token, payload)"
  by (auto simp: presents_def presented_def bind_eq_Some_conv)

text \<open>The question an admission asks the store, if it gets that far.\<close>

definition admission_query :: "'h admission_libs \<Rightarrow> 's TokenAdmission \<Rightarrow> ('h, 'b) request \<Rightarrow> admission_clock \<Rightarrow>
    ('s \<times> string \<times> u32 option \<times> duration) option" where
  "admission_query L self request ck =
     (case presented L self request (ck_unseal ck) of
        Some (token, payload) \<Rightarrow>
          if snd (validate_request L self payload token request) = Ok ()
          then Option.bind (ok (snd (replay_query self payload (ck_ttl ck)))) id else None
      | None \<Rightarrow> None)"

lemma admit_run:
  "case admission_query L self request ck of
      None \<Rightarrow> \<exists>x. admit L chk self request ck = Returns (x, self)
    | Some (s, n, mx, ttl) \<Rightarrow>
        (case chk s n mx ttl (ck_mono ck) of
           Panic m \<Rightarrow> admit L chk self request ck = Panic m
         | Returns (r, s') \<Rightarrow> \<exists>w res. admit L chk self request ck = Returns ((w, res), self\<lparr>ta_nonce_store := Some s'\<rparr>) \<and>
             (is_ok res \<longrightarrow> allowed_of r))"
proof (cases "Option.bind (h_get (al_headers L) (rq_headers request) TOKEN_HEADER) (\<lambda>hv. ok (h_to_str (al_headers L) hv))")
  case None
  then show ?thesis
    by (auto simp: admission_query_def presented_def admit_def or_record_def bind_eq_None_conv
        ok_def split: sum.splits option.splits)
next
  case (Some s)
  then obtain hv where hv: "h_get (al_headers L) (rq_headers request) TOKEN_HEADER = Some hv"
    "h_to_str (al_headers L) hv = Ok s" by (auto simp: bind_eq_Some_conv)
  let ?d = "bindW (decrypt L self s (ck_unseal ck)) (\<lambda>(sealed_token, payload).
              bindW (validate_request L self payload sealed_token request) (\<lambda>_. silent (Ok payload)))"
  obtain v r where d: "?d = (v, r)" by fastforce
  have dec: "snd (decrypt L self s (ck_unseal ck)) = Ok (t, p) \<longleftrightarrow> presented L self request (ck_unseal ck) = Some (t, p)"
    for t p using decrypt_Ok_iff_presents [OF hv, of self "ck_unseal ck"] by (simp add: presents_iff)
  have iff: "r = Ok p \<longleftrightarrow> (\<exists>t. presented L self request (ck_unseal ck) = Some (t, p) \<and>
      snd (validate_request L self p t request) = Ok ())" for p
  proof -
    have "r = Ok p \<longleftrightarrow> snd ?d = Ok p" by (simp add: d)
    then show ?thesis by (auto simp: bindW_eq_Inr dec)
  qed
  show ?thesis
  proof (cases r)
    case (Inl e)
    then have "admission_query L self request ck = None"
      using iff by (auto simp: admission_query_def split: option.splits)
    with hv d Inl show ?thesis by (simp add: admit_def or_record_def)
  next
    case (Inr payload)
    then have q: "admission_query L self request ck = Option.bind (ok (snd (replay_query self payload (ck_ttl ck)))) id"
      using iff [of payload] by (auto simp: admission_query_def)
    show ?thesis
      using hv d Inr q
      by (cases "replay_query self payload (ck_ttl ck)")
         (auto simp: admit_def or_record_def check_replay_def
           split: sum.splits option.splits outcome.splits CheckResult.splits prod.splits)
  qed
qed

definition asked :: "'h admission_libs \<Rightarrow> 's TokenAdmission \<Rightarrow> ('h, 'b) request \<Rightarrow> admission_clock \<Rightarrow>
    (string \<times> u32 option \<times> duration) option" where
  "asked L self request ck = map_option snd (admission_query L self request ck)"

lemma replay_query_store: "ta_nonce_store self = Some s \<Longrightarrow> snd (replay_query self payload now) = Ok (Some q) \<Longrightarrow> fst q = s"
  by (auto simp: replay_query_Ok split: option.splits)

lemma admission_query_asked:
  "ta_nonce_store self = Some s \<Longrightarrow> admission_query L self request ck = map_option (Pair s) (asked L self request ck)"
  by (auto simp: asked_def admission_query_def option.map_comp o_def bind_eq_Some_conv split: option.splits
      dest!: replay_query_store intro!: option.expand)

lemma asked_other_store:
  assumes "ta_nonce_store self = Some s"
  shows "asked L (self\<lparr>ta_nonce_store := Some s'\<rparr>) request ck = asked L self request ck"
proof -
  have v: "validate_request L (self\<lparr>ta_nonce_store := Some s'\<rparr>) p t request = validate_request L self p t request" for p t
    by (simp add: validate_request_def)
  have r: "map_option (map_option snd) (ok (snd (replay_query (self\<lparr>ta_nonce_store := Some s'\<rparr>) p now))) =
      map_option (map_option snd) (ok (snd (replay_query self p now)))" for p now
    using assms by (simp add: replay_query_def silent_def or_record_def bindW_def ok_def split: option.split sum.split)
  have b: "map_option f (Option.bind x id) = Option.bind (map_option (map_option f) x) id" for f :: "'x \<Rightarrow> 'y" and x
    by (cases x) simp_all
  show ?thesis
    by (auto simp: asked_def admission_query_def presented_def v b r split: option.splits prod.splits)
qed

text \<open>Admissions and cleanups of the store, in the order in which they reach it.\<close>

datatype ('h, 'b) adm_step = Admit "('h, 'b) request" admission_clock | CleanupAt instant

fun step_time :: "('h, 'b) adm_step \<Rightarrow> instant" where
  "step_time (Admit r ck) = ck_mono ck"
| "step_time (CleanupAt t) = t"

text \<open>How many requests the run admits with a token of nonce \<open>n\<close>.\<close>

fun admitted_uses :: "'h admission_libs \<Rightarrow> 's check_fn \<Rightarrow> ('s \<Rightarrow> instant \<Rightarrow> 's) \<Rightarrow> string \<Rightarrow> 's TokenAdmission \<Rightarrow>
    ('h, 'b) adm_step list \<Rightarrow> nat" where
  "admitted_uses L chk tick n self [] = 0"
| "admitted_uses L chk tick n self (CleanupAt t # es) =
     admitted_uses L chk tick n (self\<lparr>ta_nonce_store := map_option (\<lambda>s. tick s t) (ta_nonce_store self)\<rparr>) es"
| "admitted_uses L chk tick n self (Admit r ck # es) =
     (case admit L chk self r ck of
        Panic _ \<Rightarrow> admitted_uses L chk tick n self es
      | Returns ((w, res), self') \<Rightarrow>
          (if is_ok res \<and> (\<exists>q. asked L self r ck = Some (n, q)) then 1 else 0) + admitted_uses L chk tick n self' es)"

fun store_events :: "'h admission_libs \<Rightarrow> 's TokenAdmission \<Rightarrow> ('h, 'b) adm_step list \<Rightarrow> store_event list" where
  "store_events L self [] = []"
| "store_events L self (CleanupAt t # es) = Tick t # store_events L self es"
| "store_events L self (Admit r ck # es) =
     (case asked L self r ck of
        None \<Rightarrow> store_events L self es
      | Some (n, mx, ttl) \<Rightarrow> Check n mx ttl (ck_mono ck) # store_events L self es)"

lemma store_events_other_store:
  "ta_nonce_store self = Some s \<Longrightarrow> store_events L (self\<lparr>ta_nonce_store := Some s'\<rparr>) es = store_events L self es"
  by (induction L self es rule: store_events.induct) (auto simp: asked_other_store split: option.splits)

text \<open>A run admits no more than its store allows.\<close>

lemma admitted_uses_le:
  "ta_nonce_store self = Some s \<Longrightarrow>
     admitted_uses L chk tick n self es \<le> allowed_count chk tick n s (store_events L self es)"
proof (induction L chk tick n self es arbitrary: s rule: admitted_uses.induct)
  case (2 L chk tick n self t es)
  then show ?case
    using "2.IH" [of "tick s t"] store_events_other_store [OF "2.prems", of L "tick s t" es] by simp
next
  case (3 L chk tick n self r ck es)
  show ?case
  proof (cases "asked L self r ck")
    case None
    then obtain x where "admit L chk self r ck = Returns (x, self)"
      using admit_run [of L chk self r ck] admission_query_asked [OF "3.prems", of L r ck] by auto
    with None 3 show ?thesis by (cases x) auto
  next
    case (Some q)
    obtain n' mx ttl where q: "q = (n', mx, ttl)" by (cases q)
    have aq: "admission_query L self r ck = Some (s, n', mx, ttl)"
      using admission_query_asked [OF "3.prems", of L r ck] Some q by simp
    show ?thesis
    proof (cases "chk s n' mx ttl (ck_mono ck)")
      case (Panic m)
      then have "admit L chk self r ck = Panic m" using admit_run [of L chk self r ck] aq by simp
      with 3 Some q Panic show ?thesis by simp
    next
      case (Returns y)
      then obtain res0 s' where y: "chk s n' mx ttl (ck_mono ck) = Returns (res0, s')" by (cases y) auto
      then obtain w res where a: "admit L chk self r ck = Returns ((w, res), self\<lparr>ta_nonce_store := Some s'\<rparr>)"
        and ok: "is_ok res \<longrightarrow> allowed_of res0"
        using admit_run [of L chk self r ck] aq by auto
      have "admitted_uses L chk tick n (self\<lparr>ta_nonce_store := Some s'\<rparr>) es
          \<le> allowed_count chk tick n s' (store_events L (self\<lparr>ta_nonce_store := Some s'\<rparr>) es)"
        by (rule "3.IH"(2) [OF a]) simp_all
      then have "admitted_uses L chk tick n (self\<lparr>ta_nonce_store := Some s'\<rparr>) es
          \<le> allowed_count chk tick n s' (store_events L self es)"
        by (simp only: store_events_other_store [OF "3.prems"])
      with a y ok Some q show ?thesis by auto
    qed
  qed
qed simp

section \<open>The bound on admissions\<close>

lemma allowed_count_append_other:
  "(\<forall>e \<in> set ys. \<forall>mx ttl now. e \<noteq> Check n mx ttl now) \<Longrightarrow>
     allowed_count chk tick n s (xs @ ys) = allowed_count chk tick n s xs"
proof (induction xs arbitrary: s)
  case Nil
  then have "allowed_count chk tick n s ys = 0"
  proof (induction ys arbitrary: s)
    case (Cons e ys)
    then show ?case by (cases e) (auto split: outcome.split)
  qed simp
  then show ?case by simp
next
  case (Cons e xs)
  then show ?case by (cases e) (auto split: outcome.split)
qed

lemma store_events_D:
  "e \<in> set (store_events L self es) \<Longrightarrow>
     (case e of
        Tick t \<Rightarrow> CleanupAt t \<in> set es
      | Check n mx ttl now \<Rightarrow>
          (\<exists>r ck. now = ck_mono ck \<and> Admit r ck \<in> set es \<and> asked L self r ck = Some (n, mx, ttl)))"
proof (induction es)
  case (Cons x es)
  then show ?case by (cases x; cases e) (auto split: option.splits, (blast+)?)
qed simp

lemma store_events_sorted: "sorted (map step_time es) \<Longrightarrow> sorted (map ev_now (store_events L self es))"
proof (induction es)
  case (Cons x es)
  have "step_time x \<le> ev_now e" if "e \<in> set (store_events L self es)" for e
    using store_events_D [OF that] Cons.prems by (fastforce split: store_event.splits)
  with Cons show ?case by (cases x) (auto split: option.splits)
qed simp

context nonce_store
begin

text \<open>
  If, in time order, every question about \<open>n\<close> carries the limit \<open>m\<close>, comes no later than \<open>D\<close> and reaches
  past it, the store allows \<open>n\<close> at most \<open>m\<close> times in all, cleanups and other nonces notwithstanding.
\<close>

lemma timely_bounded:
  assumes "sorted (map ev_now ves)" and "held s n D = 0" and "unat m < 2 ^ 32 - 1" and "m \<noteq> 0"
    and q: "\<And>mx ttl now. Check n mx ttl now \<in> set ves \<Longrightarrow> mx = Some m \<and> now \<le> D \<and> D < now + life ttl"
  shows "allowed_count chk tick n s ves \<le> unat m"
proof -
  let ?P = "\<lambda>e. ev_now e \<le> D"
  let ?xs = "takeWhile ?P ves" and ?ys = "dropWhile ?P ves"
  have late: "D < ev_now e" if e: "e \<in> set ?ys" for e
  proof -
    have "?ys \<noteq> []" using e by (metis list.set(1) empty_iff)
    then have "D < ev_now (hd ?ys)" using hd_dropWhile [of ?P ves] by simp
    moreover have "sorted (map ev_now ?ys)"
      using assms(1) takeWhile_dropWhile_id [of ?P ves] by (metis map_append sorted_append)
    then have "ev_now (hd ?ys) \<le> ev_now e" using e by (cases ?ys) auto
    ultimately show ?thesis by simp
  qed
  have "\<forall>e \<in> set ?ys. \<forall>mx ttl now. e \<noteq> Check n mx ttl now"
    using late q by (fastforce dest: set_dropWhileD)
  then have "allowed_count chk tick n s ves = allowed_count chk tick n s ?xs"
    using allowed_count_append_other takeWhile_dropWhile_id [of ?P ves] by metis
  moreover have "\<forall>e \<in> set ?xs. event_ok life n m D e"
  proof
    fix e assume e: "e \<in> set ?xs"
    show "event_ok life n m D e"
      by (cases e rule: store_event.exhaust) (use set_takeWhileD [OF e] q in auto)
  qed
  from allowed_bounded [OF this assms(3,4), of s] assms(2) have "allowed_count chk tick n s ?xs \<le> unat m" by simp
  ultimately show ?thesis by simp
qed

lemma admissions_bounded:
  assumes "ta_nonce_store self = Some s" and "held s n D = 0" and "unat m < 2 ^ 32 - 1" and "m \<noteq> 0"
    and "sorted (map step_time es)"
    and q: "\<And>r ck mx ttl. Admit r ck \<in> set es \<Longrightarrow> asked L self r ck = Some (n, mx, ttl) \<Longrightarrow>
      mx = Some m \<and> ck_mono ck \<le> D \<and> D < ck_mono ck + life ttl"
  shows "admitted_uses L chk tick n self es \<le> unat m"
proof (rule le_trans [OF admitted_uses_le [OF assms(1)] timely_bounded [OF store_events_sorted [OF assms(5)] assms(2-4)]])
  fix mx ttl now assume "Check n mx ttl now \<in> set (store_events L self es)"
  from store_events_D [OF this] q show "mx = Some m \<and> now \<le> D \<and> D < now + life ttl" by auto
qed

end

text \<open>Wall clock and monotonic clock agree: \<open>boot\<close> is the wall time, in nanoseconds, of the monotonic origin.\<close>

definition clocks_agree :: "nat \<Rightarrow> admission_clock \<Rightarrow> bool" where
  "clocks_agree boot ck \<longleftrightarrow> unat (ck_ttl ck) * nanos_per_sec \<le> ck_mono ck + boot \<and>
     ck_mono ck + boot < Suc (unat (ck_ttl ck)) * nanos_per_sec"

lemma asked_payload:
  assumes "asked L self r ck = Some (n, mx, ttl)"
  obtains token payload replay expires_at where "presented L self r (ck_unseal ck) = Some (token, payload)"
    "tp_replay_protection payload = Some replay" "n = rp_nonce replay" "mx = rp_max_uses replay"
    "tp_expires_at payload = Some expires_at"
    "ttl_from_expiry (rp_nonce_ttl_seconds replay) expires_at (ta_clock_skew self) (ck_ttl ck) = Ok ttl"
  using assms by (auto simp: asked_def admission_query_def bind_eq_Some_conv replay_query_Ok
      split: option.splits if_splits)

lemma ttl_reaches_expiry:
  assumes "ttl_from_expiry None E skew (ck_ttl ck) = Ok ttl" and "clocks_agree boot ck"
    and "unat E + unat (tolerance_seconds skew) < 2 ^ 64"
    and "D = (unat E + unat (tolerance_seconds skew)) * nanos_per_sec - 1 - boot"
  shows "ck_mono ck \<le> D \<and> D < ck_mono ck + ttl"
proof -
  let ?T = "unat E + unat (tolerance_seconds skew)" and ?w = "unat (ck_ttl ck)"
  have sum: "unat (E + tolerance_seconds skew) = ?T"
    using assms(3) by (simp add: unat_word_ariths)
  from assms(1) have le: "ck_ttl ck \<le> E + tolerance_seconds skew" "E + tolerance_seconds skew - ck_ttl ck \<noteq> 0"
    and ttl: "ttl = from_secs (E + tolerance_seconds skew - ck_ttl ck)"
    by (auto simp: ttl_from_expiry_def checked_sub_def not_less split: option.splits if_splits)
  then have "ck_ttl ck < E + tolerance_seconds skew" by (metis order_le_less right_minus_eq)
  then have w: "?w < ?T" using sum by (simp add: word_less_nat_alt)
  then have "unat (E + tolerance_seconds skew - ck_ttl ck) = ?T - ?w"
    using sum by (simp add: unat_sub word_le_nat_alt)
  then have t: "ttl = (?T - ?w) * nanos_per_sec" using ttl by (simp add: from_secs_def)
  have "Suc ?w * nanos_per_sec \<le> ?T * nanos_per_sec" using w by (intro mult_le_mono1) simp
  then have a: "ck_mono ck + boot < ?T * nanos_per_sec" using assms(2) by (simp add: clocks_agree_def)
  have "?w * nanos_per_sec + (?T - ?w) * nanos_per_sec = ?T * nanos_per_sec"
    using w by (simp add: add_mult_distrib [symmetric])
  then show ?thesis using a assms(2) t unfolding assms(4) clocks_agree_def by linarith
qed

lemma ttl_from_expiry_secs:
  assumes "ttl_from_expiry None E skew now = Ok ttl"
  obtains secs where "ttl = from_secs secs" and "secs \<noteq> 0" and "secs \<le> E + tolerance_seconds skew"
proof -
  let ?s = "E + tolerance_seconds skew - now"
  from assms have le: "now \<le> E + tolerance_seconds skew" and s: "?s \<noteq> 0" "ttl = from_secs ?s"
    by (auto simp: ttl_from_expiry_def checked_sub_def not_less split: option.splits if_splits)
  from le have "?s \<le> E + tolerance_seconds skew" by (rule word_sub_le)
  with s show thesis using that by blast
qed

text \<open>The question asked about a token whose nonce lives as long as the token.\<close>

lemma asked_reaches_expiry:
  assumes "asked L self r ck = Some (n, mx, ttl)" and "clocks_agree boot ck"
    and "unat E + unat (tolerance_seconds (ta_clock_skew self)) < 2 ^ 64"
    and "\<forall>token payload. presented L self r (ck_unseal ck) = Some (token, payload) \<longrightarrow>
      (\<forall>replay. tp_replay_protection payload = Some replay \<and> rp_nonce replay = n \<longrightarrow>
         rp_max_uses replay = Some m \<and> rp_nonce_ttl_seconds replay = None \<and> tp_expires_at payload = Some E)"
    and "D = (unat E + unat (tolerance_seconds (ta_clock_skew self))) * nanos_per_sec - 1 - boot"
  shows "mx = Some m \<and> ck_mono ck \<le> D \<and> D < ck_mono ck + ttl"
    and "\<exists>secs. ttl = from_secs secs \<and> secs \<noteq> 0 \<and> secs \<le> E + tolerance_seconds (ta_clock_skew self)"
proof -
  from assms(1) have "mx = Some m \<and> ttl_from_expiry None E (ta_clock_skew self) (ck_ttl ck) = Ok ttl"
  proof (cases rule: asked_payload)
    case (1 token payload replay expires_at)
    with assms(4) have "rp_max_uses replay = Some m" "rp_nonce_ttl_seconds replay = None" "expires_at = E"
      by force+
    with 1 show ?thesis by simp
  qed
  then show "mx = Some m \<and> ck_mono ck \<le> D \<and> D < ck_mono ck + ttl"
    and "\<exists>secs. ttl = from_secs secs \<and> secs \<noteq> 0 \<and> secs \<le> E + tolerance_seconds (ta_clock_skew self)"
    using ttl_reaches_expiry [OF _ assms(2, 3, 5), of ttl] ttl_from_expiry_secs by blast+
qed

lemma admission_checks:
  assumes "header_laws (al_headers L)"
    and "admit L chk self request ck = Returns ((w, Ok request'), self')"
    and "h_get (al_headers L) (rq_headers request) TOKEN_HEADER \<noteq> None"
  shows "\<exists>token payload. presents L self request (ck_unseal ck) token payload \<and>
      lifetime_ok (tc_decrypt_config (ta_crypto self)) payload (ck_unseal ck) \<and>
      request_permitted L self request token payload \<and> replay_passed chk self self' payload ck \<and>
      forwards L self payload request request'"
proof -
  from assms(3) obtain hv where "h_get (al_headers L) (rq_headers request) TOKEN_HEADER = Some hv" by blast
  from admit_token_Ok [OF assms(2) this] obtain token payload w' where
    t: "presents L self request (ck_unseal ck) token payload" "request_permitted L self request token payload"
      "replay_passed chk self self' payload ck" "finalize L self' request payload (ck_process ck) = (w', Ok request')"
    by blast
  have "lifetime_ok (tc_decrypt_config (ta_crypto self)) payload (ck_unseal ck)"
    using t(1) by (auto simp: presents_def tc_unseal_def decrypt_Ok_iff)
  moreover have "ta_response_scan_enabled self' = ta_response_scan_enabled self"
    using t(3) by (auto simp: replay_passed_def split: option.splits)
  with finalize_forwards [OF assms(1) t(4)] have "forwards L self payload request request'"
    by (simp add: forwards_def)
  ultimately show ?thesis using t(1-3) by blast
qed

section \<open>Properties\<close>

text \<open>
  Property C3. A request that carries a token header is admitted only with a token that unseals within its
  lifetime, for a client that has shown the token's authentication, towards a host, with a method and
  on a path the token allows, after the nonce store recorded one more use if the token asks for it.
  What is forwarded has the method, target and body that were checked, the token's scheme, and, when
  response scanning is on, the scan patterns of the very secret that was injected. A bad token is
  never treated like a missing one.
\<close>

theorem admission_sound:
  assumes "header_laws (al_headers L)"
    and "admit L chk self request ck = Returns ((w, Ok request'), self')"
    and "h_get (al_headers L) (rq_headers request) TOKEN_HEADER \<noteq> None"
  shows "\<exists>token payload. presents L self request (ck_unseal ck) token payload \<and>
      lifetime_ok (tc_decrypt_config (ta_crypto self)) payload (ck_unseal ck) \<and>
      request_permitted L self request token payload \<and> replay_passed chk self self' payload ck \<and>
      forwards L self payload request request'"
  using assms by (rule admission_checks)

definition sample_token_serde :: "SealedToken serde_lib" where
  "sample_token_serde = \<lparr>ser = (\<lambda>_. Ok []), de = (\<lambda>_. Ok (SealedToken_new ''k1'' (replicate 72 (CHR ''a''))))\<rparr>"

definition sample_libs :: "(string \<times> string) list admission_libs" where
  "sample_libs = \<lparr>al_crypto = plain_crypto, al_base64 = plain_base64, al_token_serde = sample_token_serde,
     al_payload_serde = one_payload_serde sample_payload, al_headers = assoc_headers,
     al_regex = (\<lambda>_ _. Err ''none''), al_sigv4 = plain_sigv4, al_encoders = plain_encoders\<rparr>"

definition sample_admission :: "InMemoryNonceStore TokenAdmission" where
  "sample_admission = TokenAdmission_new (TokenCrypto_new (with_primary (sample_key ''k1'')))"

definition sample_clock :: admission_clock where
  "sample_clock = \<lparr>ck_unseal = 900, ck_ttl = 900, ck_mono = 0, ck_process = 900\<rparr>"

definition token_request :: "string \<Rightarrow> ((string \<times> string) list, unit) request" where
  "token_request v = (bearer_request ''x'')\<lparr>rq_headers := [(''host'', ''a.io''), (to_lower TOKEN_HEADER, v)]\<rparr>"

lemma sample_unseals:
  "tc_unseal plain_crypto plain_base64 (one_payload_serde p) (TokenCrypto_new (with_primary (sample_key ''k1'')))
     (SealedToken_new ''k1'' (replicate 72 (CHR ''a''))) now = Ok p \<longleftrightarrow> lifetime_ok DecryptConfig_default p now"
  by (simp add: tc_unseal_def decrypt_Ok_iff SealedToken_new_def TokenCrypto_new_def with_primary_def
      find_by_id_def sample_key_def VersionedKeypair_new_def plain_base64_def unseal_def Let_def
      plain_crypto_def one_payload_serde_def)

lemma token_request_header:
  "h_get assoc_headers (rq_headers (token_request v)) TOKEN_HEADER = Some v"
  by (simp add: token_request_def assoc_headers_def TOKEN_HEADER_def to_lower_def ascii_lower_def
      ascii_upper_letters_def ascii_lower_letters_def)

lemma sample_payload_fields:
  "tp_secret sample_payload = ''s3cret''" "tp_processor sample_payload = PcInject (InjectConfig_bearer ''authorization'')"
  "tp_auth sample_payload = AuthNone" "tp_allowed_hosts sample_payload = [''a.io'']"
  "tp_allowed_methods sample_payload = []" "tp_allowed_paths sample_payload = []"
  "tp_allowed_path_pattern sample_payload = None" "tp_replay_protection sample_payload = None"
  by (simp_all add: sample_payload_def b_expires_at_def b_allowed_host_def payload_builder_def AuthConfig_default_def)

lemma sample_lifetime: "lifetime_ok DecryptConfig_default sample_payload 900"
  by (simp add: lifetime_ok_def DecryptConfig_default_def ClockSkewConfig_default_def check_expiration_def
      check_expiry_def sample_payload_def b_expires_at_def)

lemma sample_presents:
  assumes "ta_crypto self = TokenCrypto_new (with_primary (sample_key ''k1''))"
    and "lifetime_ok DecryptConfig_default p now"
  shows "presents (sample_libs\<lparr>al_payload_serde := one_payload_serde p\<rparr>) self (token_request ''Tokenizer t'') now
     (SealedToken_new ''k1'' (replicate 72 (CHR ''a''))) p"
proof -
  have "from_header plain_base64 sample_token_serde ''Tokenizer t'' = Ok (SealedToken_new ''k1'' (replicate 72 (CHR ''a'')))"
    by (simp add: from_header_def sample_token_serde_def plain_base64_def)
  moreover have "h_to_str assoc_headers ''Tokenizer t'' = Ok ''Tokenizer t''"
    by (simp add: assoc_headers_def visible_ascii_def)
  ultimately show ?thesis
    using assms by (simp add: presents_def sample_libs_def token_request_header sample_unseals)
qed

lemma sample_permitted:
  assumes "tp_auth p = AuthNone" and "tp_allowed_hosts p = [''a.io'']" and "tp_allowed_methods p = []"
    and "tp_allowed_paths p = []" and "tp_allowed_path_pattern p = None"
  shows "request_permitted (sample_libs\<lparr>al_payload_serde := P\<rparr>) self (token_request ''Tokenizer t'') token p"
proof -
  have "target_host assoc_headers (token_request ''Tokenizer t'') = Ok ''a.io''"
    by (simp add: target_host_def token_request_def bearer_request_def assoc_headers_def to_lower_def ascii_lower_def
        ascii_upper_letters_def ascii_lower_letters_def visible_ascii_def)
  moreover have "split_host_port ''a.io'' = (''a.io'', None)" by (simp add: split_host_port_def rfind_char_def)
  ultimately show ?thesis
    using assms by (simp add: request_permitted_def auth_shown_def sample_libs_def validate_host_def
        validate_method_def validate_path_def)
qed

lemma sample_finalizes:
  assumes "tp_processor p = PcInject (InjectConfig_bearer ''authorization'')" and "tp_secret p = ''s3cret''"
  shows "\<exists>r. finalize (sample_libs\<lparr>al_payload_serde := P\<rparr>) self (token_request ''Tokenizer t'') p now =
     ([record_token_validation Success, record_processor_used ''inject''], Ok r)"
  using assms by (simp add: finalize_def Let_def sample_libs_def validate_processor_config_def inject_process_def
      InjectConfig_bearer_def assoc_headers_def format_value_def visible_ascii_def)

theorem admission_sound_witness:
  "\<exists>w r token payload. admit sample_libs check_and_record sample_admission (token_request ''Tokenizer t'') sample_clock =
     Returns ((w, Ok r), sample_admission) \<and>
     presents sample_libs sample_admission (token_request ''Tokenizer t'') 900 token payload"
proof -
  have L: "sample_libs\<lparr>al_payload_serde := one_payload_serde sample_payload\<rparr> = sample_libs"
    by (simp add: sample_libs_def)
  let ?t = "SealedToken_new ''k1'' (replicate 72 (CHR ''a''))"
  have "presents sample_libs sample_admission (token_request ''Tokenizer t'') (ck_unseal sample_clock) ?t sample_payload"
    using sample_presents [of sample_admission sample_payload 900] sample_lifetime
    by (simp add: L sample_admission_def TokenAdmission_new_def sample_clock_def)
  moreover have "request_permitted sample_libs sample_admission (token_request ''Tokenizer t'') ?t sample_payload"
    using sample_permitted [of sample_payload "one_payload_serde sample_payload"]
    by (simp add: L sample_payload_fields)
  moreover obtain w r where "finalize sample_libs sample_admission (token_request ''Tokenizer t'') sample_payload
      (ck_process sample_clock) = (w, Ok r)"
    using sample_finalizes [of sample_payload "one_payload_serde sample_payload"]
    by (fastforce simp: L sample_payload_fields)
  moreover note sample_payload_fields(8)
  ultimately obtain w where a: "admit sample_libs check_and_record sample_admission (token_request ''Tokenizer t'') sample_clock =
     Returns ((w, Ok r), sample_admission)"
    using admit_token_complete by metis
  have "header_laws (al_headers sample_libs)" by (simp add: sample_libs_def assoc_headers_laws)
  from admission_sound [OF this a] token_request_header [of "''Tokenizer t''"] a show ?thesis
    by (auto simp: sample_libs_def sample_clock_def)
qed

text \<open>
  Note. A token that may be used \<open>m\<close> times is admitted at most \<open>m\<close> times, ever: over any run of
  admissions and cleanups of the in-memory store in the order of their monotonic times, with any other
  requests between them, if the token's nonce lives as long as the token (no explicit time-to-live),
  the wall clock agrees with the monotonic clock, and the expiry with its tolerance does not overflow.
\<close>

theorem admissions_of_token_bounded:
  assumes "ta_nonce_store self = Some store" and "entries store n = None"
    and "m \<noteq> 0" and "unat m < 2 ^ 32 - 1" and "sorted (map step_time es)"
    and "\<forall>r ck. Admit r ck \<in> set es \<longrightarrow> clocks_agree boot ck"
    and "unat E + unat (tolerance_seconds (ta_clock_skew self)) < 2 ^ 64"
    and "\<forall>r ck token payload. Admit r ck \<in> set es \<and> presented L self r (ck_unseal ck) = Some (token, payload) \<longrightarrow>
      (\<forall>replay. tp_replay_protection payload = Some replay \<and> rp_nonce replay = n \<longrightarrow>
         rp_max_uses replay = Some m \<and> rp_nonce_ttl_seconds replay = None \<and> tp_expires_at payload = Some E)"
  shows "admitted_uses L check_and_record cleanup n self es \<le> unat m"
proof (rule mem.admissions_bounded [OF assms(1) _ assms(4,3,5)])
  let ?D = "(unat E + unat (tolerance_seconds (ta_clock_skew self))) * nanos_per_sec - 1 - boot"
  show "held_uses store n ?D = 0" using assms(2) by (simp add: held_uses_def)
  fix r ck mx ttl
  assume r: "Admit r ck \<in> set es" "asked L self r ck = Some (n, mx, ttl)"
  show "mx = Some m \<and> ck_mono ck \<le> ?D \<and> ?D < ck_mono ck + ttl"
    by (rule asked_reaches_expiry(1) [OF r(2) _ assms(7)]) (use r(1) assms(6, 8) in auto)
qed

definition once_payload :: TokenPayload where
  "once_payload = b_replay_protection sample_payload (single_use ''n'')"

definition twice :: "((string \<times> string) list, unit) adm_step list" where
  "twice =
     [Admit (token_request ''Tokenizer t'') \<lparr>ck_unseal = 900, ck_ttl = 900, ck_mono = 0, ck_process = 900\<rparr>,
      CleanupAt 5,
      Admit (token_request ''Tokenizer t'') \<lparr>ck_unseal = 900, ck_ttl = 900, ck_mono = 7, ck_process = 900\<rparr>]"

theorem admissions_of_token_bounded_witness:
  "admitted_uses (sample_libs\<lparr>al_payload_serde := one_payload_serde once_payload\<rparr>) check_and_record cleanup ''n''
     (with_nonce_store sample_admission InMemoryNonceStore_new) twice \<le> 1"
proof -
  define L where "L = sample_libs\<lparr>al_payload_serde := one_payload_serde once_payload\<rparr>"
  define self where "self = with_nonce_store sample_admission InMemoryNonceStore_new"
  have self: "ta_nonce_store self = Some InMemoryNonceStore_new" "ta_clock_skew self = ClockSkewConfig_default"
    "ta_crypto self = TokenCrypto_new (with_primary (sample_key ''k1''))"
    by (simp_all add: self_def with_nonce_store_def sample_admission_def TokenAdmission_new_def)
  have once: "tp_replay_protection once_payload = Some (single_use ''n'')" "tp_expires_at once_payload = Some 1000"
    by (simp_all add: once_payload_def b_replay_protection_def sample_payload_def b_expires_at_def)
  have "lifetime_ok DecryptConfig_default once_payload 900"
    using sample_lifetime by (simp add: lifetime_ok_def once_payload_def b_replay_protection_def check_expiration_def)
  from sample_presents [OF self(3) this] have p: "presented L self (token_request ''Tokenizer t'') 900 =
      Some (SealedToken_new ''k1'' (replicate 72 (CHR ''a'')), once_payload)"
    by (simp add: presents_iff L_def)
  have "admitted_uses L check_and_record cleanup ''n'' self twice \<le> unat (1 :: u32)"
  proof (rule admissions_of_token_bounded [OF self(1), of "''n''" 1 twice "900 * nanos_per_sec" 1000])
    show "\<forall>r ck token payload. Admit r ck \<in> set twice \<and> presented L self r (ck_unseal ck) = Some (token, payload) \<longrightarrow>
      (\<forall>replay. tp_replay_protection payload = Some replay \<and> rp_nonce replay = ''n'' \<longrightarrow>
         rp_max_uses replay = Some 1 \<and> rp_nonce_ttl_seconds replay = None \<and> tp_expires_at payload = Some 1000)"
      using p once by (auto simp: twice_def single_use_def)
  qed (auto simp: twice_def InMemoryNonceStore_new_def InMemoryNonceStore_with_cleanup_interval_def clocks_agree_def
      nanos_per_sec_def self(2) ClockSkewConfig_default_def)
  then show ?thesis by (simp add: L_def self_def)
qed

text \<open>
  Note. Without a token header the pipeline is the static policy: in token-optional mode the request
  is admitted, unchanged and without touching the nonce store, exactly when it names a host that the
  policy admits; otherwise it is refused.
\<close>

theorem tokenless_admission_exact:
  assumes "h_get (al_headers L) (rq_headers request) TOKEN_HEADER = None"
  shows "\<exists>w res. admit L chk self request ck = Returns ((w, res), self) \<and>
    (case res of
       Inr request' \<Rightarrow> request' = request \<and> ta_token_optional self \<and>
         (\<exists>a. request_authority (al_headers L) request = Some a \<and> policy_validate (ta_host_policy self) a = Ok ())
     | Inl e \<Rightarrow> \<not> (ta_token_optional self \<and>
         (\<exists>a. request_authority (al_headers L) request = Some a \<and> policy_validate (ta_host_policy self) a = Ok ())))"
proof -
  obtain w res where r: "admit_token_optional L self request = (w, res)" by fastforce
  have iff: "res = Ok q \<longleftrightarrow> ta_token_optional self \<and>
      (\<exists>a. request_authority (al_headers L) request = Some a \<and> policy_validate (ta_host_policy self) a = Ok ()) \<and> q = request" for q
  proof -
    have "res = Ok q \<longleftrightarrow> snd (admit_token_optional L self request) = Ok q" by (simp add: r)
    then show ?thesis by (auto simp: admit_token_optional_def bindW_eq_Inr split: if_splits)
  qed
  show ?thesis
    using assms r iff by (cases res) (auto simp: admit_def)
qed

theorem tokenless_admission_exact_witness:
  "\<exists>w. admit sample_libs check_and_record sample_admission (bearer_request ''x'') sample_clock =
     Returns ((w, Err (InvalidPayload ''missing token header'')), sample_admission)"
proof -
  have "h_get (al_headers sample_libs) (rq_headers (bearer_request ''x'')) TOKEN_HEADER = None"
    by (simp add: sample_libs_def assoc_headers_def bearer_request_def TOKEN_HEADER_def PROXY_AUTHORIZATION_HEADER_def
      to_lower_def ascii_lower_def ascii_upper_letters_def ascii_lower_letters_def)
  from tokenless_admission_exact [OF this, of check_and_record sample_admission sample_clock] this show ?thesis
    by (simp add: admit_def admit_token_optional_def sample_admission_def TokenAdmission_new_def)
qed

text \<open>
  Note. An explicit time-to-live shorter than the token's lifetime undoes single use: one second after
  the nonce has expired the same token passes again.
\<close>

theorem short_ttl_allows_replay:
  "\<exists>s1 s2. check_and_record InMemoryNonceStore_new n (Some 1) (from_secs 1) 0 = Returns (Ok (Allowed 1 (Some 1)), s1) \<and>
     check_and_record s1 n (Some 1) (from_secs 1) (from_secs 2) = Returns (Ok (Allowed 1 (Some 1)), s2) \<and>
     ttl_from_expiry (Some 1) expires_at skew now = Ok (from_secs 1)"
  by (simp add: check_and_record_def InMemoryNonceStore_new_def InMemoryNonceStore_with_cleanup_interval_def
      instant_add_def instant_max_def from_secs_def nanos_per_sec_def ttl_from_expiry_def)

text \<open>Note. A huge explicit time-to-live makes the in-memory store panic instead of answering.\<close>

theorem huge_ttl_panics:
  "\<exists>msg. check_and_record s n mx (from_secs (- 1)) now = Panic msg"
  by (simp add: check_and_record_def instant_add_def instant_max_def from_secs_def nanos_per_sec_def
      unsigned_minus_1_eq_mask mask_eq_exp_minus_1)

end
