(* ===== verification/Connect.thy ===== *)
theory Connect
  imports Admission Ip_Filter
begin

text \<open>
  The CONNECT handler, \<open>crates/icebreaker-proxy/src/tunnel/connect_handler.rs\<close>: validation of a CONNECT
  request, replay protection, resolution of the target and the control responses. Name resolution and
  the operating system's connect are parameters; the two copying directions of a tunnel are the
  event that ends first. A response body is a string here, as in the source.
\<close>

section \<open>The handler\<close>

record TunnelConfig =
  tu_connect_timeout :: duration
  tu_buffer_size :: nat
  tu_idle_timeout :: duration

definition TunnelConfig_default :: TunnelConfig where
  "TunnelConfig_default =
     \<lparr>tu_connect_timeout = from_secs 30, tu_buffer_size = 8192, tu_idle_timeout = from_secs 300\<rparr>"

record ('s, 'n) ConnectHandler =
  ch_crypto :: TokenCrypto
  ch_ip_filter :: "'n IpFilter"
  ch_config :: TunnelConfig
  ch_clock_skew :: ClockSkewConfig
  ch_nonce_store :: "'s option"

definition ConnectHandler_new :: "TokenCrypto \<Rightarrow> 'n IpFilter \<Rightarrow> ('s, 'n) ConnectHandler" where
  "ConnectHandler_new crypto ip_filter =
     \<lparr>ch_crypto = crypto, ch_ip_filter = ip_filter, ch_config = TunnelConfig_default,
      ch_clock_skew = ClockSkewConfig_default, ch_nonce_store = None\<rparr>"

definition ConnectHandler_with_config :: "TokenCrypto \<Rightarrow> 'n IpFilter \<Rightarrow> TunnelConfig \<Rightarrow> ('s, 'n) ConnectHandler" where
  "ConnectHandler_with_config crypto ip_filter config =
     \<lparr>ch_crypto = crypto, ch_ip_filter = ip_filter, ch_config = config,
      ch_clock_skew = ClockSkewConfig_default, ch_nonce_store = None\<rparr>"

definition with_all_options :: "TokenCrypto \<Rightarrow> 'n IpFilter \<Rightarrow> TunnelConfig \<Rightarrow> ClockSkewConfig \<Rightarrow> ('s, 'n) ConnectHandler" where
  "with_all_options crypto ip_filter config clock_skew =
     \<lparr>ch_crypto = crypto, ch_ip_filter = ip_filter, ch_config = config,
      ch_clock_skew = clock_skew, ch_nonce_store = None\<rparr>"

definition ch_with_nonce_store :: "('s, 'n) ConnectHandler \<Rightarrow> 's option \<Rightarrow> ('s, 'n) ConnectHandler" where
  "ch_with_nonce_store self store = self\<lparr>ch_nonce_store := store\<rparr>"

text \<open>The readings of the clocks in one CONNECT, in the order of the calls.\<close>

record connect_clock =
  kc_limit :: instant
  kc_unseal :: u64
  kc_check :: u64
  kc_ttl :: u64
  kc_mono :: instant

definition connect_token :: "'h header_lib \<Rightarrow> ('h, 'b) request \<Rightarrow> string option" where
  "connect_token H request =
     Option.bind (case h_get H (rq_headers request) TOKEN_HEADER of
        Some v \<Rightarrow> Some v | None \<Rightarrow> h_get H (rq_headers request) ''proxy-authorization'') (\<lambda>v. ok (h_to_str H v))"

definition connect_expiration :: "ClockSkewConfig \<Rightarrow> TokenPayload \<Rightarrow> u64 \<Rightarrow> unit tresult" where
  "connect_expiration clock_skew payload now =
     (case check_expiration payload clock_skew now of
        Valid \<Rightarrow> Ok ()
      | NoExpiration \<Rightarrow> Ok ()
      | Expired \<Rightarrow> Err TokenExpired
      | FutureDated n \<Rightarrow> Err (InvalidPayload (''token expiration is '' @ nat_to_string (unat n) @
          '' seconds too far in the future'')))"

definition validate_connect :: "'h admission_libs \<Rightarrow> ('s, 'n) ConnectHandler \<Rightarrow> ('h, 'b) request \<Rightarrow>
    TlsConnectionInfo option \<Rightarrow> connect_clock \<Rightarrow> (TokenPayload \<times> string \<times> u16) tresult" where
  "validate_connect L self request tls_info ck =
     bindR (ok_or (connect_token (al_headers L) request)
              (ProxyAuthRequired ''missing token header for CONNECT'')) (\<lambda>token_header.
     bindR (from_header (al_base64 L) (al_token_serde L) token_header) (\<lambda>sealed_token.
     bindR (tc_unseal (al_crypto L) (al_base64 L) (al_payload_serde L) (ch_crypto self) sealed_token (kc_unseal ck)) (\<lambda>payload.
     bindR (validate_auth (al_crypto L) (al_base64 L) (al_headers L) (al_regex L) (tp_auth payload) request tls_info
              (ok (api_key_hmac_key (al_crypto L) (ch_crypto self) (st_key_id sealed_token)))) (\<lambda>_.
     bindR (connect_expiration (ch_clock_skew self) payload (kc_check ck)) (\<lambda>_.
     bindR (ok_or (u_authority (rq_uri request)) (InvalidPayload ''CONNECT request missing authority'')) (\<lambda>authority.
     bindR (validate_host (al_regex L) payload (au_str authority)) (\<lambda>_.
       Ok (payload, au_host authority, unwrap_or (au_port authority) 443))))))))"

definition enforce_replay :: "'s check_fn \<Rightarrow> ('s, 'n) ConnectHandler \<Rightarrow> TokenPayload \<Rightarrow> connect_clock \<Rightarrow>
    (unit recorded \<times> ('s, 'n) ConnectHandler) outcome" where
  "enforce_replay chk self payload ck =
     (case tp_replay_protection payload of
        None \<Rightarrow> Returns (([], Ok ()), self)
      | Some replay \<Rightarrow>
          (case bindR (ok_or (ch_nonce_store self) ReplayProtectionUnavailable) (\<lambda>store.
                bindR (ok_or (tp_expires_at payload) ReplayProtectionRequiresExpiry) (\<lambda>expires_at.
                bindR (ttl_from_expiry (rp_nonce_ttl_seconds replay) expires_at (ch_clock_skew self) (kc_ttl ck)) (\<lambda>ttl.
                  Ok (store, ttl)))) of
             Inl e \<Rightarrow> Returns (([], Err e), self)
           | Inr (store, ttl) \<Rightarrow>
               (case chk store (rp_nonce replay) (rp_max_uses replay) ttl (kc_mono ck) of
                  Panic m \<Rightarrow> Panic m
                | Returns (r, store') \<Rightarrow> Returns
                    (case r of
                       Inr (Denied current lim) \<Rightarrow> ([record_replay_attempt], Err (TokenReplayDetected current lim))
                     | Inr (Allowed current lim) \<Rightarrow> ([], Ok ())
                     | Inl e \<Rightarrow> ([], Err (NonceStoreError (to_string e))),
                     self\<lparr>ch_nonce_store := Some store'\<rparr>))))"

section \<open>Target, tunnel and responses\<close>

text \<open>Resolution runs in a blocking task; \<open>Inl\<close> of the outer result is the failure of the task itself.\<close>

type_synonym task_resolver = "string \<Rightarrow> (string, (string, SocketAddr list) result) result"

definition resolve_and_validate :: "'n ipnet_lib \<Rightarrow> task_resolver \<Rightarrow> ('s, 'n) ConnectHandler \<Rightarrow> string \<Rightarrow> u16 \<Rightarrow>
    SocketAddr tresult" where
  "resolve_and_validate N resolve self host port =
     bindR (map_err (\<lambda>e. InternalError (''DNS resolution task failed: '' @ e))
              (resolve (host @ '':'' @ nat_to_string (unat port)))) (\<lambda>resolved.
     bindR (map_err (\<lambda>e. HttpError (''DNS resolution failed: '' @ e)) resolved) (\<lambda>addrs.
     if addrs = [] then Err (HttpError (''no addresses found for '' @ host))
     else bindR (validate_all N (ch_ip_filter self) addrs) (\<lambda>_. Ok (hd addrs))))"

datatype 'c connect_event = ConnectTimeout | ConnectFailed string | Connected 'c

definition connect_upstream :: "(SocketAddr \<Rightarrow> 'c connect_event) \<Rightarrow> SocketAddr \<Rightarrow> 'c tresult" where
  "connect_upstream tcp addr =
     (case tcp addr of
        ConnectTimeout \<Rightarrow> Err Timeout
      | ConnectFailed e \<Rightarrow> Err (HttpError (''failed to connect: '' @ e))
      | Connected stream \<Rightarrow> Ok stream)"

text \<open>\<open>select!\<close> takes the copy that ends first; it reports the bytes of that direction only.\<close>

datatype copy_event = ClientCopy "(string, u64) result" | UpstreamCopy "(string, u64) result"

definition copy_bidirectional :: "copy_event \<Rightarrow> (u64 \<times> u64) tresult" where
  "copy_bidirectional ev =
     map_err (\<lambda>e. HttpError (''tunnel copy error: '' @ e))
       (case ev of
          ClientCopy r \<Rightarrow> bindR r (\<lambda>n. Ok (n, 0))
        | UpstreamCopy r \<Rightarrow> bindR r (\<lambda>n. Ok (0, n)))"

definition success_response :: "u16 \<times> string" where
  "success_response = (200, ''Connection Established'')"

definition error_response :: "TokenizerError \<Rightarrow> u16 \<times> string" where
  "error_response err =
     ((case err of
         ProxyAuthRequired _ \<Rightarrow> 407
       | TokenExpired \<Rightarrow> 403
       | HostNotAllowed _ \<Rightarrow> 403
       | BlockedAddress _ _ \<Rightarrow> 403
       | Timeout \<Rightarrow> 504
       | _ \<Rightarrow> 502),
      client_message err)"

definition is_connect_request :: "('h, 'b) request \<Rightarrow> bool" where
  "is_connect_request request \<longleftrightarrow> rq_method request = ''CONNECT''"

section \<open>What a validated CONNECT has shown\<close>

definition connect_presents :: "'h admission_libs \<Rightarrow> ('s, 'n) ConnectHandler \<Rightarrow> ('h, 'b) request \<Rightarrow> u64 \<Rightarrow> SealedToken \<Rightarrow>
    TokenPayload \<Rightarrow> bool" where
  "connect_presents L self request now token payload \<longleftrightarrow>
     (\<exists>s. connect_token (al_headers L) request = Some s \<and> from_header (al_base64 L) (al_token_serde L) s = Ok token) \<and>
     tc_unseal (al_crypto L) (al_base64 L) (al_payload_serde L) (ch_crypto self) token now = Ok payload"

definition connect_permitted :: "'h admission_libs \<Rightarrow> ('s, 'n) ConnectHandler \<Rightarrow> ('h, 'b) request \<Rightarrow>
    TlsConnectionInfo option \<Rightarrow> SealedToken \<Rightarrow> TokenPayload \<Rightarrow> string \<Rightarrow> u16 \<Rightarrow> bool" where
  "connect_permitted L self request tls token payload host port \<longleftrightarrow>
     auth_shown (al_crypto L) (al_base64 L) (al_headers L) (al_regex L) (tp_auth payload) request tls
       (ok (api_key_hmac_key (al_crypto L) (ch_crypto self) (st_key_id token))) \<and>
     (\<exists>a. u_authority (rq_uri request) = Some a \<and> validate_host (al_regex L) payload (au_str a) = Ok () \<and>
        host = au_host a \<and> port = unwrap_or (au_port a) 443)"

lemma validate_connect_Ok:
  "validate_connect L self request tls ck = Ok (payload, host, port) \<longleftrightarrow>
     (\<exists>token. connect_presents L self request (kc_unseal ck) token payload \<and>
        connect_permitted L self request tls token payload host port \<and>
        connect_expiration (ch_clock_skew self) payload (kc_check ck) = Ok ())"
  by (auto simp: validate_connect_def connect_presents_def connect_permitted_def validate_auth_Ok_iff)

definition connect_replay_passed :: "'s check_fn \<Rightarrow> ('s, 'n) ConnectHandler \<Rightarrow> ('s, 'n) ConnectHandler \<Rightarrow> TokenPayload \<Rightarrow>
    connect_clock \<Rightarrow> bool" where
  "connect_replay_passed chk self self' payload ck \<longleftrightarrow>
     (case tp_replay_protection payload of
        None \<Rightarrow> self' = self
      | Some replay \<Rightarrow>
          (\<exists>store expires_at ttl r store'. ch_nonce_store self = Some store \<and> tp_expires_at payload = Some expires_at \<and>
             ttl_from_expiry (rp_nonce_ttl_seconds replay) expires_at (ch_clock_skew self) (kc_ttl ck) = Ok ttl \<and>
             chk store (rp_nonce replay) (rp_max_uses replay) ttl (kc_mono ck) = Returns (r, store') \<and> allowed_of r \<and>
             self' = self\<lparr>ch_nonce_store := Some store'\<rparr>))"

lemma enforce_replay_Ok:
  "enforce_replay chk self payload ck = Returns ((w, Ok u), self') \<Longrightarrow> connect_replay_passed chk self self' payload ck"
  by (auto simp: enforce_replay_def connect_replay_passed_def
      split: option.splits outcome.splits sum.splits CheckResult.splits)

lemma resolve_and_validate_Ok:
  assumes "resolve_and_validate N resolve self host port = Ok addr"
  shows "\<exists>addrs. resolve (host @ '':'' @ nat_to_string (unat port)) = Ok (Ok addrs) \<and> addr \<in> set addrs \<and>
    (\<forall>a \<in> set addrs. is_allowed N (ch_ip_filter self) (fst a))"
  using assms by (auto simp: resolve_and_validate_def validate_all_Ok_iff split: if_splits)

end
