(* ===== verification/Shutdown.thy ===== *)
theory Shutdown
  imports Http
begin

text \<open>
  Graceful shutdown, \<open>crates/icebreaker-proxy/src/serve/shutdown.rs\<close>, with its two users in
  \<open>crates/icebreaker-cli/src/main.rs\<close>: the health responses, and the accept and drain loops of
  \<open>run_server\<close>. The atomics are sequentially consistent, so an interleaving of the tasks is a sequence
  of steps of the relation \<open>step\<close>; its invariant ties the counter to the connections that are open.
\<close>

section \<open>The shared state\<close>

record ShutdownState =
  is_shutting_down :: bool
  active_connections :: u64

definition ShutdownState_new :: ShutdownState where
  "ShutdownState_new = \<lparr>is_shutting_down = False, active_connections = 0\<rparr>"

definition initiate_shutdown :: "ShutdownState \<Rightarrow> ShutdownState" where
  "initiate_shutdown s = s\<lparr>is_shutting_down := True\<rparr>"

text \<open>\<open>fetch_add\<close> and \<open>fetch_sub\<close> wrap.\<close>

definition connection_started :: "ShutdownState \<Rightarrow> ShutdownState" where
  "connection_started s = s\<lparr>active_connections := active_connections s + 1\<rparr>"

definition connection_ended :: "ShutdownState \<Rightarrow> ShutdownState" where
  "connection_ended s = s\<lparr>active_connections := active_connections s - 1\<rparr>"

definition active_count :: "ShutdownState \<Rightarrow> u64" where
  "active_count s = active_connections s"

definition is_ready :: "ShutdownState \<Rightarrow> bool" where
  "is_ready s \<longleftrightarrow> \<not> is_shutting_down s"

definition is_alive :: "ShutdownState \<Rightarrow> bool" where
  "is_alive s \<longleftrightarrow> True"

text \<open>\<open>ConnectionGuard::new\<close> and its \<open>Drop\<close>.\<close>

definition ConnectionGuard_new :: "ShutdownState \<Rightarrow> ShutdownState" where
  "ConnectionGuard_new s = connection_started s"

definition ConnectionGuard_drop :: "ShutdownState \<Rightarrow> ShutdownState" where
  "ConnectionGuard_drop s = connection_ended s"

section \<open>Health responses\<close>

text \<open>A response is its status, its own headers and its body.\<close>

definition plain_response :: "u16 \<Rightarrow> string \<Rightarrow> u16 \<times> (string \<times> string) list \<times> string" where
  "plain_response status body = (status, [], body)"

definition readiness_response :: "ShutdownState \<Rightarrow> u16 \<Rightarrow> string \<Rightarrow> u16 \<times> (string \<times> string) list \<times> string" where
  "readiness_response state status body =
     (status, [(''X-Active-Connections'', nat_to_string (unat (active_count state)))], body)"

definition build_health_response :: "ShutdownState \<Rightarrow> string \<Rightarrow> string \<Rightarrow> string \<Rightarrow> u16 \<times> (string \<times> string) list \<times> string" where
  "build_health_response state liveness readiness path =
     (if path = liveness
      then if is_alive state then plain_response 200 ''OK'' else plain_response 503 ''NOT OK''
      else if path = readiness
      then if is_ready state then readiness_response state 200 ''READY''
           else readiness_response state 503 ''NOT READY''
      else plain_response 404 ''NOT FOUND'')"

section \<open>The server as a state machine\<close>

text \<open>
  The accept loop is before its check, inside its \<open>select!\<close>, holds a connection that \<open>accept\<close> returned
  and that is not counted yet, or was left. A connection task ends normally or by a panic; only the
  normal end runs \<open>connection_ended\<close>. A tunnel is counted by a guard, whose drop runs either way; it is
  opened by a connection, or by another tunnel whose intercepted stream is served. \<open>lost\<close> counts the
  connections whose task panicked.
\<close>

datatype accept_loop = Checking | Selecting | Accepted nat | Stopped

record server =
  sv_shutdown :: ShutdownState
  sv_accept :: accept_loop
  sv_open :: "nat set"
  sv_tunnels :: "nat set"
  sv_lost :: nat
  sv_drained :: bool

definition server_init :: server where
  "server_init = \<lparr>sv_shutdown = ShutdownState_new, sv_accept = Checking, sv_open = {}, sv_tunnels = {},
     sv_lost = 0, sv_drained = False\<rparr>"

inductive server_step :: "server \<Rightarrow> server \<Rightarrow> bool" where
  accept_check: "sv_accept s = Checking \<Longrightarrow>
     server_step s (s\<lparr>sv_accept := if is_shutting_down (sv_shutdown s) then Stopped else Selecting\<rparr>)"
| accept_idle: "sv_accept s = Selecting \<Longrightarrow> server_step s (s\<lparr>sv_accept := Checking\<rparr>)"
| accept_conn: "sv_accept s = Selecting \<Longrightarrow> c \<notin> sv_open s \<Longrightarrow> server_step s (s\<lparr>sv_accept := Accepted c\<rparr>)"
| accept_count: "sv_accept s = Accepted c \<Longrightarrow>
     server_step s (s\<lparr>sv_accept := Checking, sv_open := insert c (sv_open s),
       sv_shutdown := connection_started (sv_shutdown s)\<rparr>)"
| accept_abort: "sv_accept s = Selecting \<Longrightarrow> sv_drained s \<Longrightarrow> server_step s (s\<lparr>sv_accept := Stopped\<rparr>)"
| conn_end: "c \<in> sv_open s \<Longrightarrow>
     server_step s (s\<lparr>sv_open := sv_open s - {c}, sv_shutdown := connection_ended (sv_shutdown s)\<rparr>)"
| conn_panic: "c \<in> sv_open s \<Longrightarrow> server_step s (s\<lparr>sv_open := sv_open s - {c}, sv_lost := Suc (sv_lost s)\<rparr>)"
| tunnel_open: "c \<in> sv_open s \<or> u \<in> sv_tunnels s \<Longrightarrow> t \<notin> sv_tunnels s \<Longrightarrow>
     server_step s (s\<lparr>sv_tunnels := insert t (sv_tunnels s), sv_shutdown := ConnectionGuard_new (sv_shutdown s)\<rparr>)"
| tunnel_end: "t \<in> sv_tunnels s \<Longrightarrow>
     server_step s (s\<lparr>sv_tunnels := sv_tunnels s - {t}, sv_shutdown := ConnectionGuard_drop (sv_shutdown s)\<rparr>)"
| shutdown_signal: "server_step s (s\<lparr>sv_shutdown := initiate_shutdown (sv_shutdown s)\<rparr>)"
| drain: "is_shutting_down (sv_shutdown s) \<Longrightarrow> active_count (sv_shutdown s) = 0 \<Longrightarrow>
     server_step s (s\<lparr>sv_drained := True\<rparr>)"

inductive_cases server_stepE: "server_step s t"

inductive reachable :: "server \<Rightarrow> bool" where
  init: "reachable server_init"
| step: "reachable s \<Longrightarrow> server_step s t \<Longrightarrow> reachable t"

section \<open>The invariant\<close>

definition counted :: "server \<Rightarrow> nat" where
  "counted s = card (sv_open s) + card (sv_tunnels s) + sv_lost s"

definition server_inv :: "server \<Rightarrow> bool" where
  "server_inv s \<longleftrightarrow> finite (sv_open s) \<and> finite (sv_tunnels s) \<and>
     active_count (sv_shutdown s) = of_nat (counted s) \<and>
     (\<forall>c. sv_accept s = Accepted c \<longrightarrow> c \<notin> sv_open s) \<and>
     (sv_drained s \<or> sv_accept s = Stopped \<longrightarrow> is_shutting_down (sv_shutdown s))"

lemmas shutdown_simps = active_count_def connection_started_def connection_ended_def initiate_shutdown_def
  ConnectionGuard_new_def ConnectionGuard_drop_def

lemma card_remove_word:
  "finite A \<Longrightarrow> x \<in> A \<Longrightarrow> (of_nat (card (A - {x})) :: u64) = of_nat (card A) - 1"
  by (metis add_diff_cancel_left' card.remove of_nat_Suc)

lemma server_step_inv:
  assumes "server_inv s" and "server_step s t"
  shows "server_inv t"
  using assms(2,1)
proof (cases rule: server_step.cases)
  case (conn_panic c)
  have "Suc (card (sv_open s - {c})) = card (sv_open s)"
    using conn_panic(2) assms(1) by (metis card_Suc_Diff1 server_inv_def)
  then have "counted t = counted s" using conn_panic(1) by (simp add: counted_def)
  then show ?thesis using assms(1) conn_panic(1) by (simp add: server_inv_def)
qed (auto simp: server_inv_def counted_def shutdown_simps card_remove_word
    simp del: card_Diff_singleton card_Diff_insert)

lemma reachable_inv: "reachable s \<Longrightarrow> server_inv s"
proof (induction rule: reachable.induct)
  case init
  then show ?case by (simp add: server_inv_def server_init_def counted_def ShutdownState_new_def active_count_def)
qed (rule server_step_inv)

section \<open>Properties\<close>

text \<open>The connections the server holds: those that are counted, and one that is only accepted.\<close>

definition connections :: "server \<Rightarrow> nat set" where
  "connections s = sv_open s \<union> {c. sv_accept s = Accepted c}"

text \<open>
  Property C29. Over every interleaving of the accept loop, the connection tasks, the tunnels and the
  shutdown, the counter is the number, modulo \<open>2 ^ 64\<close>, of the open connections and tunnels and of the
  connections whose task panicked; so when the drain loop ends because it read zero, and fewer than
  \<open>2 ^ 64\<close> things are counted, no tunnel is open, no task has panicked, and no connection is held,
  except at most one that the accept loop has accepted and not counted yet. The server is not ready then.
\<close>

theorem drained_means_idle:
  assumes "reachable s" and "server_step s t" and "\<not> sv_drained s" and "sv_drained t"
    and "card (sv_open s) + card (sv_tunnels s) + sv_lost s < 2 ^ 64"
  shows "unat (active_count (sv_shutdown s)) = card (sv_open s) + card (sv_tunnels s) + sv_lost s \<and>
    sv_tunnels t = {} \<and> sv_lost t = 0 \<and> \<not> is_ready (sv_shutdown t) \<and>
    (connections t = {} \<or> (\<exists>c. sv_accept t = Accepted c \<and> connections t = {c}))"
proof -
  have inv: "server_inv s" using assms(1) by (rule reachable_inv)
  from assms(2-4) have d: "is_shutting_down (sv_shutdown s)" "active_count (sv_shutdown s) = 0" "t = s\<lparr>sv_drained := True\<rparr>"
    by (auto elim!: server_stepE)
  have "counted s < 2 ^ 64" using assms(5) by (simp add: counted_def)
  with inv have count: "unat (active_count (sv_shutdown s)) = counted s"
    by (simp add: server_inv_def unat_of_nat)
  with d(2) have "counted s = 0" by simp
  then have "sv_open t = {}" "sv_tunnels t = {}" "sv_lost t = 0"
    using inv d(3) by (auto simp: server_inv_def counted_def)
  with count d show ?thesis by (auto simp: counted_def is_ready_def connections_def)
qed

text \<open>A run of the server: the state after each step.\<close>

definition sample_server :: "bool \<Rightarrow> u64 \<Rightarrow> accept_loop \<Rightarrow> nat set \<Rightarrow> nat set \<Rightarrow> server" where
  "sample_server down n a os ts =
     \<lparr>sv_shutdown = \<lparr>is_shutting_down = down, active_connections = n\<rparr>, sv_accept = a, sv_open = os,
      sv_tunnels = ts, sv_lost = 0, sv_drained = False\<rparr>"

lemma sample_accepts:
  "reachable (sample_server False 0 Selecting {} {})" (is "reachable ?s")
  "reachable (sample_server False 0 (Accepted 7) {} {})"
  "reachable (sample_server False 1 Checking {7} {})"
proof -
  have i: "sample_server False 0 Checking {} {} = server_init"
    by (simp add: sample_server_def server_init_def ShutdownState_new_def)
  have "server_step (sample_server False 0 Checking {} {}) ?s"
    using accept_check [of "sample_server False 0 Checking {} {}"] by (simp add: sample_server_def)
  then show s: "reachable ?s" using reachable.intros i by metis
  have "server_step ?s (sample_server False 0 (Accepted 7) {} {})"
    using accept_conn [of ?s 7] by (simp add: sample_server_def)
  then show a: "reachable (sample_server False 0 (Accepted 7) {} {})" by (rule reachable.step [OF s])
  have "server_step (sample_server False 0 (Accepted 7) {} {}) (sample_server False 1 Checking {7} {})"
    using accept_count [of "sample_server False 0 (Accepted 7) {} {}" 7]
    by (simp add: sample_server_def connection_started_def)
  then show "reachable (sample_server False 1 Checking {7} {})" by (rule reachable.step [OF a])
qed

lemma sample_drains: "reachable (sample_server True 0 Checking {} {})"
proof -
  have 1: "server_step (sample_server False 1 Checking {7} {}) (sample_server False 2 Checking {7} {9})"
    using tunnel_open [of 7 "sample_server False 1 Checking {7} {}" 0 9]
    by (simp add: sample_server_def ConnectionGuard_new_def connection_started_def)
  have 2: "server_step (sample_server False 2 Checking {7} {9}) (sample_server False 1 Checking {} {9})"
    using conn_end [of 7 "sample_server False 2 Checking {7} {9}"]
    by (simp add: sample_server_def connection_ended_def)
  have 3: "server_step (sample_server False 1 Checking {} {9}) (sample_server True 1 Checking {} {9})"
    using shutdown_signal [of "sample_server False 1 Checking {} {9}"]
    by (simp add: sample_server_def initiate_shutdown_def)
  have 4: "server_step (sample_server True 1 Checking {} {9}) (sample_server True 0 Checking {} {})"
    using tunnel_end [of 9 "sample_server True 1 Checking {} {9}"]
    by (simp add: sample_server_def ConnectionGuard_drop_def connection_ended_def)
  show ?thesis using sample_accepts(3) 1 2 3 4 by (meson reachable.step)
qed

theorem drained_means_idle_witness:
  "reachable (sample_server False 1 Checking {7} {}) \<and>
   connections ((sample_server True 0 Checking {} {})\<lparr>sv_drained := True\<rparr>) = {}"
proof -
  let ?s = "sample_server True 0 Checking {} {}"
  have "server_step ?s (?s\<lparr>sv_drained := True\<rparr>)"
    by (rule drain) (simp_all add: active_count_def sample_server_def)
  from drained_means_idle [OF sample_drains this] sample_accepts(3) show ?thesis
    by (simp add: sample_server_def)
qed

text \<open>
  Note. The exception is real: between \<open>accept\<close> and the counting the drain loop can read zero, so the
  drain ends while a client's connection is held, and that connection is then served.
\<close>

theorem drain_misses_accepted:
  "\<exists>s t. reachable s \<and> sv_drained s \<and> sv_accept s = Accepted 7 \<and> server_step s t \<and> 7 \<in> sv_open t"
proof -
  let ?a = "sample_server False 0 (Accepted 7) {} {}"
  let ?b = "sample_server True 0 (Accepted 7) {} {}"
  let ?c = "?b\<lparr>sv_drained := True\<rparr>"
  let ?d = "?c\<lparr>sv_accept := Checking, sv_open := insert 7 (sv_open ?c),
    sv_shutdown := connection_started (sv_shutdown ?c)\<rparr>"
  have "server_step ?a ?b" using shutdown_signal [of ?a] by (simp add: sample_server_def initiate_shutdown_def)
  moreover have "server_step ?b ?c" by (rule drain) (simp_all add: active_count_def sample_server_def)
  ultimately have "reachable ?c" using sample_accepts(2) by (meson reachable.step)
  moreover have "server_step ?c ?d" by (rule accept_count) (simp add: sample_server_def)
  moreover have "sv_drained ?c" "sv_accept ?c = Accepted 7" "7 \<in> sv_open ?d" by (simp_all add: sample_server_def)
  ultimately show ?thesis by blast
qed

text \<open>
  Note. The accept loop reads the flag before it waits: a connection can still be accepted after the
  drain loop found nothing to wait for, until the loop is aborted.
\<close>

theorem accept_after_drain: "\<exists>s. reachable s \<and> sv_drained s \<and> sv_open s \<noteq> {} \<and>
  (\<exists>r. reachable r \<and> sv_drained r \<and> connections r = {} \<and> server_step\<^sup>*\<^sup>* r s)"
proof -
  let ?a = "sample_server False 0 Selecting {} {}"
  let ?b = "sample_server True 0 Selecting {} {}"
  let ?c = "?b\<lparr>sv_drained := True\<rparr>"
  let ?d = "?c\<lparr>sv_accept := Accepted 7\<rparr>"
  let ?e = "?d\<lparr>sv_accept := Checking, sv_open := insert 7 (sv_open ?d),
    sv_shutdown := connection_started (sv_shutdown ?d)\<rparr>"
  have "server_step ?a ?b" using shutdown_signal [of ?a] by (simp add: sample_server_def initiate_shutdown_def)
  moreover have "server_step ?b ?c" by (rule drain) (simp_all add: active_count_def sample_server_def)
  ultimately have c: "reachable ?c" using sample_accepts(1) by (meson reachable.step)
  have cd: "server_step ?c ?d" by (rule accept_conn) (simp_all add: sample_server_def)
  have de: "server_step ?d ?e" by (rule accept_count) (simp add: sample_server_def)
  have "reachable ?e" using c cd de by (meson reachable.step)
  moreover have "server_step\<^sup>*\<^sup>* ?c ?e" using cd de by (meson rtranclp.intros)
  moreover have "connections ?c = {}" by (simp add: connections_def sample_server_def)
  ultimately show ?thesis using c by (intro exI [of _ ?e] conjI exI [of _ ?c]) (simp_all add: sample_server_def)
qed

text \<open>Note. A connection task that panics is counted for ever: no later state is drained.\<close>

theorem panic_blocks_drain:
  assumes "reachable s" and "sv_lost s > 0" and "counted s < 2 ^ 64"
  shows "active_count (sv_shutdown s) \<noteq> 0"
proof
  assume "active_count (sv_shutdown s) = 0"
  then have "unat (of_nat (counted s) :: u64) = 0" using reachable_inv [OF assms(1)] by (simp add: server_inv_def)
  then have "counted s = 0" using assms(3) by (simp add: unat_of_nat)
  then show False using assms(2) by (simp add: counted_def)
qed

end
