(* ===== verification/Serve.thy ===== *)
theory Serve
  imports Connect Rate_Limit Shutdown
begin

text \<open>
  The serve path, \<open>crates/icebreaker-proxy/src/serve/\<close>: preparation of a request (\<open>http.rs\<close>), CONNECT and
  interception (\<open>connect.rs\<close>), forwarding (\<open>proxy_service.rs\<close>), the middleware stack and the token
  middleware (\<open>middleware/token_injection.rs\<close>). Parsing and building URIs is a parameter \<open>uri_lib\<close>
  of the \<open>http\<close> crate; the upstream client, the TLS handshakes and the copying are arguments. A
  handler returns the metrics it records; the duration histogram is not among them.
\<close>

section \<open>URIs\<close>

record uri_lib =
  ul_authority :: "string \<Rightarrow> (string, authority) result"
  ul_build :: "string \<Rightarrow> string \<Rightarrow> string \<Rightarrow> (string, uri) result"
  ul_path_and_query :: "uri \<Rightarrow> string option"

text \<open>Parsing an authority keeps its text; a URI that is built has the scheme and authority it was built from.\<close>

definition uri_laws :: "uri_lib \<Rightarrow> bool" where
  "uri_laws U \<longleftrightarrow>
     (\<forall>s a. ul_authority U s = Ok a \<longrightarrow> au_str a = s) \<and>
     (\<forall>s a p u. ul_build U s a p = Ok u \<longrightarrow> u_scheme u = Some s \<and> (\<exists>au. u_authority u = Some au \<and> au_str au = a))"

section \<open>Preparing a request (http.rs)\<close>

definition REQUEST_ID_HEADER :: string where
  "REQUEST_ID_HEADER = ''x-request-id''"

definition MAX_REQUEST_ID_LEN :: nat where
  "MAX_REQUEST_ID_LEN = 128"

record ConnContext =
  cx_remote_addr :: string
  cx_tls_info :: "TlsConnectionInfo option"
  cx_forced_upstream_scheme :: "UpstreamScheme option"
  cx_injected_authority :: "authority option"

definition ConnContext_new :: "string \<Rightarrow> TlsConnectionInfo option \<Rightarrow> ConnContext" where
  "ConnContext_new remote_addr tls_info =
     \<lparr>cx_remote_addr = remote_addr, cx_tls_info = tls_info, cx_forced_upstream_scheme = None,
      cx_injected_authority = None\<rparr>"

definition canonical_authority :: "uri_lib \<Rightarrow> authority \<Rightarrow> UpstreamScheme \<Rightarrow> authority tresult" where
  "canonical_authority U authority scheme =
     (if au_port authority \<noteq> Some (default_port scheme) then Ok authority
      else map_err (\<lambda>e. InvalidPayload (''invalid host in authority '' @ au_str authority @ '': '' @ e))
             (ul_authority U (au_host authority)))"

definition conn_info_of :: "ConnContext \<Rightarrow> ConnectionInfo" where
  "conn_info_of conn =
     (case cx_tls_info conn of
        Some info \<Rightarrow> with_tls (ConnectionInfo_new (cx_remote_addr conn)) info
      | None \<Rightarrow> ConnectionInfo_new (cx_remote_addr conn))"

definition inject_authority :: "uri_lib \<Rightarrow> 'h header_lib \<Rightarrow> ConnContext \<Rightarrow> authority \<Rightarrow> ('h, 'b) request \<Rightarrow>
    ('h, 'b) request tresult" where
  "inject_authority U H conn authority req =
     (let path = unwrap_or (ul_path_and_query U (rq_uri req)) ''/'';
          scheme = unwrap_or (cx_forced_upstream_scheme conn) UpstreamScheme_default
      in
      bindR (canonical_authority U authority scheme) (\<lambda>authority.
      bindR (map_err (\<lambda>e. InvalidPayload (''failed to build target URI for '' @ au_str authority @ '': '' @ e))
               (ul_build U (scheme_str scheme) (au_str authority) path)) (\<lambda>new_uri.
        let req = req\<lparr>rq_uri := new_uri\<rparr> in
        Ok (case h_value H (au_str authority) of
              Inr host_value \<Rightarrow> set_header H req ''host'' host_value
            | Inl _ \<Rightarrow> req))))"

definition prepare_request :: "uri_lib \<Rightarrow> 'h header_lib \<Rightarrow> ('h, 'b) request \<Rightarrow> ConnContext \<Rightarrow> ('h, 'b) request tresult" where
  "prepare_request U H req conn =
     (let req = req\<lparr>rq_ext_conn := Some (conn_info_of conn)\<rparr>;
          req = (case cx_tls_info conn of Some info \<Rightarrow> req\<lparr>rq_ext_tls := Some info\<rparr> | None \<Rightarrow> req);
          req = (case cx_forced_upstream_scheme conn of Some scheme \<Rightarrow> req\<lparr>rq_ext_scheme := Some scheme\<rparr> | None \<Rightarrow> req)
      in case cx_injected_authority conn of
           Some authority \<Rightarrow> inject_authority U H conn authority req
         | None \<Rightarrow> Ok req)"

definition request_id_char :: "char \<Rightarrow> bool" where
  "request_id_char c \<longleftrightarrow>
     c \<in> set ascii_upper_letters \<or> c \<in> set ascii_lower_letters \<or> c \<in> set digit_chars \<or> c \<in> set ''-_.''"

definition safe_request_id :: "string \<Rightarrow> bool" where
  "safe_request_id s \<longleftrightarrow> s \<noteq> [] \<and> length s \<le> MAX_REQUEST_ID_LEN \<and> list_all request_id_char s"

text \<open>The fresh id, 32 hexadecimal digits of a random number, is an argument.\<close>

definition resolve_request_id :: "'h header_lib \<Rightarrow> ('h, 'b) request \<Rightarrow> string \<Rightarrow> string" where
  "resolve_request_id H req fresh =
     (case header_str H req REQUEST_ID_HEADER of
        Some s \<Rightarrow> if safe_request_id s then s else fresh
      | None \<Rightarrow> fresh)"

definition request_host :: "'h header_lib \<Rightarrow> ('h, 'b) request \<Rightarrow> string" where
  "request_host H req =
     (case header_str H req ''host'' of
        Some s \<Rightarrow> s
      | None \<Rightarrow> (case u_authority (rq_uri req) of Some a \<Rightarrow> au_host a | None \<Rightarrow> []))"

section \<open>Forwarding (proxy\_service.rs)\<close>

type_synonym 'h raw_body = "(box_error, 'h) poll list"

definition forward_target :: "uri_lib \<Rightarrow> 'h header_lib \<Rightarrow> ('h, 'b) request \<Rightarrow> (box_error, uri) result" where
  "forward_target U H req =
     bindR (case u_authority (rq_uri req) of
              Some auth \<Rightarrow> Ok (au_str auth)
            | None \<Rightarrow> ok_or (header_str H req ''host'') (BoxOther ''missing Host header and no absolute URI'')) (\<lambda>authority.
     let scheme = scheme_str (unwrap_or (rq_ext_scheme req) UpstreamScheme_default);
         path = unwrap_or (ul_path_and_query U (rq_uri req)) ''/''
     in map_err (\<lambda>e. BoxOther (''failed to build URI: '' @ e)) (ul_build U scheme authority path))"

definition ProxyService_call :: "uri_lib \<Rightarrow> 'h header_lib \<Rightarrow>
    (('h, 'b) request \<Rightarrow> (string, ('h, 'h raw_body) response) result) \<Rightarrow> ('h, 'b) request \<Rightarrow>
    (box_error, ('h, 'h raw_body) response) result" where
  "ProxyService_call U H client req =
     bindR (forward_target U H req) (\<lambda>target_uri.
       map_err (\<lambda>e. BoxOther (''upstream request failed: '' @ e)) (client (req\<lparr>rq_uri := target_uri\<rparr>)))"

section \<open>The middleware stack\<close>

fun box_to_string :: "box_error \<Rightarrow> string" where
  "box_to_string (BoxTok e) = to_string e"
| "box_to_string (BoxOther s) = s"

text \<open>\<open>TokenInjectionService::call\<close>; the inner service records metrics and answers.\<close>

definition TokenInjectionService_call :: "'h admission_libs \<Rightarrow> 's check_fn \<Rightarrow> 's TokenAdmission \<Rightarrow>
    (('h, 'b) request \<Rightarrow> metric list \<times> (box_error, 'r) result) \<Rightarrow> ('h, 'b) request \<Rightarrow> admission_clock \<Rightarrow>
    ('r recorded \<times> 's TokenAdmission) outcome" where
  "TokenInjectionService_call L chk admission inner request ck =
     (case admit L chk admission request ck of
        Panic m \<Rightarrow> Panic m
      | Returns ((w, Inl e), admission') \<Rightarrow> Returns ((w, Err e), admission')
      | Returns ((w, Inr request), admission') \<Rightarrow>
          (case inner request of
             (w', r) \<Rightarrow> Returns ((w @ w',
               map_err (\<lambda>e. HttpError (''upstream request failed: '' @ box_to_string e)) r), admission')))"

text \<open>Response scanning over the proxy service: the inner service of the token middleware.\<close>

definition scanned_proxy :: "uri_lib \<Rightarrow> 'h header_lib \<Rightarrow> ('h, 'r) decoder_lib \<Rightarrow>
    (('h, 'b) request \<Rightarrow> (string, ('h, 'h raw_body) response) result) \<Rightarrow> ('h, 'b) request \<Rightarrow> ('h, 'r) scan_result" where
  "scanned_proxy U H D client request =
     DynamicResponseScanService_call H D ResponseScanConfig_new request (ProxyService_call U H client request)"

record ('s) stack_state =
  ss_limiter :: "RateLimiter option"
  ss_admission :: "'s TokenAdmission"

text \<open>The stack of \<open>serve_http\<close>: the limiter if there is one, then the token middleware, then scanning.\<close>

definition stack_call :: "'h admission_libs \<Rightarrow> uri_lib \<Rightarrow> ('h, 'r) decoder_lib \<Rightarrow> 's check_fn \<Rightarrow>
    (('h, 'b) request \<Rightarrow> (string, ('h, 'h raw_body) response) result) \<Rightarrow> 's stack_state \<Rightarrow> ('h, 'b) request \<Rightarrow>
    instant \<Rightarrow> admission_clock \<Rightarrow> (('h, ('h, 'r) scanned_body) response recorded \<times> 's stack_state) outcome" where
  "stack_call L U D chk client st request limit_now ck =
     (let token_injection = (\<lambda>st.
            case TokenInjectionService_call L chk (ss_admission st) (scanned_proxy U (al_headers L) D client) request ck of
              Panic m \<Rightarrow> Panic m
            | Returns (r, admission) \<Rightarrow> Returns (r, st\<lparr>ss_admission := admission\<rparr>))
      in case ss_limiter st of
           None \<Rightarrow> token_injection st
         | Some limiter \<Rightarrow>
             (case check limiter (extract_rate_limit_key request) limit_now of
                (Panic m, _) \<Rightarrow> Panic m
              | (Returns False, limiter') \<Rightarrow> Returns (([], Err RateLimitExceeded), st\<lparr>ss_limiter := Some limiter'\<rparr>)
              | (Returns True, limiter') \<Rightarrow>
                  (case token_injection (st\<lparr>ss_limiter := Some limiter'\<rparr>) of
                     Panic m \<Rightarrow> Panic m
                   | Returns ((w, r), st') \<Rightarrow>
                       Returns ((w, map_err (\<lambda>e. HttpError (''upstream request failed: '' @ to_string e)) r), st'))))"

text \<open>
  The end of a request in \<open>serve_connection_with\<close>: the answer of the stack, or \<open>None\<close> when the request
  timeout elapsed first.
\<close>

definition finish_request :: "'h header_lib \<Rightarrow> string \<Rightarrow> string \<Rightarrow> ('h, 'c) response tresult option \<Rightarrow> ('h, 'c) response recorded" where
  "finish_request H request_id method result =
     (case result of
        Some (Inr response) \<Rightarrow>
          ([record_request method (rs_status response) None],
           Ok (case h_value H request_id of
                 Inr v \<Rightarrow> response\<lparr>rs_headers := h_insert H (rs_headers response) REQUEST_ID_HEADER v\<rparr>
               | Inl _ \<Rightarrow> response))
      | Some (Inl e) \<Rightarrow> ([record_request method (status_code e) None, record_request_error (error_class e)], Err e)
      | None \<Rightarrow> ([record_request method (status_code Timeout) None, record_request_error (error_class Timeout)], Err Timeout))"

definition serve_request :: "'h admission_libs \<Rightarrow> uri_lib \<Rightarrow> ('h, 'r) decoder_lib \<Rightarrow> 's check_fn \<Rightarrow>
    (('h, 'b) request \<Rightarrow> (string, ('h, 'h raw_body) response) result) \<Rightarrow> 's stack_state \<Rightarrow> ConnContext \<Rightarrow> string \<Rightarrow>
    ('h, 'b) request \<Rightarrow> instant \<Rightarrow> admission_clock \<Rightarrow> (('h, ('h, 'r) scanned_body) response recorded \<times> 's stack_state) outcome" where
  "serve_request L U D chk client st conn fresh req limit_now ck =
     (let request_id = resolve_request_id (al_headers L) req fresh; method = rq_method req in
      case prepare_request U (al_headers L) req conn of
        Inl e \<Rightarrow> Returns (([record_request method (status_code e) None, record_request_error (error_class e)], Err e), st)
      | Inr req \<Rightarrow>
          (case stack_call L U D chk client st req limit_now ck of
             Panic m \<Rightarrow> Panic m
           | Returns ((w, r), st') \<Rightarrow>
               (case finish_request (al_headers L) request_id method (Some r) of
                  (w', r') \<Rightarrow> Returns ((w @ w', r'), st'))))"

section \<open>CONNECT (connect.rs)\<close>

record ('s, 'n) ConnectDeps =
  cd_handler :: "('s, 'n) ConnectHandler"
  cd_token_optional :: bool
  cd_host_policy :: HostValidationConfig
  cd_bump_resolver :: bool
  cd_no_bump_policy :: "HostValidationConfig option"
  cd_rate_limiter :: "RateLimiter option"
  cd_tls_info :: "TlsConnectionInfo option"
  cd_shutdown :: ShutdownState

definition connect_target_with_policy :: "('h, 'b) request \<Rightarrow> HostValidationConfig \<Rightarrow> (string \<times> u16) tresult" where
  "connect_target_with_policy req policy =
     bindR (ok_or (u_authority (rq_uri req)) (InvalidPayload ''CONNECT request missing authority'')) (\<lambda>authority.
     bindR (policy_validate policy (au_str authority)) (\<lambda>_.
       Ok (au_host authority, unwrap_or (au_port authority) 443)))"

definition connect_success_response :: "u16 \<times> string" where
  "connect_success_response = (200, [])"

definition has_token :: "'h header_lib \<Rightarrow> ('h, 'b) request \<Rightarrow> bool" where
  "has_token H req \<longleftrightarrow> h_get H (rq_headers req) TOKEN_HEADER \<noteq> None \<or>
     h_get H (rq_headers req) ''proxy-authorization'' \<noteq> None"

text \<open>The target of a CONNECT: by its token, or by the policy when there is none.\<close>

definition connect_target :: "'h admission_libs \<Rightarrow> 's check_fn \<Rightarrow> ('s, 'n) ConnectDeps \<Rightarrow> ('h, 'b) request \<Rightarrow>
    TlsConnectionInfo option \<Rightarrow> connect_clock \<Rightarrow> ((string \<times> u16) recorded \<times> ('s, 'n) ConnectDeps) outcome" where
  "connect_target L chk deps req tls_info ck =
     (case validate_connect L (cd_handler deps) req tls_info ck of
        Inr (payload, host, port) \<Rightarrow>
          (case enforce_replay chk (cd_handler deps) payload ck of
             Panic m \<Rightarrow> Panic m
           | Returns ((w, r), handler) \<Rightarrow> Returns ((w, bindR r (\<lambda>_. Ok (host, port))), deps\<lparr>cd_handler := handler\<rparr>))
      | Inl e \<Rightarrow> Returns (([],
          (case e of
             ProxyAuthRequired _ \<Rightarrow>
               if cd_token_optional deps \<and> \<not> has_token (al_headers L) req
               then connect_target_with_policy req (cd_host_policy deps) else Err e
           | _ \<Rightarrow> Err e)), deps))"

text \<open>The control response, and the tunnel that is spawned with its guard.\<close>

definition handle_connect :: "'h admission_libs \<Rightarrow> 's check_fn \<Rightarrow> ('s, 'n) ConnectDeps \<Rightarrow> ('h, 'b) request \<Rightarrow> string \<Rightarrow>
    TlsConnectionInfo option \<Rightarrow> connect_clock \<Rightarrow>
    ((metric list \<times> (u16 \<times> string) \<times> (string \<times> u16) option) \<times> ('s, 'n) ConnectDeps) outcome" where
  "handle_connect L chk deps req remote_addr tls_info ck =
     (let proceed = (\<lambda>deps.
        case connect_target L chk deps req tls_info ck of
          Panic m \<Rightarrow> Panic m
        | Returns ((w, Inr target), deps) \<Rightarrow>
            Returns ((w @ [record_connect_tunnel], connect_success_response, Some target),
                     deps\<lparr>cd_shutdown := ConnectionGuard_new (cd_shutdown deps)\<rparr>)
        | Returns ((w, Inl e), deps) \<Rightarrow>
            Returns ((w @ [record_token_validation Invalid], error_response e, None), deps))
      in case cd_rate_limiter deps of
           None \<Rightarrow> proceed deps
         | Some limiter \<Rightarrow>
             (let conn_info = (case tls_info of
                    Some info \<Rightarrow> with_tls (ConnectionInfo_new remote_addr) info
                  | None \<Rightarrow> ConnectionInfo_new remote_addr)
              in case check limiter (rate_limit_key conn_info) (kc_limit ck) of
                   (Panic m, _) \<Rightarrow> Panic m
                 | (Returns False, limiter') \<Rightarrow>
                     Returns (([], error_response RateLimitExceeded, None), deps\<lparr>cd_rate_limiter := Some limiter'\<rparr>)
                 | (Returns True, limiter') \<Rightarrow> proceed (deps\<lparr>cd_rate_limiter := Some limiter'\<rparr>)))"

datatype tunnel_route = BumpRoute | TunnelRoute

definition handle_tunnel_or_bump :: "('s, 'n) ConnectDeps \<Rightarrow> string \<Rightarrow> tunnel_route" where
  "handle_tunnel_or_bump deps host =
     (let in_no_bump = (case cd_no_bump_policy deps of None \<Rightarrow> False | Some policy \<Rightarrow> is_ok (policy_validate policy host))
      in if cd_bump_resolver deps \<and> \<not> in_no_bump then BumpRoute else TunnelRoute)"

text \<open>The stream and the context an intercepted CONNECT is served with, if interception succeeds.\<close>

definition bump_and_serve :: "uri_lib \<Rightarrow> (string \<Rightarrow> 'a option) \<Rightarrow> ('a \<Rightarrow> (string, 'io) result) \<Rightarrow> string \<Rightarrow> u16 \<Rightarrow> string \<Rightarrow>
    TlsConnectionInfo option \<Rightarrow> ('io \<times> ConnContext) option" where
  "bump_and_serve U acceptor_for accept host port remote_addr tls_info =
     Option.bind (acceptor_for host) (\<lambda>acceptor.
     Option.bind (ok (accept acceptor)) (\<lambda>tls_stream.
     Option.bind (ok (ul_authority U (host @ '':'' @ nat_to_string (unat port)))) (\<lambda>authority.
       Some (tls_stream, \<lparr>cx_remote_addr = remote_addr, cx_tls_info = tls_info,
         cx_forced_upstream_scheme = Some Https, cx_injected_authority = Some authority\<rparr>))))"

definition run_tunnel :: "'n ipnet_lib \<Rightarrow> task_resolver \<Rightarrow> (SocketAddr \<Rightarrow> 'c connect_event) \<Rightarrow> copy_event \<Rightarrow>
    ('s, 'n) ConnectHandler \<Rightarrow> string \<Rightarrow> u16 \<Rightarrow> ('c \<times> SocketAddr \<times> (u64 \<times> u64) tresult) option" where
  "run_tunnel N resolve tcp copy_end handler host port =
     Option.bind (ok (resolve_and_validate N resolve handler host port)) (\<lambda>addr.
     Option.bind (ok (connect_upstream tcp addr)) (\<lambda>upstream.
       Some (upstream, addr, copy_bidirectional copy_end)))"

section \<open>Assembly (mod.rs, http.rs)\<close>

record ('s, 'n) ProxyContext =
  px_crypto :: TokenCrypto
  px_ip_filter :: "'n IpFilter"
  px_nonce_store :: "'s option"
  px_clock_skew :: ClockSkewConfig
  px_rate_limiter :: "RateLimiter option"
  px_response_scan_enabled :: bool
  px_request_timeout :: duration
  px_shutdown :: ShutdownState
  px_token_optional :: bool
  px_host_policy :: HostValidationConfig
  px_bump_resolver :: bool
  px_no_bump_policy :: "HostValidationConfig option"

definition connect_deps :: "('s, 'n) ProxyContext \<Rightarrow> ConnContext \<Rightarrow> ('s, 'n) ConnectDeps option" where
  "connect_deps ctx conn =
     (if cx_injected_authority conn = None
      then Some \<lparr>cd_handler = ch_with_nonce_store
               (with_all_options (px_crypto ctx) (px_ip_filter ctx) TunnelConfig_default (px_clock_skew ctx)) (px_nonce_store ctx),
             cd_token_optional = px_token_optional ctx, cd_host_policy = px_host_policy ctx,
             cd_bump_resolver = px_bump_resolver ctx, cd_no_bump_policy = px_no_bump_policy ctx,
             cd_rate_limiter = px_rate_limiter ctx, cd_tls_info = cx_tls_info conn, cd_shutdown = px_shutdown ctx\<rparr>
      else None)"

definition stack_of :: "('s, 'n) ProxyContext \<Rightarrow> 's stack_state" where
  "stack_of ctx =
     (let admission = with_token_optional (ta_with_clock_skew (with_response_scan (TokenAdmission_new (px_crypto ctx))
            (px_response_scan_enabled ctx)) (px_clock_skew ctx)) (px_token_optional ctx) (px_host_policy ctx);
          admission = (case px_nonce_store ctx of Some store \<Rightarrow> with_nonce_store admission store | None \<Rightarrow> admission)
      in \<lparr>ss_limiter = px_rate_limiter ctx, ss_admission = admission\<rparr>)"

text \<open>What becomes of a request on a connection: a CONNECT is handled in front of the stack.\<close>

definition dispatch :: "('s, 'n) ProxyContext \<Rightarrow> ConnContext \<Rightarrow> ('h, 'b) request \<Rightarrow> ('s, 'n) ConnectDeps option" where
  "dispatch ctx conn req =
     Option.bind (connect_deps ctx conn) (\<lambda>deps. if is_connect_request req then Some deps else None)"

section \<open>Lemmas\<close>

lemma connect_target_Ok:
  assumes "connect_target L chk deps req tls ck = Returns ((w, Ok (host, port)), deps')"
  shows "(\<exists>token payload. connect_presents L (cd_handler deps) req (kc_unseal ck) token payload \<and>
       connect_permitted L (cd_handler deps) req tls token payload host port \<and>
       connect_expiration (ch_clock_skew (cd_handler deps)) payload (kc_check ck) = Ok () \<and>
       connect_replay_passed chk (cd_handler deps) (cd_handler deps') payload ck) \<or>
     \<not> has_token (al_headers L) req \<and> cd_token_optional deps \<and>
       connect_target_with_policy req (cd_host_policy deps) = Ok (host, port) \<and> deps' = deps"
proof (cases "validate_connect L (cd_handler deps) req tls ck")
  case (Inl e)
  with assms show ?thesis by (auto simp: connect_target_def split: TokenizerError.splits if_splits)
next
  case (Inr x)
  obtain payload h p where x: "x = (payload, h, p)" by (cases x)
  with assms Inr obtain u where "enforce_replay chk (cd_handler deps) payload ck = Returns ((w, Ok u), cd_handler deps')"
    and hp: "h = host" "p = port"
    by (auto simp: connect_target_def split: outcome.splits prod.splits)
  from enforce_replay_Ok [OF this(1)] Inr [unfolded x validate_connect_Ok] hp show ?thesis by blast
qed

lemma handle_connect_tunnel:
  assumes "handle_connect L chk deps req remote tls ck = Returns ((w, resp, Some (host, port)), deps')"
  obtains deps1 deps2 w' where "connect_target L chk deps1 req tls ck = Returns ((w', Ok (host, port)), deps2)"
    "cd_handler deps1 = cd_handler deps" "cd_token_optional deps1 = cd_token_optional deps"
    "cd_host_policy deps1 = cd_host_policy deps" "cd_handler deps' = cd_handler deps2" "resp = connect_success_response"
  using assms unfolding handle_connect_def Let_def
  by (fastforce split: option.splits outcome.splits prod.splits sum.splits bool.splits)

lemma forward_target_Ok:
  assumes "uri_laws U" and "forward_target U H req = Ok target"
  obtains authority au where "u_authority target = Some au" "au_str au = authority"
    "u_scheme target = Some (scheme_str (unwrap_or (rq_ext_scheme req) UpstreamScheme_default))"
    "case u_authority (rq_uri req) of Some a \<Rightarrow> authority = au_str a | None \<Rightarrow> header_str H req ''host'' = Some authority"
  using assms by (fastforce simp: forward_target_def Let_def uri_laws_def split: option.splits)

lemma token_injection_Ok:
  assumes "TokenInjectionService_call L chk admission inner request ck = Returns ((w, Ok r), admission')"
  obtains w1 w2 request' where "admit L chk admission request ck = Returns ((w1, Ok request'), admission')"
    "inner request' = (w2, Ok r)"
  using assms by (fastforce simp: TokenInjectionService_call_def split: outcome.splits prod.splits sum.splits)

text \<open>A stack that answers has passed the token middleware.\<close>

lemma stack_call_Ok:
  assumes "stack_call L U D chk client st request limit_now ck = Returns ((w, Ok r), st')"
  obtains w' where "TokenInjectionService_call L chk (ss_admission st) (scanned_proxy U (al_headers L) D client) request ck =
      Returns ((w', Ok r), ss_admission st')"
  using assms by (fastforce simp: stack_call_def Let_def split: option.splits outcome.splits prod.splits bool.splits)

section \<open>Properties\<close>

text \<open>
  Property C26. A CONNECT opens a tunnel only with a token that unseals, whose client authentication was
  shown, that allows the requested authority, is within its lifetime and passed the replay check, or,
  when the request carries no token at all and tokens are optional, to an authority that the static
  policy admits. A token that is present and rejected never falls back to the policy.
\<close>

theorem connect_tunnel_sound:
  assumes "handle_connect L chk deps req remote tls ck = Returns ((w, resp, Some (host, port)), deps')"
  shows "(\<exists>token payload. connect_presents L (cd_handler deps) req (kc_unseal ck) token payload \<and>
       connect_permitted L (cd_handler deps) req tls token payload host port \<and>
       connect_expiration (ch_clock_skew (cd_handler deps)) payload (kc_check ck) = Ok () \<and>
       connect_replay_passed chk (cd_handler deps) (cd_handler deps') payload ck) \<or>
     (\<exists>a. \<not> has_token (al_headers L) req \<and> cd_token_optional deps \<and> u_authority (rq_uri req) = Some a \<and>
       policy_validate (cd_host_policy deps) (au_str a) = Ok () \<and> host = au_host a \<and> port = unwrap_or (au_port a) 443)"
  using assms
proof (rule handle_connect_tunnel)
  fix deps1 deps2 w'
  assume t: "connect_target L chk deps1 req tls ck = Returns ((w', Ok (host, port)), deps2)"
    and d: "cd_handler deps1 = cd_handler deps" "cd_token_optional deps1 = cd_token_optional deps"
      "cd_host_policy deps1 = cd_host_policy deps" "cd_handler deps' = cd_handler deps2"
  from connect_target_Ok [OF t] show ?thesis
    unfolding d connect_target_with_policy_def by auto
qed

definition connect_request :: "string \<Rightarrow> ((string \<times> string) list, unit) request" where
  "connect_request h = \<lparr>rq_method = ''CONNECT'',
     rq_uri = \<lparr>u_scheme = None, u_authority = Some \<lparr>au_str = h @ '':443'', au_host = h, au_port = Some 443\<rparr>,
       u_path = [], u_query = None\<rparr>,
     rq_headers = [], rq_ext_tls = None, rq_ext_conn = None, rq_ext_scheme = None, rq_ext_patterns = None, rq_body = ()\<rparr>"

definition sample_deps :: "(InMemoryNonceStore, 'n) ConnectDeps" where
  "sample_deps = \<lparr>cd_handler = ConnectHandler_new (TokenCrypto_new (with_primary (sample_key ''k1''))) IpFilter_permissive,
     cd_token_optional = True, cd_host_policy = allow_all, cd_bump_resolver = False, cd_no_bump_policy = None,
     cd_rate_limiter = None, cd_tls_info = None, cd_shutdown = ShutdownState_new\<rparr>"

definition sample_connect_clock :: connect_clock where
  "sample_connect_clock = \<lparr>kc_limit = 0, kc_unseal = 900, kc_check = 900, kc_ttl = 900, kc_mono = 0\<rparr>"

theorem connect_tunnel_sound_witness:
  "\<exists>w deps'. handle_connect sample_libs check_and_record (sample_deps :: (InMemoryNonceStore, nat) ConnectDeps)
       (connect_request ''a.io'') ''10.0.0.1'' None sample_connect_clock =
     Returns ((w, connect_success_response, Some (''a.io'', 443)), deps') \<and>
     policy_validate allow_all ''a.io:443'' = Ok ()"
proof -
  let ?deps = "sample_deps :: (InMemoryNonceStore, nat) ConnectDeps" and ?req = "connect_request ''a.io''"
  have nt: "h_get (al_headers sample_libs) (rq_headers ?req) k = None" for k
    by (simp add: connect_request_def sample_libs_def assoc_headers_def)
  then have v: "validate_connect sample_libs (cd_handler ?deps) ?req None sample_connect_clock =
      Err (ProxyAuthRequired ''missing token header for CONNECT'')"
    by (simp add: validate_connect_def connect_token_def)
  have p: "policy_validate allow_all ''a.io:443'' = Ok ()"
    by (simp add: policy_validate_eq policy_blocks_def policy_lists_def allow_all_def HostValidationConfig_new_def
        match_all_regex_def split: prod.split)
  then obtain w deps' where c: "handle_connect sample_libs check_and_record ?deps ?req ''10.0.0.1'' None sample_connect_clock =
     Returns ((w, connect_success_response, Some (''a.io'', 443)), deps')"
  proof -
    have d: "cd_rate_limiter ?deps = None" "cd_token_optional ?deps" "cd_host_policy ?deps = allow_all"
      by (simp_all add: sample_deps_def)
    have "connect_target_with_policy ?req allow_all = Ok (''a.io'', 443)"
      using p by (simp add: connect_target_with_policy_def connect_request_def)
    then have "connect_target sample_libs check_and_record ?deps ?req None sample_connect_clock = Returns (([], Ok (''a.io'', 443)), ?deps)"
      using v d nt by (simp add: connect_target_def has_token_def)
    then show ?thesis using that d by (simp add: handle_connect_def)
  qed
  from connect_tunnel_sound [OF c] nt c p show ?thesis by auto
qed

text \<open>
  Property C28. A tunnel is connected only to an address the target resolved to, and only when the filter
  allows every address it resolved to.
\<close>

theorem tunnel_only_allowed:
  assumes "run_tunnel N resolve tcp copy_end handler host port = Some (stream, addr, r)"
  shows "tcp addr = Connected stream \<and>
    (\<exists>addrs. resolve (host @ '':'' @ nat_to_string (unat port)) = Ok (Ok addrs) \<and> addr \<in> set addrs \<and>
      (\<forall>a \<in> set addrs. is_allowed N (ch_ip_filter handler) (fst a)))"
proof -
  from assms have r: "resolve_and_validate N resolve handler host port = Ok addr" and "connect_upstream tcp addr = Ok stream"
    by (auto simp: run_tunnel_def bind_eq_Some_conv)
  moreover have "tcp addr = Connected stream"
    using \<open>connect_upstream tcp addr = Ok stream\<close> by (simp add: connect_upstream_def split: connect_event.splits)
  ultimately show ?thesis using resolve_and_validate_Ok [OF r] by simp
qed

theorem tunnel_only_allowed_witness:
  "\<exists>f. IpFilter_new pair_nets NetworkProtectionConfig_default = Ok f \<and> is_allowed pair_nets f (V4 (8, 8, 8, 8)) \<and>
     run_tunnel pair_nets (\<lambda>_. Ok (Ok [(V4 (8, 8, 8, 8), 443)])) (\<lambda>_. Connected ()) (ClientCopy (Ok 7))
       (ConnectHandler_new (TokenCrypto_new (with_primary (sample_key ''k1''))) f :: (unit, _) ConnectHandler) ''a.io'' 443
       = Some ((), (V4 (8, 8, 8, 8), 443), Ok (7, 0))"
proof -
  obtain f where f: "IpFilter_new pair_nets NetworkProtectionConfig_default = Ok f"
    by (simp add: IpFilter_new_def NetworkProtectionConfig_default_def)
  let ?h = "ConnectHandler_new (TokenCrypto_new (with_primary (sample_key ''k1''))) f :: (unit, _) ConnectHandler"
  have "\<not> ip_forbidden (V4 (8, 8, 8, 8))"
    by (simp add: ip_forbidden_def v4_forbidden_def v4_forbidden_ranges_def)
  then have "check_ip pair_nets f (V4 (8, 8, 8, 8)) = None"
    using check_ip_exact [OF pair_nets_laws IpFilter_new_default [OF f], of "V4 (8, 8, 8, 8)"]
    by (simp add: ip_wf_def)
  then have t: "run_tunnel pair_nets (\<lambda>_. Ok (Ok [(V4 (8, 8, 8, 8), 443)])) (\<lambda>_. Connected ()) (ClientCopy (Ok 7)) ?h ''a.io'' 443
      = Some ((), (V4 (8, 8, 8, 8), 443), Ok (7, 0))"
    by (simp add: run_tunnel_def resolve_and_validate_def validate_ip_def ConnectHandler_new_def connect_upstream_def
        copy_bidirectional_def)
  from tunnel_only_allowed [OF t] f t show ?thesis by (auto simp: ConnectHandler_new_def)
qed

text \<open>
  Property C27. The proxy forwards an admitted request to the authority that was checked: the authority of
  the URI it builds is one the token's host constraint accepts. For a request in absolute form that always
  holds; for one in origin form, whose authority is its host header, it is shown for a processor that
  leaves that header as it was. A request in origin form is sent over the token's scheme.
\<close>

theorem forwarded_to_checked_host:
  assumes "header_laws (al_headers L)" and "uri_laws U"
    and "admit L chk self request ck = Returns ((w, Ok request'), self')"
    and "h_get (al_headers L) (rq_headers request) TOKEN_HEADER \<noteq> None"
    and "forward_target U (al_headers L) request' = Ok target"
    and "u_authority (rq_uri request) = None \<Longrightarrow>
      h_get (al_headers L) (rq_headers request') ''host'' = h_get (al_headers L) (rq_headers request) ''host''"
  shows "\<exists>token payload au. presents L self request (ck_unseal ck) token payload \<and> u_authority target = Some au \<and>
    validate_host (al_regex L) payload (au_str au) = Ok () \<and>
    (u_scheme (rq_uri request) = None \<longrightarrow>
       u_scheme target = Some (scheme_str (unwrap_or (tp_upstream_scheme payload) UpstreamScheme_default)))"
proof -
  obtain token payload where t: "presents L self request (ck_unseal ck) token payload"
    "request_permitted L self request token payload" "forwards L self payload request request'"
    using admission_checks [OF assms(1,3,4)] by blast
  from t(2) obtain host where host: "target_host (al_headers L) request = Ok host" "validate_host (al_regex L) payload host = Ok ()"
    by (auto simp: request_permitted_def)
  from forward_target_Ok [OF assms(2,5)] obtain authority au where
    f: "u_authority target = Some au" "au_str au = authority"
      "u_scheme target = Some (scheme_str (unwrap_or (rq_ext_scheme request') UpstreamScheme_default))"
      "case u_authority (rq_uri request') of Some a \<Rightarrow> authority = au_str a
         | None \<Rightarrow> header_str (al_headers L) request' ''host'' = Some authority" by metis
  have "authority = host"
    using f(4) host(1) t(3) assms(6)
    by (auto simp: target_host_def forwards_def header_str_def bind_eq_Some_conv split: option.splits)
  moreover have "rq_ext_scheme request' = Some (unwrap_or (tp_upstream_scheme payload) UpstreamScheme_default)"
    using t(3) by (simp add: forwards_def)
  ultimately show ?thesis using f host(2) t(1) by auto
qed

text \<open>
  Note. The documentation of the scheme says that the scheme of a request in absolute form wins and that
  such requests are not affected; the token's scheme, or HTTPS without one, replaces it for them too.
\<close>

theorem token_scheme_overrides_absolute_form:
  assumes "header_laws (al_headers L)" and "uri_laws U"
    and "admit L chk self request ck = Returns ((w, Ok request'), self')"
    and "h_get (al_headers L) (rq_headers request) TOKEN_HEADER \<noteq> None"
    and "forward_target U (al_headers L) request' = Ok target"
    and "u_scheme (rq_uri request) = Some requested"
  shows "\<exists>token payload. presents L self request (ck_unseal ck) token payload \<and>
    u_scheme target = Some (scheme_str (unwrap_or (tp_upstream_scheme payload) UpstreamScheme_default))"
proof -
  obtain token payload where t: "presents L self request (ck_unseal ck) token payload"
    "forwards L self payload request request'"
    using admission_checks [OF assms(1,3,4)] by blast
  from forward_target_Ok [OF assms(2,5)]
  have "u_scheme target = Some (scheme_str (unwrap_or (rq_ext_scheme request') UpstreamScheme_default))" by metis
  with t show ?thesis by (auto simp: forwards_def)
qed

text \<open>A URI library that keeps the parts it is given.\<close>

definition plain_uris :: uri_lib where
  "plain_uris = \<lparr>ul_authority = (\<lambda>s. Ok \<lparr>au_str = s, au_host = fst (split_host_port s), au_port = snd (split_host_port s)\<rparr>),
     ul_build = (\<lambda>s a p. Ok \<lparr>u_scheme = Some s, u_authority = Some \<lparr>au_str = a, au_host = fst (split_host_port a),
       au_port = snd (split_host_port a)\<rparr>, u_path = p, u_query = None\<rparr>),
     ul_path_and_query = (\<lambda>u. Some (u_path u))\<rparr>"

lemma plain_uris_laws: "uri_laws plain_uris"
  by (simp add: uri_laws_def plain_uris_def)

definition sample_forwarded :: "((string \<times> string) list, unit) request" where
  "sample_forwarded = (token_request ''Tokenizer t'')
     \<lparr>rq_headers := [(''authorization'', ''Bearer s3cret''), (''host'', ''a.io'')], rq_ext_scheme := Some Https,
      rq_ext_patterns := Some (generate_scan_patterns plain_encoders ''s3cret'')\<rparr>"

lemma sample_admitted:
  "\<exists>w. admit sample_libs chk sample_admission (token_request ''Tokenizer t'') sample_clock =
     Returns ((w, Ok sample_forwarded), sample_admission)"
proof -
  have L: "sample_libs\<lparr>al_payload_serde := one_payload_serde sample_payload\<rparr> = sample_libs"
    by (simp add: sample_libs_def)
  let ?t = "SealedToken_new ''k1'' (replicate 72 (CHR ''a''))"
  have "presents sample_libs sample_admission (token_request ''Tokenizer t'') (ck_unseal sample_clock) ?t sample_payload"
    using sample_presents [of sample_admission sample_payload 900] sample_lifetime
    by (simp add: L sample_admission_def TokenAdmission_new_def sample_clock_def)
  moreover have "request_permitted sample_libs sample_admission (token_request ''Tokenizer t'') ?t sample_payload"
    using sample_permitted [of sample_payload "one_payload_serde sample_payload"]
    by (simp add: L sample_payload_fields)
  moreover have scheme: "tp_upstream_scheme sample_payload = None"
    by (simp add: sample_payload_def b_expires_at_def b_allowed_host_def payload_builder_def)
  then have "finalize sample_libs sample_admission (token_request ''Tokenizer t'') sample_payload (ck_process sample_clock) =
      ([record_token_validation Success, record_processor_used ''inject''], Ok sample_forwarded)"
    by (simp add: finalize_def Let_def sample_libs_def validate_processor_config_def inject_process_def
        InjectConfig_bearer_def assoc_headers_def format_value_def visible_ascii_def sample_payload_fields
        sample_admission_def TokenAdmission_new_def sample_forwarded_def set_header_def token_request_def TOKEN_HEADER_def bearer_request_def
        to_lower_def ascii_lower_def ascii_upper_letters_def ascii_lower_letters_def UpstreamScheme_default_def
        scheme)
  ultimately show ?thesis using admit_token_complete sample_payload_fields(8) by metis
qed

theorem forwarded_to_checked_host_witness:
  "\<exists>target au. forward_target plain_uris assoc_headers sample_forwarded = Ok target \<and> u_authority target = Some au \<and>
     au_str au = ''a.io''"
proof -
  obtain w where a: "admit sample_libs check_and_record sample_admission (token_request ''Tokenizer t'') sample_clock =
     Returns ((w, Ok sample_forwarded), sample_admission)" using sample_admitted by blast
  have H: "al_headers sample_libs = assoc_headers" by (simp add: sample_libs_def)
  obtain target where t: "forward_target plain_uris assoc_headers sample_forwarded = Ok target"
    and au: "\<exists>au. u_authority target = Some au \<and> au_str au = ''a.io''"
    by (simp add: forward_target_def Let_def sample_forwarded_def token_request_def bearer_request_def header_str_def
        assoc_headers_def visible_ascii_def plain_uris_def to_lower_def ascii_lower_def ascii_upper_letters_def
        ascii_lower_letters_def)
  have host: "h_get assoc_headers (rq_headers sample_forwarded) ''host'' =
      h_get assoc_headers (rq_headers (token_request ''Tokenizer t'')) ''host''"
    by (simp add: sample_forwarded_def token_request_def assoc_headers_def to_lower_def ascii_lower_def
        ascii_upper_letters_def ascii_lower_letters_def)
  from forwarded_to_checked_host [OF _ plain_uris_laws a, of target] t au show ?thesis
    by (auto simp: H assoc_headers_laws token_request_header host)
qed

text \<open>
  Note. A no-bump entry that pins a port never matches: the policy is asked about the bare host, so the
  traffic is intercepted although the operator excluded it.
\<close>

theorem pinned_no_bump_entry_ignored:
  assumes "bare_host host" and "cd_bump_resolver deps"
    and "cd_no_bump_policy deps = Some (allow_host HostValidationConfig_new (join_host_port host port))"
  shows "handle_tunnel_or_bump deps host = BumpRoute"
  using assms
  by (simp add: handle_tunnel_or_bump_def policy_validate_eq policy_blocks_def policy_lists_def allow_host_def
      HostValidationConfig_new_def set_insert_def entry_matches_def split_bare_host split_bare_join)

text \<open>
  Note. With a rate limiter every rejection of the token middleware is reported as an upstream failure,
  status 502: the specific error survives in its text only.
\<close>

theorem limiter_hides_rejections:
  assumes "stack_call L U D chk client st request limit_now ck = Returns ((w, Err e), st')"
    and "ss_limiter st \<noteq> None"
  shows "e = RateLimitExceeded \<or> status_code e = 502"
  using assms by (auto simp: stack_call_def Let_def map_err_eq_Inl split: option.splits outcome.splits prod.splits bool.splits)

text \<open>Note. A throttled CONNECT is answered with 502 where the error's own status is 429.\<close>

theorem connect_rate_limit_status: "fst (error_response RateLimitExceeded) \<noteq> status_code RateLimitExceeded"
  by (simp add: error_response_def)

text \<open>
  Note. A tunnel is not subject to the blocked host names that the forwarding connector enforces: a blocked
  name that resolves to an allowed address is connected.
\<close>

theorem tunnel_ignores_blocked_hostnames:
  assumes "is_hostname_blocked (ch_ip_filter handler) host" and "is_allowed N (ch_ip_filter handler) (fst addr)"
  shows "resolve_and_validate N (\<lambda>_. Ok (Ok [addr])) handler host port = Ok addr"
  using assms by (simp add: resolve_and_validate_def validate_all_Ok_iff is_allowed_def validate_ip_def)

end
