(* ===== verification/Connection.thy ===== *)
theory Connection
  imports Serve
begin

text \<open>
  The server as a whole: \<open>serve_http\<close> and \<open>serve_connection_with\<close> of
  \<open>crates/icebreaker-proxy/src/serve/http.rs\<close> over the state that all connections share through the
  \<open>ProxyContext\<close> (nonce store, rate limiter, shutdown counter). Each connection builds its own
  middleware stack and CONNECT handler from the context; \<open>service_fn\<close> is the closure that hyper calls
  for every request of a connection. A run is any sequence of such calls, on any connections, outer or
  intercepted, and of cleanups of the store: nothing is assumed about the order in which hyper and the
  runtime make them.

  Shown: plain requests and CONNECTs draw on one budget, so that a token limited to \<open>m\<close> uses passes at
  most \<open>m\<close> times on all connections together; what passes is what reaches the upstream or a tunnel.
\<close>

section \<open>One request of a connection\<close>

text \<open>
  The request timeout drops the stack at one of its await points: while it waits for the nonce store, or
  while it waits for the upstream.
\<close>

datatype elapsed = InAdmission | InUpstream

record ('h, 'b) arrival =
  ar_conn :: ConnContext
  ar_request :: "('h, 'b) request"
  ar_fresh_id :: string
  ar_limit :: instant
  ar_admission :: admission_clock
  ar_connect :: connect_clock
  ar_elapsed :: "elapsed option"
  ar_upstream :: "('h, 'b) request \<Rightarrow> (string, ('h, 'h raw_body) response) result"

text \<open>What hyper is given: a response, the control response of a CONNECT with its tunnel, or an error.\<close>

datatype ('h, 'r) answer =
    Response "('h, ('h, 'r) scanned_body) response"
  | Control "u16 \<times> string" "(string \<times> u16) option"
  | Failed TokenizerError
  | Panicked string

definition limiter_after :: "RateLimiter option \<Rightarrow> string \<Rightarrow> instant \<Rightarrow> RateLimiter option" where
  "limiter_after limiter key now = map_option (\<lambda>l. snd (check l key now)) limiter"

text \<open>
  A prepared request under the timeout. In the last case the stack has run up to its call of the
  upstream, which has not answered; a timeout of a request that never gets there is covered as well,
  although the code would have answered it at once.
\<close>

definition call_within :: "'h admission_libs \<Rightarrow> uri_lib \<Rightarrow> ('h, 'r) decoder_lib \<Rightarrow> 's check_fn \<Rightarrow> 's stack_state \<Rightarrow>
    ('h, 'b) request \<Rightarrow> ('h, 'b) arrival \<Rightarrow>
    ((metric list \<times> ('h, ('h, 'r) scanned_body) response tresult option) \<times> 's stack_state) outcome" where
  "call_within L U D chk st req ev =
     (case ar_elapsed ev of
        None \<Rightarrow>
          (case stack_call L U D chk (ar_upstream ev) st req (ar_limit ev) (ar_admission ev) of
             Panic m \<Rightarrow> Panic m
           | Returns ((w, r), st') \<Rightarrow> Returns ((w, Some r), st'))
      | Some InAdmission \<Rightarrow>
          Returns (([], None), st\<lparr>ss_limiter := limiter_after (ss_limiter st) (extract_rate_limit_key req) (ar_limit ev)\<rparr>)
      | Some InUpstream \<Rightarrow>
          (case stack_call L U D chk (\<lambda>_. Err []) st req (ar_limit ev) (ar_admission ev) of
             Panic m \<Rightarrow> Panic m
           | Returns ((w, r), st') \<Rightarrow> Returns ((w, None), st')))"

definition serve_plain :: "'h admission_libs \<Rightarrow> uri_lib \<Rightarrow> ('h, 'r) decoder_lib \<Rightarrow> 's check_fn \<Rightarrow> 's stack_state \<Rightarrow>
    ('h, 'b) arrival \<Rightarrow> (metric list \<times> ('h, 'r) answer) \<times> 's stack_state" where
  "serve_plain L U D chk st ev =
     (let H = al_headers L; method = rq_method (ar_request ev);
          request_id = resolve_request_id H (ar_request ev) (ar_fresh_id ev) in
      case prepare_request U H (ar_request ev) (ar_conn ev) of
        Inl e \<Rightarrow> (([record_request method (status_code e) None, record_request_error (error_class e)], Failed e), st)
      | Inr req \<Rightarrow>
          (case call_within L U D chk st req ev of
             Panic m \<Rightarrow> (([], Panicked m),
               st\<lparr>ss_limiter := limiter_after (ss_limiter st) (extract_rate_limit_key req) (ar_limit ev)\<rparr>)
           | Returns ((w, result), st') \<Rightarrow>
               (case finish_request H request_id method result of
                  (w', Inr response) \<Rightarrow> ((w @ w', Response response), st')
                | (w', Inl e) \<Rightarrow> ((w @ w', Failed e), st'))))"

definition serve_connect :: "'h admission_libs \<Rightarrow> 's check_fn \<Rightarrow> ('s, 'n) ConnectDeps \<Rightarrow> ('h, 'b) arrival \<Rightarrow>
    (metric list \<times> ('h, 'r) answer) \<times> ('s, 'n) ConnectDeps" where
  "serve_connect L chk deps ev =
     (let conn = ar_conn ev in
      case handle_connect L chk deps (ar_request ev) (cx_remote_addr conn) (cx_tls_info conn) (ar_connect ev) of
        Panic m \<Rightarrow> (([], Panicked m), deps\<lparr>cd_rate_limiter :=
          limiter_after (cd_rate_limiter deps) (rate_limit_key (conn_info_of conn)) (kc_limit (ar_connect ev))\<rparr>)
      | Returns ((w, response, target), deps') \<Rightarrow> ((w, Control response target), deps'))"

text \<open>The closure of \<open>serve_connection_with\<close>, over the context of \<open>serve_http\<close>; its effects go back into what is shared.\<close>

definition service_fn :: "'h admission_libs \<Rightarrow> uri_lib \<Rightarrow> ('h, 'r) decoder_lib \<Rightarrow> 's check_fn \<Rightarrow> ('s, 'n) ProxyContext \<Rightarrow>
    ('h, 'b) arrival \<Rightarrow> (metric list \<times> ('h, 'r) answer) \<times> ('s, 'n) ProxyContext" where
  "service_fn L U D chk ctx ev =
     (case dispatch ctx (ar_conn ev) (ar_request ev) of
        Some deps \<Rightarrow>
          (case serve_connect L chk deps ev of
             (a, deps') \<Rightarrow> (a, ctx\<lparr>px_nonce_store := ch_nonce_store (cd_handler deps'),
                px_rate_limiter := cd_rate_limiter deps', px_shutdown := cd_shutdown deps'\<rparr>))
      | None \<Rightarrow>
          (case serve_plain L U D chk (stack_of ctx) ev of
             (a, st) \<Rightarrow> (a, ctx\<lparr>px_nonce_store := ta_nonce_store (ss_admission st), px_rate_limiter := ss_limiter st\<rparr>)))"

section \<open>Runs of the server\<close>

datatype ('h, 'b) server_event = Arrive "('h, 'b) arrival" | Clean instant

fun serve_all :: "'h admission_libs \<Rightarrow> uri_lib \<Rightarrow> ('h, 'r) decoder_lib \<Rightarrow> 's check_fn \<Rightarrow> ('s \<Rightarrow> instant \<Rightarrow> 's) \<Rightarrow>
    ('s, 'n) ProxyContext \<Rightarrow> ('h, 'b) server_event list \<Rightarrow> (metric list \<times> ('h, 'r) answer) list \<times> ('s, 'n) ProxyContext" where
  "serve_all L U D chk tick ctx [] = ([], ctx)"
| "serve_all L U D chk tick ctx (Clean now # es) =
     serve_all L U D chk tick (ctx\<lparr>px_nonce_store := map_option (\<lambda>s. tick s now) (px_nonce_store ctx)\<rparr>) es"
| "serve_all L U D chk tick ctx (Arrive ev # es) =
     (case service_fn L U D chk ctx ev of
        (a, ctx') \<Rightarrow> (case serve_all L U D chk tick ctx' es of (as, ctx'') \<Rightarrow> (a # as, ctx'')))"

section \<open>Uses of a token\<close>

text \<open>Only CONNECTs of an outer connection are tunnelled; on an intercepted one they go through the stack.\<close>

definition tunnels :: "('h, 'b) arrival \<Rightarrow> bool" where
  "tunnels ev \<longleftrightarrow> cx_injected_authority (ar_conn ev) = None \<and> is_connect_request (ar_request ev)"

definition event_time :: "('h, 'b) arrival \<Rightarrow> instant" where
  "event_time ev = (if tunnels ev then kc_mono (ar_connect ev) else ck_mono (ar_admission ev))"

definition handler_of :: "('s, 'n) ProxyContext \<Rightarrow> ('s, 'n) ConnectHandler" where
  "handler_of ctx = ch_with_nonce_store
     (with_all_options (px_crypto ctx) (px_ip_filter ctx) TunnelConfig_default (px_clock_skew ctx)) (px_nonce_store ctx)"

abbreviation admission_of :: "('s, 'n) ProxyContext \<Rightarrow> 's TokenAdmission" where
  "admission_of ctx \<equiv> ss_admission (stack_of ctx)"

definition connect_presented :: "'h admission_libs \<Rightarrow> ('s, 'n) ConnectHandler \<Rightarrow> ('h, 'b) request \<Rightarrow> u64 \<Rightarrow> TokenPayload option" where
  "connect_presented L self request now =
     Option.bind (connect_token (al_headers L) request) (\<lambda>s.
     Option.bind (ok (from_header (al_base64 L) (al_token_serde L) s)) (\<lambda>token.
       ok (tc_unseal (al_crypto L) (al_base64 L) (al_payload_serde L) (ch_crypto self) token now)))"

text \<open>What the token of a request opens to.\<close>

definition event_payload :: "'h admission_libs \<Rightarrow> uri_lib \<Rightarrow> ('s, 'n) ProxyContext \<Rightarrow> ('h, 'b) arrival \<Rightarrow> TokenPayload option" where
  "event_payload L U ctx ev =
     (if tunnels ev then connect_presented L (handler_of ctx) (ar_request ev) (kc_unseal (ar_connect ev))
      else Option.bind (ok (prepare_request U (al_headers L) (ar_request ev) (ar_conn ev))) (\<lambda>req.
        map_option snd (presented L (admission_of ctx) req (ck_unseal (ar_admission ev)))))"

definition limiter_admits :: "RateLimiter option \<Rightarrow> string \<Rightarrow> instant \<Rightarrow> bool" where
  "limiter_admits limiter key now =
     (case limiter of None \<Rightarrow> True | Some l \<Rightarrow> (case fst (check l key now) of Returns b \<Rightarrow> b | Panic _ \<Rightarrow> False))"

text \<open>
  A request passes when a tunnel is opened for it or, whatever becomes of it later, when it has been
  admitted and is handed to the upstream.
\<close>

definition passes :: "'h admission_libs \<Rightarrow> uri_lib \<Rightarrow> 's check_fn \<Rightarrow> ('s, 'n) ProxyContext \<Rightarrow> ('h, 'b) arrival \<Rightarrow> bool" where
  "passes L U chk ctx ev =
     (case dispatch ctx (ar_conn ev) (ar_request ev) of
        Some deps \<Rightarrow>
          (case handle_connect L chk deps (ar_request ev) (cx_remote_addr (ar_conn ev)) (cx_tls_info (ar_conn ev)) (ar_connect ev) of
             Returns ((_, _, Some _), _) \<Rightarrow> True
           | _ \<Rightarrow> False)
      | None \<Rightarrow>
          ar_elapsed ev \<noteq> Some InAdmission \<and>
          (case prepare_request U (al_headers L) (ar_request ev) (ar_conn ev) of
             Inl _ \<Rightarrow> False
           | Inr req \<Rightarrow>
               limiter_admits (px_rate_limiter ctx) (extract_rate_limit_key req) (ar_limit ev) \<and>
               (case admit L chk (admission_of ctx) req (ar_admission ev) of
                  Returns ((_, Inr _), _) \<Rightarrow> True
                | _ \<Rightarrow> False)))"

definition uses_nonce :: "'h admission_libs \<Rightarrow> uri_lib \<Rightarrow> ('s, 'n) ProxyContext \<Rightarrow> ('h, 'b) arrival \<Rightarrow> string \<Rightarrow> bool" where
  "uses_nonce L U ctx ev n \<longleftrightarrow>
     (case event_payload L U ctx ev of
        None \<Rightarrow> False
      | Some p \<Rightarrow> (case tp_replay_protection p of None \<Rightarrow> False | Some r \<Rightarrow> rp_nonce r = n))"

text \<open>How often a token with nonce \<open>n\<close> passes in a run.\<close>

fun passed_uses :: "'h admission_libs \<Rightarrow> uri_lib \<Rightarrow> ('h, 'r) decoder_lib \<Rightarrow> 's check_fn \<Rightarrow> ('s \<Rightarrow> instant \<Rightarrow> 's) \<Rightarrow> string \<Rightarrow>
    ('s, 'n) ProxyContext \<Rightarrow> ('h, 'b) server_event list \<Rightarrow> nat" where
  "passed_uses L U D chk tick n ctx [] = 0"
| "passed_uses L U D chk tick n ctx (Clean now # es) =
     passed_uses L U D chk tick n (ctx\<lparr>px_nonce_store := map_option (\<lambda>s. tick s now) (px_nonce_store ctx)\<rparr>) es"
| "passed_uses L U D chk tick n ctx (Arrive ev # es) =
     (if passes L U chk ctx ev \<and> uses_nonce L U ctx ev n then 1 else 0) +
     passed_uses L U D chk tick n (snd (service_fn L U D chk ctx ev)) es"

section \<open>What a request asks the store\<close>

definition connect_asked :: "'h admission_libs \<Rightarrow> ('s, 'n) ConnectHandler \<Rightarrow> ('h, 'b) request \<Rightarrow> TlsConnectionInfo option \<Rightarrow>
    connect_clock \<Rightarrow> (string \<times> u32 option \<times> duration) option" where
  "connect_asked L self req tls ck =
     Option.bind (ok (validate_connect L self req tls ck)) (\<lambda>(payload, _).
     Option.bind (tp_replay_protection payload) (\<lambda>replay.
     Option.bind (tp_expires_at payload) (\<lambda>expires_at.
     map_option (\<lambda>ttl. (rp_nonce replay, rp_max_uses replay, ttl))
       (ok (ttl_from_expiry (rp_nonce_ttl_seconds replay) expires_at (ch_clock_skew self) (kc_ttl ck))))))"

definition event_asked :: "'h admission_libs \<Rightarrow> uri_lib \<Rightarrow> ('s, 'n) ProxyContext \<Rightarrow> ('h, 'b) arrival \<Rightarrow>
    (string \<times> u32 option \<times> duration) option" where
  "event_asked L U ctx ev =
     (if tunnels ev then connect_asked L (handler_of ctx) (ar_request ev) (cx_tls_info (ar_conn ev)) (ar_connect ev)
      else Option.bind (ok (prepare_request U (al_headers L) (ar_request ev) (ar_conn ev))) (\<lambda>req.
        asked L (admission_of ctx) req (ar_admission ev)))"

lemma validate_connect_other_store:
  "validate_connect L (self\<lparr>ch_nonce_store := s\<rparr>) req tls ck = validate_connect L self req tls ck"
  by (simp add: validate_connect_def)

lemma connect_asked_other_store: "connect_asked L (self\<lparr>ch_nonce_store := s\<rparr>) req tls ck = connect_asked L self req tls ck"
  by (simp add: connect_asked_def validate_connect_other_store)

text \<open>The part of the context a run changes, and what depends on it.\<close>

definition shared :: "('s, 'n) ProxyContext \<Rightarrow> 's \<Rightarrow> RateLimiter option \<Rightarrow> ShutdownState \<Rightarrow> ('s, 'n) ProxyContext" where
  "shared ctx s limiter shutdown = ctx\<lparr>px_nonce_store := Some s, px_rate_limiter := limiter, px_shutdown := shutdown\<rparr>"

lemma shared_fields [simp]:
  "px_nonce_store (shared ctx s l d) = Some s" "px_rate_limiter (shared ctx s l d) = l"
  "px_clock_skew (shared ctx s l d) = px_clock_skew ctx" "shared (shared ctx s l d) s' l' d' = shared ctx s' l' d'"
  by (simp_all add: shared_def)

lemma stack_of_fields:
  "ss_limiter (stack_of ctx) = px_rate_limiter ctx" "ta_clock_skew (admission_of ctx) = px_clock_skew ctx"
  "px_nonce_store ctx = Some s \<Longrightarrow> ta_nonce_store (admission_of ctx) = Some s"
  by (simp_all add: stack_of_def Let_def with_token_optional_def ta_with_clock_skew_def with_response_scan_def
      with_nonce_store_def split: option.split)

lemma admission_of_shared:
  "px_nonce_store ctx = Some s \<Longrightarrow> admission_of (shared ctx s' l d) = (admission_of ctx)\<lparr>ta_nonce_store := Some s'\<rparr>"
  by (simp add: stack_of_def Let_def with_nonce_store_def shared_def with_token_optional_def ta_with_clock_skew_def
      with_response_scan_def)

lemma handler_of_shared: "handler_of (shared ctx s' l d) = (handler_of ctx)\<lparr>ch_nonce_store := Some s'\<rparr>"
  by (simp add: handler_of_def shared_def ch_with_nonce_store_def)

lemma event_asked_shared:
  "px_nonce_store ctx = Some s \<Longrightarrow> event_asked L U (shared ctx s' l d) ev = event_asked L U ctx ev"
  by (simp add: event_asked_def admission_of_shared handler_of_shared connect_asked_other_store
      asked_other_store [OF stack_of_fields(3)])

section \<open>One request and the store\<close>

text \<open>
  The effect of a request on the store: none, or the answer to the one question it asks. \<open>used\<close> says
  whether it passes with nonce \<open>n\<close>.
\<close>

definition store_step :: "'s check_fn \<Rightarrow> (string \<times> u32 option \<times> duration) option \<Rightarrow> instant \<Rightarrow> string \<Rightarrow> bool \<Rightarrow> 's \<Rightarrow> 's \<Rightarrow> bool" where
  "store_step chk q now n used s s' \<longleftrightarrow>
     s' = s \<and> \<not> used \<or>
     (\<exists>n' mx ttl r. q = Some (n', mx, ttl) \<and> chk s n' mx ttl now = Returns (r, s') \<and> (used \<longrightarrow> n' = n \<and> allowed_of r))"

lemma store_step_idle: "store_step chk q now n False s s"
  by (simp add: store_step_def)

lemma connect_target_run:
  assumes "ch_nonce_store (cd_handler deps) = Some s"
    and "connect_target L chk deps req tls ck = Returns ((w, r), deps')"
  shows "\<exists>s'. deps' = deps\<lparr>cd_handler := (cd_handler deps)\<lparr>ch_nonce_store := Some s'\<rparr>\<rparr> \<and>
    store_step chk (connect_asked L (cd_handler deps) req tls ck) (kc_mono ck) n
      (is_ok r \<and> (\<exists>q. connect_asked L (cd_handler deps) req tls ck = Some (n, q))) s s'"
proof (cases "validate_connect L (cd_handler deps) req tls ck")
  case (Inl e)
  then have "deps' = deps" using assms(2) by (simp add: connect_target_def)
  then show ?thesis using assms(1) Inl by (intro exI [of _ s]) (simp add: connect_asked_def store_step_idle)
next
  case (Inr x)
  obtain payload h p where x: "x = (payload, h, p)" by (cases x)
  from assms(2) Inr x obtain u handler where
    e: "enforce_replay chk (cd_handler deps) payload ck = Returns ((w, u), handler)"
    and d: "deps' = deps\<lparr>cd_handler := handler\<rparr>" "is_ok r = is_ok u"
    by (auto simp: connect_target_def is_ok_def split: outcome.splits prod.splits sum.splits)
  have q: "connect_asked L (cd_handler deps) req tls ck =
     Option.bind (tp_replay_protection payload) (\<lambda>replay. Option.bind (tp_expires_at payload) (\<lambda>expires_at.
       map_option (\<lambda>ttl. (rp_nonce replay, rp_max_uses replay, ttl))
         (ok (ttl_from_expiry (rp_nonce_ttl_seconds replay) expires_at (ch_clock_skew (cd_handler deps)) (kc_ttl ck)))))"
    by (simp add: connect_asked_def Inr x)
  show ?thesis
  proof (cases "connect_asked L (cd_handler deps) req tls ck")
    case None
    with e q assms(1) have "handler = cd_handler deps"
      by (auto simp: enforce_replay_def split: option.splits sum.splits)
    with assms(1) None d show ?thesis by (intro exI [of _ s]) (simp add: store_step_idle)
  next
    case (Some y)
    obtain n' mx ttl where y: "y = (n', mx, ttl)" by (cases y)
    from Some [unfolded q y] obtain replay expires_at where
      "tp_replay_protection payload = Some replay" "tp_expires_at payload = Some expires_at"
      "ttl_from_expiry (rp_nonce_ttl_seconds replay) expires_at (ch_clock_skew (cd_handler deps)) (kc_ttl ck) = Ok ttl"
      "n' = rp_nonce replay" "mx = rp_max_uses replay" by (auto simp: bind_eq_Some_conv)
    with e assms(1) obtain res s' where "chk s n' mx ttl (kc_mono ck) = Returns (res, s')"
      "handler = (cd_handler deps)\<lparr>ch_nonce_store := Some s'\<rparr>" "is_ok u \<longrightarrow> allowed_of res"
      by (auto simp: enforce_replay_def split: outcome.splits sum.splits CheckResult.splits)
    with Some y d show ?thesis by (intro exI [of _ s']) (auto simp: store_step_def)
  qed
qed

lemma handle_connect_run:
  assumes "ch_nonce_store (cd_handler deps) = Some s"
    and "handle_connect L chk deps req remote tls ck = Returns ((w, resp, target), deps')"
  shows "\<exists>s'. ch_nonce_store (cd_handler deps') = Some s' \<and>
    store_step chk (connect_asked L (cd_handler deps) req tls ck) (kc_mono ck) n
      (target \<noteq> None \<and> (\<exists>q. connect_asked L (cd_handler deps) req tls ck = Some (n, q))) s s'"
proof -
  from assms(2) consider (refused) l where "deps' = deps\<lparr>cd_rate_limiter := l\<rparr>" "target = None"
    | (target) l w' r deps1 where
      "connect_target L chk (deps\<lparr>cd_rate_limiter := l\<rparr>) req tls ck = Returns ((w', r), deps1)"
      "cd_handler deps' = cd_handler deps1" "target \<noteq> None \<longrightarrow> is_ok r"
  proof (cases "cd_rate_limiter deps")
    case None
    then have "deps\<lparr>cd_rate_limiter := None\<rparr> = deps" by simp
    with None assms(2) that(2) [of None] show thesis
      by (fastforce simp: handle_connect_def Let_def is_ok_def split: outcome.splits prod.splits sum.splits)
  next
    case (Some limiter)
    with assms(2) that show thesis
      by (fastforce simp: handle_connect_def Let_def is_ok_def split: outcome.splits prod.splits sum.splits bool.splits)
  qed
  then show ?thesis
  proof cases
    case refused
    with assms(1) show ?thesis by (simp add: store_step_idle)
  next
    case target
    from connect_target_run [OF _ target(1), of s n] assms(1) obtain s' where
      "deps1 = deps\<lparr>cd_rate_limiter := l, cd_handler := (cd_handler deps)\<lparr>ch_nonce_store := Some s'\<rparr>\<rparr>"
      "store_step chk (connect_asked L (cd_handler deps) req tls ck) (kc_mono ck) n
        (is_ok r \<and> (\<exists>q. connect_asked L (cd_handler deps) req tls ck = Some (n, q))) s s'" by auto
    with target(2,3) show ?thesis by (intro exI [of _ s']) (auto simp: store_step_def)
  qed
qed

lemma stack_call_run:
  assumes "stack_call L U D chk client st req now ck = Returns ((w, r), st')"
  shows "ss_admission st' = ss_admission st \<and> \<not> limiter_admits (ss_limiter st) (extract_rate_limit_key req) now \<or>
    (\<exists>x. admit L chk (ss_admission st) req ck = Returns (x, ss_admission st'))"
  using assms
  by (auto simp: stack_call_def Let_def limiter_admits_def TokenInjectionService_call_def
      split: option.splits outcome.splits prod.splits sum.splits bool.splits)

lemma stack_call_panic:
  assumes "stack_call L U D chk client st req now ck = Panic m"
    and "limiter_admits (ss_limiter st) (extract_rate_limit_key req) now"
  shows "admit L chk (ss_admission st) req ck = Panic m"
  using assms
  by (auto simp: stack_call_def Let_def limiter_admits_def TokenInjectionService_call_def
      split: option.splits outcome.splits prod.splits sum.splits bool.splits)

lemma admit_store_step:
  assumes "ta_nonce_store self = Some s" and "admit L chk self req ck = Returns ((w, res), self')"
  shows "\<exists>s'. self' = self\<lparr>ta_nonce_store := Some s'\<rparr> \<and>
    store_step chk (asked L self req ck) (ck_mono ck) n (is_ok res \<and> (\<exists>q. asked L self req ck = Some (n, q))) s s'"
proof (cases "asked L self req ck")
  case None
  then have "self' = self"
    using admit_run [of L chk self req ck] admission_query_asked [OF assms(1), of L req ck] assms(2) by auto
  with None assms(1) show ?thesis by (intro exI [of _ s]) (simp add: store_step_idle)
next
  case (Some q)
  obtain n' mx ttl where q: "q = (n', mx, ttl)" by (cases q)
  with admit_run [of L chk self req ck] admission_query_asked [OF assms(1), of L req ck] assms(2) Some
  obtain r s' where "chk s n' mx ttl (ck_mono ck) = Returns (r, s')"
    "self' = self\<lparr>ta_nonce_store := Some s'\<rparr>" "is_ok res \<longrightarrow> allowed_of r"
    by (auto split: outcome.splits)
  with Some q show ?thesis by (intro exI [of _ s']) (auto simp: store_step_def)
qed

text \<open>A request that passes has asked about the nonce of its token.\<close>

lemma admit_asked:
  assumes "ta_nonce_store self = Some s" and "admit L chk self req ck = Returns ((w, Ok req'), self')"
    and "presented L self req (ck_unseal ck) = Some (token, payload)" and "tp_replay_protection payload = Some replay"
  shows "\<exists>q. asked L self req ck = Some (rp_nonce replay, q)"
proof -
  from assms(3) obtain hv where "h_get (al_headers L) (rq_headers req) TOKEN_HEADER = Some hv"
    by (auto simp: presented_def bind_eq_Some_conv)
  from admit_token_Ok [OF assms(2) this] assms(3) obtain w' where
    p: "request_permitted L self req token payload" "replay_passed chk self self' payload ck"
    by (auto simp: presents_iff)
  from p(2) assms(4) obtain e ttl where
    "tp_expires_at payload = Some e" "ttl_from_expiry (rp_nonce_ttl_seconds replay) e (ta_clock_skew self) (ck_ttl ck) = Ok ttl"
    by (auto simp: replay_passed_def)
  with assms(1,4) have "snd (replay_query self payload (ck_ttl ck)) = Ok (Some (s, rp_nonce replay, rp_max_uses replay, ttl))"
    by (simp add: replay_query_Ok)
  moreover have "snd (validate_request L self payload token req) = Ok ()"
    using p(1) by (simp add: validate_request_Ok_iff)
  ultimately show ?thesis by (simp add: asked_def admission_query_def assms(3))
qed

lemma tunnel_asked:
  assumes "connect_target L chk deps req tls ck = Returns ((w, Ok (host, port)), deps')"
    and "connect_presented L (cd_handler deps) req (kc_unseal ck) = Some payload"
    and "tp_replay_protection payload = Some replay"
  shows "\<exists>q. connect_asked L (cd_handler deps) req tls ck = Some (rp_nonce replay, q)"
  using connect_target_Ok [OF assms(1)]
proof (elim disjE exE conjE)
  fix token payload'
  assume p: "connect_presents L (cd_handler deps) req (kc_unseal ck) token payload'"
    "connect_permitted L (cd_handler deps) req tls token payload' host port"
    "connect_expiration (ch_clock_skew (cd_handler deps)) payload' (kc_check ck) = Ok ()"
    "connect_replay_passed chk (cd_handler deps) (cd_handler deps') payload' ck"
  then have eq: "payload' = payload" using assms(2)
    by (auto simp: connect_presents_def connect_presented_def bind_eq_Some_conv)
  from p have "validate_connect L (cd_handler deps) req tls ck = Ok (payload', host, port)"
    by (auto simp: validate_connect_Ok)
  with p(4) assms(3) eq show ?thesis by (auto simp: connect_asked_def connect_replay_passed_def)
next
  assume "\<not> has_token (al_headers L) req"
  with assms(2) show ?thesis by (simp add: connect_presented_def connect_token_def has_token_def)
qed

lemma dispatch_cases:
  assumes "px_nonce_store ctx = Some s"
  shows "\<not> tunnels ev \<Longrightarrow> dispatch ctx (ar_conn ev) (ar_request ev) = None"
    and "tunnels ev \<Longrightarrow> \<exists>deps. dispatch ctx (ar_conn ev) (ar_request ev) = Some deps \<and> cd_handler deps = handler_of ctx \<and>
      ch_nonce_store (cd_handler deps) = Some s"
  using assms by (auto simp: dispatch_def connect_deps_def tunnels_def handler_of_def ch_with_nonce_store_def)

lemma call_within_run:
  assumes "ta_nonce_store (ss_admission st) = Some s" and "call_within L U D chk st req ev = Returns (x, st')"
  shows "\<exists>s'. ta_nonce_store (ss_admission st') = Some s' \<and>
    store_step chk (asked L (ss_admission st) req (ar_admission ev)) (ck_mono (ar_admission ev)) n
      ((ar_elapsed ev \<noteq> Some InAdmission \<and> limiter_admits (ss_limiter st) (extract_rate_limit_key req) (ar_limit ev) \<and>
       (\<exists>w req' self'. admit L chk (ss_admission st) req (ar_admission ev) = Returns ((w, Ok req'), self'))) \<and>
       (\<exists>q. asked L (ss_admission st) req (ar_admission ev) = Some (n, q))) s s'"
proof (cases "ar_elapsed ev = Some InAdmission")
  case True
  with assms show ?thesis by (auto simp: call_within_def store_step_idle)
next
  case False
  with assms(2) obtain client w r where
    "stack_call L U D chk client st req (ar_limit ev) (ar_admission ev) = Returns ((w, r), st')"
    by (auto simp: call_within_def split: option.splits elapsed.splits outcome.splits)
  from stack_call_run [OF this] show ?thesis
  proof (elim disjE conjE exE)
    assume "ss_admission st' = ss_admission st" "\<not> limiter_admits (ss_limiter st) (extract_rate_limit_key req) (ar_limit ev)"
    with assms(1) show ?thesis by (simp add: store_step_idle)
  next
    fix y assume y: "admit L chk (ss_admission st) req (ar_admission ev) = Returns (y, ss_admission st')"
    obtain w' res where "y = (w', res)" by (cases y)
    with admit_store_step [OF assms(1), of L chk req "ar_admission ev" w' res "ss_admission st'" n] y
    show ?thesis by (auto simp: store_step_def is_ok_def split: sum.splits)
  qed
qed

lemma call_within_panic:
  assumes "call_within L U D chk st req ev = Panic m"
    and "limiter_admits (ss_limiter st) (extract_rate_limit_key req) (ar_limit ev)"
  shows "admit L chk (ss_admission st) req (ar_admission ev) = Panic m"
proof -
  from assms(1) obtain client where "stack_call L U D chk client st req (ar_limit ev) (ar_admission ev) = Panic m"
    by (auto simp: call_within_def split: option.splits elapsed.splits outcome.splits)
  then show ?thesis using assms(2) by (rule stack_call_panic)
qed

lemma serve_plain_run:
  assumes "px_nonce_store ctx = Some s" and "\<not> tunnels ev" and "serve_plain L U D chk (stack_of ctx) ev = (a, st')"
  shows "\<exists>s'. ta_nonce_store (ss_admission st') = Some s' \<and>
    store_step chk (event_asked L U ctx ev) (event_time ev) n (passes L U chk ctx ev \<and> uses_nonce L U ctx ev n) s s'"
proof (cases "prepare_request U (al_headers L) (ar_request ev) (ar_conn ev)")
  case (Inl e)
  then show ?thesis using assms
    by (auto simp: serve_plain_def passes_def dispatch_cases stack_of_fields store_step_idle)
next
  case (Inr req)
  note st = stack_of_fields(3) [OF assms(1)]
  let ?adm = "\<exists>w req' self'. admit L chk (admission_of ctx) req (ar_admission ev) = Returns ((w, Ok req'), self')"
  have q: "event_asked L U ctx ev = asked L (admission_of ctx) req (ar_admission ev)"
    and t: "event_time ev = ck_mono (ar_admission ev)"
    using assms(2) Inr by (simp_all add: event_asked_def event_time_def)
  have p: "passes L U chk ctx ev \<longleftrightarrow> ar_elapsed ev \<noteq> Some InAdmission \<and>
      limiter_admits (px_rate_limiter ctx) (extract_rate_limit_key req) (ar_limit ev) \<and> ?adm"
    using assms(1,2) Inr by (auto simp: passes_def dispatch_cases split: outcome.splits sum.splits)
  have u: "\<exists>q. asked L (admission_of ctx) req (ar_admission ev) = Some (n, q)" if "?adm" "uses_nonce L U ctx ev n"
    using that admit_asked [OF st] Inr assms(2)
    by (fastforce simp: uses_nonce_def event_payload_def split: option.splits)
  show ?thesis
  proof (cases "call_within L U D chk (stack_of ctx) req ev")
    case (Panic m)
    then have "\<not> passes L U chk ctx ev"
      using call_within_panic [OF Panic] unfolding p stack_of_fields(1) by force
    with Panic Inr assms(3) st show ?thesis by (auto simp: serve_plain_def store_step_idle)
  next
    case (Returns y)
    obtain x st1 where y: "y = (x, st1)" by (cases y)
    have "\<exists>s'. ta_nonce_store (ss_admission st1) = Some s' \<and> store_step chk (event_asked L U ctx ev) (event_time ev) n
        (passes L U chk ctx ev \<and> (\<exists>q. event_asked L U ctx ev = Some (n, q))) s s'"
      using call_within_run [OF st Returns [unfolded y], of n] unfolding p q t stack_of_fields(1) .
    then obtain s' where "ta_nonce_store (ss_admission st1) = Some s'"
      "store_step chk (event_asked L U ctx ev) (event_time ev) n
        (passes L U chk ctx ev \<and> (\<exists>q. event_asked L U ctx ev = Some (n, q))) s s'" by (elim exE conjE)
    moreover have "st' = st1" using assms(3) Inr Returns y
      by (auto simp: serve_plain_def Let_def split: prod.splits sum.splits)
    ultimately show ?thesis using u p q by (intro exI [of _ s']) (auto simp: store_step_def)
  qed
qed

lemma serve_connect_run:
  assumes "px_nonce_store ctx = Some s" and "tunnels ev" and "dispatch ctx (ar_conn ev) (ar_request ev) = Some deps"
    and "serve_connect L chk deps ev = (a, deps')"
  shows "\<exists>s'. ch_nonce_store (cd_handler deps') = Some s' \<and>
    store_step chk (event_asked L U ctx ev) (event_time ev) n (passes L U chk ctx ev \<and> uses_nonce L U ctx ev n) s s'"
proof -
  from dispatch_cases(2) [OF assms(1,2)] assms(3)
  have h: "cd_handler deps = handler_of ctx" "ch_nonce_store (cd_handler deps) = Some s" by auto
  let ?tls = "cx_tls_info (ar_conn ev)"
  have q: "event_asked L U ctx ev = connect_asked L (cd_handler deps) (ar_request ev) ?tls (ar_connect ev)"
    and t: "event_time ev = kc_mono (ar_connect ev)"
    using assms(2) h by (simp_all add: event_asked_def event_time_def)
  let ?hc = "handle_connect L chk deps (ar_request ev) (cx_remote_addr (ar_conn ev)) ?tls (ar_connect ev)"
  show ?thesis
  proof (cases ?hc)
    case (Panic m)
    then have "\<not> passes L U chk ctx ev" using assms(3) by (simp add: passes_def)
    with Panic assms(4) h(2) show ?thesis by (auto simp: serve_connect_def store_step_idle)
  next
    case (Returns y)
    obtain w resp target deps1 where y: "y = ((w, resp, target), deps1)" by (metis prod.collapse)
    have p: "passes L U chk ctx ev \<longleftrightarrow> target \<noteq> None"
      using assms(3) Returns y by (auto simp: passes_def split: option.splits)
    have u: "\<exists>q. event_asked L U ctx ev = Some (n, q)" if "target \<noteq> None" "uses_nonce L U ctx ev n"
    proof -
      from that obtain host port where "target = Some (host, port)" by auto
      from handle_connect_tunnel [OF Returns [unfolded y this]] obtain deps2 deps3 w' where
        "connect_target L chk deps2 (ar_request ev) ?tls (ar_connect ev) = Returns ((w', Ok (host, port)), deps3)"
        "cd_handler deps2 = cd_handler deps" by metis
      from tunnel_asked [OF this(1)] this(2) that(2) assms(2) h(1) q show ?thesis
        by (auto simp: uses_nonce_def event_payload_def split: option.splits)
    qed
    from handle_connect_run [OF h(2) Returns [unfolded y], of n] obtain s' where
      "ch_nonce_store (cd_handler deps1) = Some s'" "store_step chk (event_asked L U ctx ev) (event_time ev) n
        (target \<noteq> None \<and> (\<exists>q. event_asked L U ctx ev = Some (n, q))) s s'" unfolding q t by blast
    moreover have "deps' = deps1" using assms(4) Returns y by (simp add: serve_connect_def)
    ultimately show ?thesis using u p by (intro exI [of _ s']) (auto simp: store_step_def)
  qed
qed

text \<open>The effect of a request on what is shared.\<close>

lemma service_fn_run:
  fixes D :: "('h, 'r) decoder_lib" and ev :: "('h, 'b) arrival"
  assumes "px_nonce_store ctx = Some s"
  shows "\<exists>s' l d. snd (service_fn L U D chk ctx ev) = shared ctx s' l d \<and>
    store_step chk (event_asked L U ctx ev) (event_time ev) n (passes L U chk ctx ev \<and> uses_nonce L U ctx ev n) s s'"
proof (cases "tunnels ev")
  case True
  from dispatch_cases(2) [OF assms True] obtain deps where d: "dispatch ctx (ar_conn ev) (ar_request ev) = Some deps" by blast
  obtain a :: "metric list \<times> ('h, 'r) answer" and deps' where c: "serve_connect L chk deps ev = (a, deps')" by fastforce
  from serve_connect_run [OF assms True d c, of U n] obtain s' where "ch_nonce_store (cd_handler deps') = Some s'" and
    s: "store_step chk (event_asked L U ctx ev) (event_time ev) n (passes L U chk ctx ev \<and> uses_nonce L U ctx ev n) s s'" by blast
  then have "snd (service_fn L U D chk ctx ev) = shared ctx s' (cd_rate_limiter deps') (cd_shutdown deps')"
    using d c by (simp add: service_fn_def shared_def)
  with s show ?thesis by blast
next
  case False
  obtain a st' where p: "serve_plain L U D chk (stack_of ctx) ev = (a, st')" by fastforce
  from serve_plain_run [OF assms False p, of n] obtain s' where
    "ta_nonce_store (ss_admission st') = Some s'" and
    s: "store_step chk (event_asked L U ctx ev) (event_time ev) n (passes L U chk ctx ev \<and> uses_nonce L U ctx ev n) s s'" by blast
  then have "snd (service_fn L U D chk ctx ev) = shared ctx s' (ss_limiter st') (px_shutdown ctx)"
    using dispatch_cases(1) [OF assms False] p by (simp add: service_fn_def shared_def)
  with s show ?thesis by blast
qed

section \<open>The bound over a run\<close>

fun se_time :: "('h, 'b) server_event \<Rightarrow> instant" where
  "se_time (Arrive ev) = event_time ev"
| "se_time (Clean now) = now"

definition origin :: "'h admission_libs \<Rightarrow> uri_lib \<Rightarrow> ('s, 'n) ProxyContext \<Rightarrow> ('h, 'b) server_event list \<Rightarrow> store_event \<Rightarrow> bool" where
  "origin L U ctx es e =
     (case e of
        Tick now \<Rightarrow> Clean now \<in> set es
      | Check n mx ttl now \<Rightarrow> (\<exists>ev. Arrive ev \<in> set es \<and> now = event_time ev \<and> event_asked L U ctx ev = Some (n, mx, ttl)))"

lemma origin_Cons: "origin L U ctx es e \<Longrightarrow> origin L U ctx (x # es) e"
  by (auto simp: origin_def split: store_event.splits)

lemma origin_time: "origin L U ctx es e \<Longrightarrow> \<exists>x \<in> set es. se_time x = ev_now e"
  by (cases e) (force simp: origin_def)+

lemma origin_shared: "px_nonce_store ctx = Some s \<Longrightarrow> origin L U (shared ctx s' l d) = origin L U ctx"
  by (intro ext) (simp add: origin_def event_asked_shared split: store_event.split)

text \<open>A run passes no more uses than some run of the store on the questions of its requests allows.\<close>

lemma passed_uses_le:
  assumes "px_nonce_store ctx = Some s" and "sorted (map se_time es)"
  shows "\<exists>ves. sorted (map ev_now ves) \<and> (\<forall>e \<in> set ves. origin L U ctx es e) \<and>
    passed_uses L U D chk tick n ctx es \<le> allowed_count chk tick n s ves"
  using assms
proof (induction es arbitrary: ctx s)
  case Nil
  then show ?case by (intro exI [of _ "[]"]) simp
next
  case (Cons x es)
  have head: "se_time x \<le> ev_now e" if "origin L U ctx es e" for e
    using origin_time [OF that] Cons.prems(2) by auto
  have IH: "\<exists>ves. sorted (map ev_now ves) \<and> (\<forall>e \<in> set ves. origin L U ctx es e) \<and>
      passed_uses L U D chk tick n (shared ctx s' l d) es \<le> allowed_count chk tick n s' ves" for s' l d
    using Cons.IH [of "shared ctx s' l d" s'] Cons.prems by (simp add: origin_shared)
  show ?case
  proof (cases x)
    case (Clean now)
    have "ctx\<lparr>px_nonce_store := Some (tick s now)\<rparr> = shared ctx (tick s now) (px_rate_limiter ctx) (px_shutdown ctx)"
      by (simp add: shared_def)
    with IH [of "tick s now"] obtain ves where "sorted (map ev_now ves)" "\<forall>e \<in> set ves. origin L U ctx es e"
      "passed_uses L U D chk tick n (ctx\<lparr>px_nonce_store := Some (tick s now)\<rparr>) es \<le> allowed_count chk tick n (tick s now) ves"
      by metis
    with Clean Cons.prems(1) head show ?thesis
      by (intro exI [of _ "Tick now # ves"]) (auto simp: origin_Cons, simp add: origin_def)
  next
    case (Arrive ev)
    let ?used = "passes L U chk ctx ev \<and> uses_nonce L U ctx ev n"
    from service_fn_run [OF Cons.prems(1), of L U D chk ev n] obtain s' l d where
      c: "snd (service_fn L U D chk ctx ev) = shared ctx s' l d"
      and st: "store_step chk (event_asked L U ctx ev) (event_time ev) n ?used s s'" by blast
    from IH [of s' l d] obtain ves where v: "sorted (map ev_now ves)" "\<forall>e \<in> set ves. origin L U ctx es e"
      "passed_uses L U D chk tick n (shared ctx s' l d) es \<le> allowed_count chk tick n s' ves" by blast
    from st [unfolded store_step_def] show ?thesis
    proof (elim disjE exE conjE)
      assume "s' = s" "\<not> ?used"
      with v c Arrive show ?thesis by (intro exI [of _ ves]) (auto intro: origin_Cons)
    next
      fix n' mx ttl r
      assume q: "event_asked L U ctx ev = Some (n', mx, ttl)" "chk s n' mx ttl (event_time ev) = Returns (r, s')"
        "?used \<longrightarrow> n' = n \<and> allowed_of r"
      have "origin L U ctx (x # es) (Check n' mx ttl (event_time ev))" using q(1) Arrive by (auto simp: origin_def)
      with v c q Arrive head show ?thesis
        by (intro exI [of _ "Check n' mx ttl (event_time ev) # ves"]) (auto intro: origin_Cons)
    qed
  qed
qed

text \<open>The clock readings an arrival is checked against, and the token behind a question.\<close>

definition event_clock :: "('h, 'b) arrival \<Rightarrow> admission_clock" where
  "event_clock ev =
     (if tunnels ev
      then \<lparr>ck_unseal = kc_unseal (ar_connect ev), ck_ttl = kc_ttl (ar_connect ev), ck_mono = kc_mono (ar_connect ev),
            ck_process = kc_check (ar_connect ev)\<rparr>
      else ar_admission ev)"

lemma event_time_clock: "event_time ev = ck_mono (event_clock ev)"
  by (simp add: event_time_def event_clock_def)

lemma event_asked_payload:
  assumes "event_asked L U ctx ev = Some (n, mx, ttl)"
  obtains payload replay expires_at where "event_payload L U ctx ev = Some payload"
    "tp_replay_protection payload = Some replay" "n = rp_nonce replay" "mx = rp_max_uses replay"
    "tp_expires_at payload = Some expires_at"
    "ttl_from_expiry (rp_nonce_ttl_seconds replay) expires_at (px_clock_skew ctx) (ck_ttl (event_clock ev)) = Ok ttl"
proof (cases "tunnels ev")
  case True
  with assms obtain payload rest replay e where
    v: "validate_connect L (handler_of ctx) (ar_request ev) (cx_tls_info (ar_conn ev)) (ar_connect ev) = Ok (payload, rest)"
    and r: "tp_replay_protection payload = Some replay" "n = rp_nonce replay" "mx = rp_max_uses replay"
      "tp_expires_at payload = Some e"
      "ttl_from_expiry (rp_nonce_ttl_seconds replay) e (px_clock_skew ctx) (kc_ttl (ar_connect ev)) = Ok ttl"
    by (auto simp: event_asked_def connect_asked_def bind_eq_Some_conv handler_of_def ch_with_nonce_store_def with_all_options_def)
  obtain h p where "rest = (h, p)" by (cases rest)
  with v True have "event_payload L U ctx ev = Some payload"
    by (auto simp: event_payload_def connect_presented_def validate_connect_Ok connect_presents_def)
  with r True show ?thesis using that by (simp add: event_clock_def)
next
  case False
  with assms obtain req where q: "prepare_request U (al_headers L) (ar_request ev) (ar_conn ev) = Ok req"
    "asked L (admission_of ctx) req (ar_admission ev) = Some (n, mx, ttl)"
    by (auto simp: event_asked_def bind_eq_Some_conv)
  from q(2) show ?thesis
  proof (cases rule: asked_payload)
    case (1 token payload replay expires_at)
    with q(1) False show ?thesis using that [of payload replay expires_at]
      by (simp add: event_payload_def event_clock_def stack_of_fields)
  qed
qed

section \<open>Properties\<close>

text \<open>
  Property C4. A token that may be used \<open>m\<close> times passes at most \<open>m\<close> times on the whole server: plain requests,
  CONNECTs and requests inside intercepted tunnels, on any connections and in any order, with any
  other traffic, rate limiting, timeouts, panics and cleanups between them, draw on one budget. The
  token's nonce lives as long as the token, the calls reach the store in the order of their monotonic
  times, the wall clock agrees with the monotonic clock, and the expiry with its tolerance does not overflow.
\<close>

theorem token_uses_bounded:
  assumes "px_nonce_store ctx = Some store" and "entries store n = None"
    and "m \<noteq> 0" and "unat m < 2 ^ 32 - 1" and "sorted (map se_time es)"
    and "\<forall>ev. Arrive ev \<in> set es \<longrightarrow> clocks_agree boot (event_clock ev)"
    and "unat E + unat (tolerance_seconds (px_clock_skew ctx)) < 2 ^ 64"
    and "\<forall>ev payload replay. Arrive ev \<in> set es \<and> event_payload L U ctx ev = Some payload \<and>
      tp_replay_protection payload = Some replay \<and> rp_nonce replay = n \<longrightarrow>
        rp_max_uses replay = Some m \<and> rp_nonce_ttl_seconds replay = None \<and> tp_expires_at payload = Some E"
  shows "passed_uses L U D check_and_record cleanup n ctx es \<le> unat m"
proof -
  let ?D = "(unat E + unat (tolerance_seconds (px_clock_skew ctx))) * nanos_per_sec - 1 - boot"
  from passed_uses_le [OF assms(1,5)] obtain ves where v: "sorted (map ev_now ves)" "\<forall>e \<in> set ves. origin L U ctx es e"
    and le: "passed_uses L U D check_and_record cleanup n ctx es \<le> allowed_count check_and_record cleanup n store ves" by blast
  have "allowed_count check_and_record cleanup n store ves \<le> unat m"
  proof (rule mem.timely_bounded [OF v(1) _ assms(4,3)])
    show "held_uses store n ?D = 0" using assms(2) by (simp add: held_uses_def)
    fix mx ttl now assume "Check n mx ttl now \<in> set ves"
    with v(2) have "origin L U ctx es (Check n mx ttl now)" by blast
    then obtain ev where ev: "Arrive ev \<in> set es" "now = ck_mono (event_clock ev)" "event_asked L U ctx ev = Some (n, mx, ttl)"
      by (auto simp: origin_def event_time_clock)
    from ev(3) obtain payload replay e where p: "event_payload L U ctx ev = Some payload"
      "tp_replay_protection payload = Some replay" "n = rp_nonce replay" "mx = rp_max_uses replay" "tp_expires_at payload = Some e"
      "ttl_from_expiry (rp_nonce_ttl_seconds replay) e (px_clock_skew ctx) (ck_ttl (event_clock ev)) = Ok ttl"
      by (rule event_asked_payload)
    with assms(8) ev(1) have "mx = Some m" "rp_nonce_ttl_seconds replay = None" "e = E" by auto
    moreover have "clocks_agree boot (event_clock ev)" using assms(6) ev(1) by blast
    ultimately show "mx = Some m \<and> now \<le> ?D \<and> ?D < now + ttl"
      using ttl_reaches_expiry [OF _ _ assms(7) refl, of "event_clock ev" ttl boot] p(6) ev(2) by auto
  qed
  with le show ?thesis by simp
qed

definition sample_context :: "(InMemoryNonceStore, nat) ProxyContext" where
  "sample_context = \<lparr>px_crypto = TokenCrypto_new (with_primary (sample_key ''k1'')), px_ip_filter = IpFilter_permissive,
     px_nonce_store = Some InMemoryNonceStore_new, px_clock_skew = ClockSkewConfig_default, px_rate_limiter = None,
     px_response_scan_enabled = True, px_request_timeout = from_secs 30, px_shutdown = ShutdownState_new,
     px_token_optional = False, px_host_policy = allow_all, px_bump_resolver = False, px_no_bump_policy = None\<rparr>"

definition sample_arrival :: "((string \<times> string) list, unit) request \<Rightarrow> ((string \<times> string) list, unit) arrival" where
  "sample_arrival request = \<lparr>ar_conn = ConnContext_new ''10.0.0.1'' None, ar_request = request, ar_fresh_id = ''00'',
     ar_limit = 0, ar_admission = sample_clock, ar_connect = sample_connect_clock, ar_elapsed = None,
     ar_upstream = (\<lambda>_. Err ''refused'')\<rparr>"

text \<open>The same single-use token in a plain request, after a cleanup in a CONNECT.\<close>

definition connect_with_token :: "((string \<times> string) list, unit) request" where
  "connect_with_token = (connect_request ''a.io'')\<lparr>rq_headers := [(to_lower TOKEN_HEADER, ''Tokenizer t'')]\<rparr>"

definition both_ways :: "((string \<times> string) list, unit) server_event list" where
  "both_ways = [Arrive (sample_arrival (token_request ''Tokenizer t'')), Clean 0, Arrive (sample_arrival connect_with_token)]"

lemma both_ways_payload:
  "ev \<in> {sample_arrival (token_request ''Tokenizer t''), sample_arrival connect_with_token} \<Longrightarrow>
     event_payload (sample_libs\<lparr>al_payload_serde := one_payload_serde once_payload\<rparr>) plain_uris sample_context ev = Some once_payload"
proof -
  let ?L = "sample_libs\<lparr>al_payload_serde := one_payload_serde once_payload\<rparr>"
  let ?t = "SealedToken_new ''k1'' (replicate 72 (CHR ''a''))"
  have life: "lifetime_ok DecryptConfig_default once_payload 900"
    using sample_lifetime by (simp add: lifetime_ok_def once_payload_def b_replay_protection_def check_expiration_def)
  have "presented ?L (admission_of sample_context) (token_request ''Tokenizer t'') 900 = Some (?t, once_payload)"
    using sample_presents [OF _ life, of "admission_of sample_context"]
    by (simp add: presents_iff stack_of_def sample_context_def Let_def with_token_optional_def ta_with_clock_skew_def
        with_response_scan_def with_nonce_store_def TokenAdmission_new_def)
  then have a: "event_payload ?L plain_uris sample_context (sample_arrival (token_request ''Tokenizer t'')) = Some once_payload"
    by (simp add: event_payload_def tunnels_def sample_arrival_def ConnContext_new_def token_request_def bearer_request_def
        is_connect_request_def prepare_request_def sample_clock_def presented_def)
  have "connect_token assoc_headers connect_with_token = Some ''Tokenizer t''"
    by (simp add: connect_token_def connect_with_token_def assoc_headers_def visible_ascii_def TOKEN_HEADER_def
        to_lower_def ascii_lower_def ascii_upper_letters_def ascii_lower_letters_def)
  moreover have "from_header plain_base64 sample_token_serde ''Tokenizer t'' = Ok ?t"
    by (simp add: from_header_def sample_token_serde_def plain_base64_def)
  ultimately have "connect_presented ?L (handler_of sample_context) connect_with_token 900 = Some once_payload"
    using sample_unseals [of once_payload 900] life
    by (simp add: connect_presented_def sample_libs_def handler_of_def sample_context_def ch_with_nonce_store_def
        with_all_options_def)
  then have "event_payload ?L plain_uris sample_context (sample_arrival connect_with_token) = Some once_payload"
    by (simp add: event_payload_def tunnels_def sample_arrival_def ConnContext_new_def connect_with_token_def
        connect_request_def is_connect_request_def sample_connect_clock_def)
  with a show "ev \<in> {sample_arrival (token_request ''Tokenizer t''), sample_arrival connect_with_token} \<Longrightarrow>
     event_payload ?L plain_uris sample_context ev = Some once_payload" by blast
qed

theorem token_uses_bounded_witness:
  "passed_uses (sample_libs\<lparr>al_payload_serde := one_payload_serde once_payload\<rparr>) plain_uris stored_decoder
     check_and_record cleanup ''n'' sample_context both_ways \<le> 1"
proof -
  let ?L = "sample_libs\<lparr>al_payload_serde := one_payload_serde once_payload\<rparr>"
  have once: "tp_replay_protection once_payload = Some (single_use ''n'')" "tp_expires_at once_payload = Some 1000"
    by (simp_all add: once_payload_def b_replay_protection_def sample_payload_def b_expires_at_def)
  have arr: "ev \<in> {sample_arrival (token_request ''Tokenizer t''), sample_arrival connect_with_token}"
    if "Arrive ev \<in> set both_ways" for ev using that by (auto simp: both_ways_def)
  have clock: "ck_ttl (event_clock (sample_arrival r)) = 900" "ck_mono (event_clock (sample_arrival r)) = 0" for r
    by (simp_all add: event_clock_def sample_arrival_def sample_clock_def sample_connect_clock_def)
  have "passed_uses ?L plain_uris stored_decoder check_and_record cleanup ''n'' sample_context both_ways \<le> unat (1 :: u32)"
  proof (rule token_uses_bounded [where store = InMemoryNonceStore_new and boot = "900 * nanos_per_sec" and E = 1000])
    show "\<forall>ev. Arrive ev \<in> set both_ways \<longrightarrow> clocks_agree (900 * nanos_per_sec) (event_clock ev)"
      using arr clock by (fastforce simp: clocks_agree_def nanos_per_sec_def)
    show "\<forall>ev payload replay. Arrive ev \<in> set both_ways \<and> event_payload ?L plain_uris sample_context ev = Some payload \<and>
      tp_replay_protection payload = Some replay \<and> rp_nonce replay = ''n'' \<longrightarrow>
        rp_max_uses replay = Some 1 \<and> rp_nonce_ttl_seconds replay = None \<and> tp_expires_at payload = Some 1000"
      using arr both_ways_payload once by (fastforce simp: single_use_def)
    show "sorted (map se_time both_ways)" by (simp add: both_ways_def event_time_clock clock)
  qed (simp_all add: sample_context_def InMemoryNonceStore_new_def InMemoryNonceStore_with_cleanup_interval_def
      ClockSkewConfig_default_def)
  then show ?thesis by simp
qed

end
