(* ===== verification/Accounting.thy ===== *)
theory Accounting
  imports Connection
begin

text \<open>
  What the metrics say about a run of the server (\<open>serve/http.rs\<close>, \<open>serve/connect.rs\<close>, \<open>admission.rs\<close>,
  \<open>middleware/response_scan.rs\<close>, all recording through \<open>metrics/mod.rs\<close>). The layers below
  \<open>serve_connection_with\<close> record metrics of their own, never those of a finished request; so every
  plain request that ends is counted once, with the class of its outcome, every error once, and every
  tunnel once.
\<close>

definition requests_total :: string where
  "requests_total = ''icebreaker_requests_total''"

definition errors_total :: string where
  "errors_total = ''icebreaker_request_errors_total''"

definition tunnels_total :: string where
  "tunnels_total = ''icebreaker_connect_tunnels_total''"

definition recordings :: "string \<Rightarrow> metric list \<Rightarrow> nat" where
  "recordings name ms = length (filter (\<lambda>m. fst (sample m) = name) ms)"

lemma recordings_simps [simp]:
  "recordings name [] = 0" "recordings name (m # ms) = (if fst (sample m) = name then 1 else 0) + recordings name ms"
  "recordings name (ms @ ms') = recordings name ms + recordings name ms'"
  by (simp_all add: recordings_def)

text \<open>Metrics of the layers below: neither requests nor their errors nor tunnels.\<close>

fun inner_metric :: "metric \<Rightarrow> bool" where
  "inner_metric (record_request _ _ _) = False"
| "inner_metric (record_request_error _) = False"
| "inner_metric record_connect_tunnel = False"
| "inner_metric _ = True"

lemma recordings_inner:
  assumes "list_all inner_metric ms"
  shows "recordings requests_total ms = 0" "recordings errors_total ms = 0" "recordings tunnels_total ms = 0"
proof -
  have "fst (sample m) \<notin> {requests_total, errors_total, tunnels_total}" if "inner_metric m" for m
    using that by (cases m) (simp_all add: requests_total_def errors_total_def tunnels_total_def)
  with assms show "recordings requests_total ms = 0" "recordings errors_total ms = 0" "recordings tunnels_total ms = 0"
    by (induction ms) auto
qed

section \<open>The layers below record their own metrics\<close>

abbreviation inner :: "metric list \<Rightarrow> bool" where
  "inner \<equiv> list_all inner_metric"

lemma inner_bindW: "inner (fst r) \<Longrightarrow> (\<And>x. inner (fst (k x))) \<Longrightarrow> inner (fst (bindW r k))"
  by (cases r; cases "snd r") auto

lemma inner_silent: "inner (fst (silent r))"
  by (simp add: silent_def)

lemma inner_or_record: "(\<And>e. inner (ms e)) \<Longrightarrow> inner (fst (or_record r ms))"
  by (cases r) (simp_all add: or_record_def)

lemmas inner_intros = inner_bindW inner_silent inner_or_record

lemma inner_admit_token_optional: "inner (fst (admit_token_optional L self request))"
  by (auto simp: admit_token_optional_def intro!: inner_intros)

lemma inner_decrypt: "inner (fst (decrypt L self h now))"
  by (auto simp: decrypt_def intro!: inner_intros)

lemma inner_validate_request: "inner (fst (validate_request L self payload token request))"
  by (auto simp: validate_request_def Let_def intro!: inner_intros)

lemma inner_replay_query: "inner (fst (replay_query self payload now))"
  by (auto simp: replay_query_def intro!: inner_intros split: option.split)

lemma inner_check_replay: "check_replay chk self payload now t = Returns ((w, r), self') \<Longrightarrow> inner w"
  using inner_replay_query [of self payload now]
  by (auto simp: check_replay_def split: prod.splits sum.splits option.splits outcome.splits CheckResult.splits)

lemma inner_admit:
  assumes "admit L chk self request ck = Returns ((w, r), self')"
  shows "inner w"
proof (cases "h_get (al_headers L) (rq_headers request) TOKEN_HEADER")
  case None
  with assms inner_admit_token_optional [of L self request] show ?thesis by (auto simp: admit_def)
next
  case (Some header)
  show ?thesis
  proof (cases "h_to_str (al_headers L) header")
    case (Inl e)
    with Some assms show ?thesis by (auto simp: admit_def or_record_def)
  next
    case (Inr s)
    let ?d = "bindW (decrypt L self s (ck_unseal ck)) (\<lambda>(sealed_token, payload).
        bindW (validate_request L self payload sealed_token request) (\<lambda>_. silent (Ok payload)))"
    have i: "inner (fst ?d)"
      by (rule inner_bindW [OF inner_decrypt]) (simp add: case_prod_beta inner_bindW inner_validate_request inner_silent)
    obtain v x where d: "?d = (v, x)" by (rule prod.exhaust)
    have v: "inner v" using i unfolding d by simp
    show ?thesis
    proof (cases x)
      case (Inl e)
      with Some Inr d v assms show ?thesis by (simp add: admit_def or_record_def)
    next
      case p: (Inr payload)
      let ?c = "check_replay chk self payload (ck_ttl ck) (ck_mono ck)"
      obtain w' y self'' where c: "?c = Returns ((w', y), self'')"
        using Some Inr d p assms by (cases ?c) (auto simp: admit_def or_record_def)
      then have "inner w'" by (rule inner_check_replay)
      with c Some Inr d v p assms show ?thesis by (cases y) (auto simp: admit_def or_record_def finalize_def)
    qed
  qed
qed

lemma inner_encodings:
  "inner (fst (handle_unknown_encoding body encoding config))" "inner (fst (handle_multiple_encodings body encodings config))"
  by (simp_all add: handle_unknown_encoding_def handle_multiple_encodings_def Let_def split: UnsupportedEncodingBehavior.split)

lemma inner_resolve_encoding: "inner (fst (resolve_encoding H D headers body config))"
  by (simp add: resolve_encoding_def Let_def case_prod_beta inner_encodings split: list.split)

lemma inner_scan: "DynamicResponseScanService_call H D config request answer = (w, r) \<Longrightarrow> inner w"
proof (cases answer)
  case (Inr response)
  have h: "scan_response_headers H (rs_headers response) s = (m, x) \<Longrightarrow> inner m" for s m x
    by (auto simp: scan_response_headers_def split: if_splits)
  have e: "resolve_encoding H D (rs_headers response) (rs_body response) config = (m, x) \<Longrightarrow> inner m" for m x
    using inner_resolve_encoding [of H D "rs_headers response" "rs_body response" config] by simp
  assume "DynamicResponseScanService_call H D config request answer = (w, r)"
  with Inr show ?thesis
    by (auto simp: DynamicResponseScanService_call_def Let_def dest!: h e split: prod.splits sum.splits if_splits)
qed (simp add: DynamicResponseScanService_call_def)

lemma inner_token_injection:
  assumes "TokenInjectionService_call L chk admission (scanned_proxy U H D client) request ck = Returns ((w, r), admission')"
  shows "inner w"
proof -
  from assms obtain w1 x where a: "admit L chk admission request ck = Returns ((w1, x), admission')"
    and w: "case x of Inl e \<Rightarrow> w = w1 | Inr request' \<Rightarrow> w = w1 @ fst (scanned_proxy U H D client request')"
    by (fastforce simp: TokenInjectionService_call_def split: outcome.splits prod.splits sum.splits)
  have "inner (fst (scanned_proxy U H D client request'))" for request'
    using inner_scan by (metis scanned_proxy_def prod.collapse)
  with inner_admit [OF a] w show ?thesis by (cases x) simp_all
qed

lemma inner_stack_call:
  assumes "stack_call L U D chk client st request now ck = Returns ((w, r), st')"
  shows "inner w"
proof -
  from assms have "w = [] \<or> (\<exists>r' adm'. TokenInjectionService_call L chk (ss_admission st)
      (scanned_proxy U (al_headers L) D client) request ck = Returns ((w, r'), adm'))"
    by (auto simp: stack_call_def Let_def split: option.splits outcome.splits prod.splits bool.splits)
  then show ?thesis using inner_token_injection by auto
qed

lemma inner_call_within: "call_within L U D chk st req ev = Returns ((w, r), st') \<Longrightarrow> inner w"
  by (auto simp: call_within_def dest: inner_stack_call split: option.splits elapsed.splits outcome.splits)

lemma inner_connect_target: "connect_target L chk deps req tls ck = Returns ((w, r), deps') \<Longrightarrow> inner w"
  by (auto simp: connect_target_def enforce_replay_def
      split: sum.splits prod.splits outcome.splits option.splits CheckResult.splits TokenizerError.splits if_splits)

section \<open>One request\<close>

fun settled :: "('h, 'r) answer \<Rightarrow> bool" where
  "settled (Response _) = True"
| "settled (Failed _) = True"
| "settled _ = False"

fun failed :: "('h, 'r) answer \<Rightarrow> bool" where
  "failed (Failed _) = True"
| "failed _ = False"

fun opened :: "('h, 'r) answer \<Rightarrow> bool" where
  "opened (Control _ (Some _)) = True"
| "opened _ = False"

definition accounted :: "metric list \<times> ('h, 'r) answer \<Rightarrow> bool" where
  "accounted = (\<lambda>(w, a).
     recordings requests_total w = of_bool (settled a) \<and> recordings errors_total w = of_bool (failed a) \<and>
     recordings tunnels_total w = of_bool (opened a))"

lemma finish_request_recorded:
  assumes "finish_request H request_id m result = (w, r)"
  shows "recordings requests_total w = 1" "recordings errors_total w = of_bool (\<not> is_ok r)" "recordings tunnels_total w = 0"
  using assms by (auto simp: finish_request_def requests_total_def errors_total_def tunnels_total_def is_ok_def
      split: option.splits sum.splits)

lemma serve_plain_accounted: "accounted (fst (serve_plain L U D chk st ev))"
proof (cases "prepare_request U (al_headers L) (ar_request ev) (ar_conn ev)")
  case (Inl e)
  then show ?thesis
    by (simp add: serve_plain_def accounted_def requests_total_def errors_total_def tunnels_total_def)
next
  case (Inr req)
  show ?thesis
  proof (cases "call_within L U D chk st req ev")
    case (Panic m)
    with Inr show ?thesis by (simp add: serve_plain_def accounted_def)
  next
    case (Returns y)
    obtain w result st' where y: "y = ((w, result), st')" by (metis prod.collapse)
    obtain w' r where f: "finish_request (al_headers L) (resolve_request_id (al_headers L) (ar_request ev) (ar_fresh_id ev))
        (rq_method (ar_request ev)) result = (w', r)" by fastforce
    have "inner w" using Returns y inner_call_within by blast
    from recordings_inner [OF this] finish_request_recorded [OF f] Inr Returns y f show ?thesis
      by (cases r) (simp_all add: serve_plain_def accounted_def is_ok_def)
  qed
qed

lemma handle_connect_recorded:
  assumes "handle_connect L chk deps req remote tls ck = Returns ((w, resp, target), deps')"
  shows "recordings requests_total w = 0 \<and> recordings errors_total w = 0 \<and>
    recordings tunnels_total w = of_bool (target \<noteq> None)"
proof -
  let ?res = "\<lambda>deps. case connect_target L chk deps req tls ck of
        Panic m \<Rightarrow> Panic m
      | Returns ((w, Inr target), deps) \<Rightarrow>
          Returns ((w @ [record_connect_tunnel], connect_success_response, Some target),
                   deps\<lparr>cd_shutdown := ConnectionGuard_new (cd_shutdown deps)\<rparr>)
      | Returns ((w, Inl e), deps) \<Rightarrow>
          Returns ((w @ [record_token_validation Invalid], error_response e, None), deps)"
  have target: ?thesis if "?res deps1 = Returns ((w, resp, target), deps')" for deps1
  proof -
    from that obtain w' t deps2 where c: "connect_target L chk deps1 req tls ck = Returns ((w', t), deps2)"
      by (cases "connect_target L chk deps1 req tls ck") auto
    from recordings_inner [OF inner_connect_target [OF c]] that c show ?thesis
      by (cases t) (auto simp: requests_total_def errors_total_def tunnels_total_def)
  qed
  show ?thesis
  proof (cases "cd_rate_limiter deps")
    case None
    with assms target show ?thesis by (simp add: handle_connect_def Let_def)
  next
    case (Some limiter)
    define key where "key = rate_limit_key (case tls of Some info \<Rightarrow> with_tls (ConnectionInfo_new remote) info
        | None \<Rightarrow> ConnectionInfo_new remote)"
    obtain x limiter' where x: "check limiter key (kc_limit ck) = (x, limiter')" by fastforce
    have h: "handle_connect L chk deps req remote tls ck =
        (case x of Panic m \<Rightarrow> Panic m
         | Returns False \<Rightarrow> Returns (([], error_response RateLimitExceeded, None), deps\<lparr>cd_rate_limiter := Some limiter'\<rparr>)
         | Returns True \<Rightarrow> ?res (deps\<lparr>cd_rate_limiter := Some limiter'\<rparr>))"
      using Some x by (simp add: handle_connect_def Let_def key_def split: outcome.split)
    show ?thesis
    proof (cases "x = Returns True")
      case True
      with h assms show ?thesis by (intro target [of "deps\<lparr>cd_rate_limiter := Some limiter'\<rparr>"]) simp
    next
      case False
      with h assms show ?thesis by (auto split: outcome.splits bool.splits)
    qed
  qed
qed

lemma serve_connect_accounted: "accounted (fst (serve_connect L chk deps ev))"
proof (cases "handle_connect L chk deps (ar_request ev) (cx_remote_addr (ar_conn ev)) (cx_tls_info (ar_conn ev)) (ar_connect ev)")
  case (Panic m)
  then show ?thesis by (simp add: serve_connect_def accounted_def)
next
  case (Returns y)
  obtain w resp target deps' where y: "y = ((w, resp, target), deps')" by (metis prod.collapse)
  from handle_connect_recorded [OF Returns [unfolded y]] Returns y show ?thesis
    by (cases target) (simp_all add: serve_connect_def accounted_def)
qed

lemma service_fn_accounted: "accounted (fst (service_fn L U D chk ctx ev))"
proof (cases "dispatch ctx (ar_conn ev) (ar_request ev)")
  case None
  then show ?thesis using serve_plain_accounted [of L U D chk "stack_of ctx" ev]
    by (simp add: service_fn_def case_prod_beta)
next
  case (Some deps)
  then show ?thesis by (simp add: service_fn_def case_prod_beta serve_connect_accounted)
qed

lemma serve_all_accounted: "list_all accounted (fst (serve_all L U D chk tick ctx es))"
proof (induction es arbitrary: ctx)
  case (Cons x es)
  then show ?case by (cases x) (simp_all add: case_prod_beta service_fn_accounted)
qed simp

section \<open>Properties\<close>

text \<open>
  Property C18. The metrics account for a run of the server exactly: in any sequence of requests on any
  connections, with cleanups between them, the counter of requests is incremented once for every plain
  request that ended in a response or an error, the counter of request errors once for every one that
  ended in an error, whatever layer it came from, and the counter of tunnels once for every CONNECT
  that was granted its tunnel.
\<close>

theorem run_accounted:
  "let answers = fst (serve_all L U D chk tick ctx es); recorded = concat (map fst answers) in
     recordings requests_total recorded = length (filter (settled \<circ> snd) answers) \<and>
     recordings errors_total recorded = length (filter (failed \<circ> snd) answers) \<and>
     recordings tunnels_total recorded = length (filter (opened \<circ> snd) answers)"
proof -
  define answers where "answers = fst (serve_all L U D chk tick ctx es)"
  have "list_all accounted answers" unfolding answers_def by (rule serve_all_accounted)
  then have "recordings requests_total (concat (map fst answers)) = length (filter (settled \<circ> snd) answers) \<and>
     recordings errors_total (concat (map fst answers)) = length (filter (failed \<circ> snd) answers) \<and>
     recordings tunnels_total (concat (map fst answers)) = length (filter (opened \<circ> snd) answers)"
    by (induction answers) (auto simp: accounted_def)
  then show ?thesis by (simp add: answers_def Let_def)
qed

end
