(* ===== verification/Redis_Nonce.thy ===== *)
theory Redis_Nonce
  imports Admission
begin

text \<open>
  The Redis nonce store, \<open>crates/icebreaker-nonce/src/store.rs\<close>, module \<open>redis_store\<close>. The server is
  a parameter: \<open>R\<close> has the commands the store sends, each of which returns an error or an answer and
  leaves the server in a new state. What the store relies on is stated over a view of the server, the
  count and the expiry of every key: INCR adds one to a live key or starts one at 1 without an expiry,
  EXPIRE sets the expiry, an error may come before or after the command took effect.

  A check is two commands with a suspension between them, so the checks of several proxies interleave.
  The theorems bound the uses that checks allow over any interleaving, and show that checks that do not
  interleave keep the contract \<open>nonce_store\<close>, which gives the bound on admissions for this store too.
\<close>

section \<open>The store\<close>

record 'c redis_lib =
  rd_incr :: "'c \<Rightarrow> string \<Rightarrow> instant \<Rightarrow> (string, u32) result \<times> 'c"
  rd_expire :: "'c \<Rightarrow> string \<Rightarrow> 64 word \<Rightarrow> instant \<Rightarrow> (string, unit) result \<times> 'c"
  rd_get :: "'c \<Rightarrow> string \<Rightarrow> instant \<Rightarrow> (string, u32 option) result"

text \<open>\<open>client\<close> and \<open>conn\<close> are the outcomes of opening the client and of connecting.\<close>

definition RedisNonceStore_new :: "(string, unit) result \<Rightarrow> (string, 'c) result \<Rightarrow> string \<Rightarrow> ('c \<times> string) tresult" where
  "RedisNonceStore_new client conn key_prefix =
     bindR (map_err (\<lambda>e. NonceStoreError (''failed to create Redis client: '' @ e)) client) (\<lambda>_.
     bindR (map_err (\<lambda>e. NonceStoreError (''failed to connect to Redis: '' @ e)) conn) (\<lambda>c.
     Ok (c, key_prefix)))"

definition redis_key :: "string \<Rightarrow> string \<Rightarrow> string" where
  "redis_key key_prefix nonce = key_prefix @ nonce"

text \<open>\<open>ttl.as_secs().max(1) as i64\<close>.\<close>

definition ttl_secs :: "duration \<Rightarrow> 64 word" where
  "ttl_secs ttl = of_nat (max (ttl div nanos_per_sec) 1)"

text \<open>The decision after both commands.\<close>

definition redis_decide :: "u32 \<Rightarrow> u32 option \<Rightarrow> CheckResult" where
  "redis_decide new_count max_uses =
     (case max_uses of
        Some lim \<Rightarrow> if new_count > lim then Denied (saturating_sub new_count 1) lim
                    else Allowed new_count max_uses
      | None \<Rightarrow> Allowed new_count max_uses)"

text \<open>
  The future of a check is suspended after INCR and after EXPIRE: it runs up to the answer of INCR, and
  from there to its result.
\<close>

definition redis_incr_phase :: "'c redis_lib \<Rightarrow> string \<Rightarrow> 'c \<Rightarrow> string \<Rightarrow> instant \<Rightarrow> u32 tresult \<times> 'c" where
  "redis_incr_phase R key_prefix conn nonce now =
     (case rd_incr R conn (redis_key key_prefix nonce) now of
        (Inl e, conn) \<Rightarrow> (Err (NonceStoreError (''Redis INCR failed: '' @ e)), conn)
      | (Inr new_count, conn) \<Rightarrow> (Ok new_count, conn))"

definition redis_expire_phase :: "'c redis_lib \<Rightarrow> string \<Rightarrow> 'c \<Rightarrow> string \<Rightarrow> u32 option \<Rightarrow> duration \<Rightarrow> u32 \<Rightarrow>
    instant \<Rightarrow> CheckResult tresult \<times> 'c" where
  "redis_expire_phase R key_prefix conn nonce max_uses ttl new_count now =
     (case rd_expire R conn (redis_key key_prefix nonce) (ttl_secs ttl) now of
        (Inl e, conn) \<Rightarrow> (Err (NonceStoreError (''Redis EXPIRE failed: '' @ e)), conn)
      | (Inr _, conn) \<Rightarrow> (Ok (redis_decide new_count max_uses), conn))"

definition redis_check_and_record :: "'c redis_lib \<Rightarrow> string \<Rightarrow> 'c check_fn" where
  "redis_check_and_record R key_prefix conn nonce max_uses ttl now =
     Returns (case redis_incr_phase R key_prefix conn nonce now of
        (Inl e, conn) \<Rightarrow> (Err e, conn)
      | (Inr new_count, conn) \<Rightarrow> redis_expire_phase R key_prefix conn nonce max_uses ttl new_count now)"

definition redis_get_use_count :: "'c redis_lib \<Rightarrow> string \<Rightarrow> 'c \<Rightarrow> string \<Rightarrow> instant \<Rightarrow> u32 option tresult" where
  "redis_get_use_count R key_prefix conn nonce now =
     map_err (\<lambda>e. NonceStoreError (''Redis GET failed: '' @ e)) (rd_get R conn (redis_key key_prefix nonce) now)"

section \<open>What the server promises\<close>

type_synonym 'c redis_view = "'c \<Rightarrow> string \<Rightarrow> (u32 \<times> instant option) option"

definition redis_live :: "'c redis_view \<Rightarrow> 'c \<Rightarrow> string \<Rightarrow> instant \<Rightarrow> (u32 \<times> instant option) option" where
  "redis_live view s k now =
     (case view s k of
        Some (v, Some t) \<Rightarrow> if t \<le> now then None else Some (v, Some t)
      | r \<Rightarrow> r)"

text \<open>The states an INCR and an EXPIRE that took effect lead to.\<close>

definition incremented :: "'c redis_view \<Rightarrow> 'c \<Rightarrow> string \<Rightarrow> instant \<Rightarrow> u32 \<Rightarrow> 'c \<Rightarrow> bool" where
  "incremented view s k now c s' \<longleftrightarrow>
     unat c = Suc (case redis_live view s k now of None \<Rightarrow> 0 | Some (v, _) \<Rightarrow> unat v) \<and>
     view s' = (view s)(k \<mapsto> (c, case redis_live view s k now of None \<Rightarrow> None | Some (_, e) \<Rightarrow> e))"

definition expiry_set :: "'c redis_view \<Rightarrow> 'c \<Rightarrow> string \<Rightarrow> 64 word \<Rightarrow> instant \<Rightarrow> 'c \<Rightarrow> bool" where
  "expiry_set view s k secs now s' \<longleftrightarrow>
     view s' = (case redis_live view s k now of
       None \<Rightarrow> view s
     | Some (v, _) \<Rightarrow> (view s)(k \<mapsto> (v, Some (now + unat secs * nanos_per_sec))))"

definition redis_laws :: "'c redis_lib \<Rightarrow> 'c redis_view \<Rightarrow> bool" where
  "redis_laws R view \<longleftrightarrow>
     (\<forall>s k now c s'. rd_incr R s k now = (Ok c, s') \<longrightarrow> incremented view s k now c s') \<and>
     (\<forall>s k now e s'. rd_incr R s k now = (Err e, s') \<longrightarrow>
        view s' = view s \<or> (\<exists>c. incremented view s k now c s')) \<and>
     (\<forall>s k secs now s'. 0 <s secs \<longrightarrow> rd_expire R s k secs now = (Ok (), s') \<longrightarrow>
        expiry_set view s k secs now s') \<and>
     (\<forall>s k secs now e s'. 0 <s secs \<longrightarrow> rd_expire R s k secs now = (Err e, s') \<longrightarrow>
        view s' = view s \<or> expiry_set view s k secs now s') \<and>
     (\<forall>s k secs now r s' k'. rd_expire R s k secs now = (r, s') \<longrightarrow> k' \<noteq> k \<longrightarrow> view s' k' = view s k')"

section \<open>What a key holds\<close>

text \<open>The count a key keeps up to \<open>D\<close>.\<close>

definition redis_held :: "'c redis_view \<Rightarrow> 'c \<Rightarrow> string \<Rightarrow> instant \<Rightarrow> nat" where
  "redis_held view s k D =
     (case view s k of
        Some (v, Some t) \<Rightarrow> if D < t then unat v else 0
      | Some (v, None) \<Rightarrow> unat v
      | None \<Rightarrow> 0)"

lemma redis_held_live:
  assumes "now \<le> D"
  shows "redis_held view s k D \<le> (case redis_live view s k now of None \<Rightarrow> 0 | Some (v, _) \<Rightarrow> unat v)"
  using assms by (auto simp: redis_held_def redis_live_def split: option.splits if_splits)

lemma incremented_held:
  assumes "incremented view s k now c s'" and "now \<le> D"
  shows "redis_held view s k D < unat c" and "redis_held view s k D \<le> redis_held view s' k D"
    and "redis_live view s' k now \<noteq> None" and "fst (the (redis_live view s' k now)) = c"
    and "k' \<noteq> k \<Longrightarrow> view s' k' = view s k'"
proof -
  show "redis_held view s k D < unat c"
    using assms redis_held_live [OF assms(2), of view s k] by (simp add: incremented_def)
  show "redis_held view s k D \<le> redis_held view s' k D"
    using assms by (auto simp: incremented_def redis_held_def redis_live_def split: option.splits if_splits)
  show "redis_live view s' k now \<noteq> None" "fst (the (redis_live view s' k now)) = c"
    using assms by (auto simp: incremented_def redis_live_def split: option.splits if_splits)
  show "k' \<noteq> k \<Longrightarrow> view s' k' = view s k'"
    using assms by (simp add: incremented_def)
qed

lemma expiry_set_held:
  assumes "expiry_set view s k secs now s'" and "now \<le> D" and "D < now + unat secs * nanos_per_sec"
  shows "redis_held view s k D \<le> redis_held view s' k D"
    and "redis_live view s k now = Some (c, e) \<Longrightarrow> redis_held view s' k D = unat c"
    and "k' \<noteq> k \<Longrightarrow> view s' k' = view s k'"
  using assms
  by (auto simp: expiry_set_def redis_held_def redis_live_def split: option.splits if_splits)

section \<open>Checks one after the other\<close>

text \<open>How long an entry is kept; a time-to-live that does not fit in 63 bits promises nothing.\<close>

definition redis_life :: "duration \<Rightarrow> duration" where
  "redis_life ttl = (if 0 <s ttl_secs ttl then unat (ttl_secs ttl) * nanos_per_sec else 0)"

lemma redis_check_cases:
  assumes "redis_check_and_record R p s n mx ttl now = Returns (r, s')"
  obtains (incr_failed) e where "rd_incr R s (redis_key p n) now = (Err e, s')" and "\<not> allowed_of r"
    | (expire_failed) c s1 e where "rd_incr R s (redis_key p n) now = (Ok c, s1)"
        and "rd_expire R s1 (redis_key p n) (ttl_secs ttl) now = (Err e, s')" and "\<not> allowed_of r"
    | (both) c s1 where "rd_incr R s (redis_key p n) now = (Ok c, s1)"
        and "rd_expire R s1 (redis_key p n) (ttl_secs ttl) now = (Ok (), s')" and "r = Ok (redis_decide c mx)"
  using assms by (auto simp: redis_check_and_record_def redis_incr_phase_def redis_expire_phase_def
      split: prod.splits sum.splits)

lemma redis_lawsD:
  assumes "redis_laws R view"
  shows "rd_incr R s k now = (Ok c, s') \<Longrightarrow> incremented view s k now c s'"
    and "rd_incr R s k now = (Err e, s') \<Longrightarrow> view s' = view s \<or> (\<exists>c. incremented view s k now c s')"
    and "0 <s secs \<Longrightarrow> rd_expire R s k secs now = (Ok (), s') \<Longrightarrow> expiry_set view s k secs now s'"
    and "0 <s secs \<Longrightarrow> rd_expire R s k secs now = (Err e, s') \<Longrightarrow>
      view s' = view s \<or> expiry_set view s k secs now s'"
    and "rd_expire R s k secs now = (x, s') \<Longrightarrow> k' \<noteq> k \<Longrightarrow> view s' k' = view s k'"
  using assms unfolding redis_laws_def by metis+

lemma redis_held_cong: "view s' k = view s k \<Longrightarrow> redis_held view s' k D = redis_held view s k D"
  by (simp add: redis_held_def)

text \<open>No command on a key that reaches past \<open>D\<close> takes away what it holds.\<close>

lemma incr_keeps:
  assumes "redis_laws R view" and "rd_incr R s k now = (r, s')" and "now \<le> D"
  shows "redis_held view s k D \<le> redis_held view s' k D"
proof (cases r)
  case (Inl e)
  with redis_lawsD(2) [OF assms(1)] assms(2, 3) show ?thesis
    using incremented_held(2) [of view s k now _ s' D] by (metis order_refl redis_held_cong)
next
  case (Inr c)
  with assms(2) have "incremented view s k now c s'" using redis_lawsD(1) [OF assms(1)] by simp
  then show ?thesis using assms(3) by (rule incremented_held(2))
qed

lemma expire_keeps:
  assumes "redis_laws R view" and "rd_expire R s k secs now = (r, s')" and "0 <s secs"
    and "now \<le> D" and "D < now + unat secs * nanos_per_sec"
  shows "redis_held view s k D \<le> redis_held view s' k D"
proof (cases r)
  case (Inl e)
  with redis_lawsD(4) [OF assms(1, 3)] assms(2) show ?thesis
    using expiry_set_held(1) [OF _ assms(4, 5), of view s k s'] by (metis order_refl redis_held_cong)
next
  case (Inr u)
  with redis_lawsD(3) [OF assms(1, 3)] assms(2) show ?thesis
    using expiry_set_held(1) [OF _ assms(4, 5)] by (metis old.unit.exhaust)
qed

lemma redis_life_positive:
  assumes "now \<le> D" and "D < now + redis_life ttl"
  shows "0 <s ttl_secs ttl" and "D < now + unat (ttl_secs ttl) * nanos_per_sec"
  using assms by (auto simp: redis_life_def split: if_splits)

lemma redis_allowed_grows:
  assumes laws: "redis_laws R view"
    and chk: "redis_check_and_record R p s n (Some m) ttl now = Returns (Ok (Allowed c mx), s')"
    and D: "now \<le> D" "D < now + redis_life ttl"
  shows "Suc (redis_held view s (redis_key p n) D) \<le> redis_held view s' (redis_key p n) D \<and>
    redis_held view s' (redis_key p n) D \<le> unat m"
  using chk
proof (cases rule: redis_check_cases)
  case (both c' s1)
  let ?k = "redis_key p n"
  note secs = redis_life_positive [OF D]
  from both(3) have le: "c' \<le> m" by (auto simp: redis_decide_def split: if_splits)
  have inc: "incremented view s ?k now c' s1" using redis_lawsD(1) [OF laws both(1)] .
  note inc = incremented_held [OF inc D(1)]
  obtain e where live: "redis_live view s1 ?k now = Some (c', e)"
    using inc(3, 4) by (metis option.exhaust_sel prod.collapse)
  have "redis_held view s' ?k D = unat c'"
    using redis_lawsD(3) [OF laws secs(1) both(2)] D(1) secs(2) live by (rule expiry_set_held(2))
  with inc(1) le show ?thesis by (simp add: word_le_nat_alt)
qed simp_all

lemma redis_other_key:
  assumes laws: "redis_laws R view" and "redis_check_and_record R p s n' mx ttl now = Returns (r, s')"
    and "n' \<noteq> n"
  shows "view s' (redis_key p n) = view s (redis_key p n)"
proof -
  have k: "redis_key p n \<noteq> redis_key p n'" using assms(3) by (simp add: redis_key_def)
  have i: "view s1 (redis_key p n) = view s (redis_key p n)"
    if "rd_incr R s (redis_key p n') now = (x, s1)" for x s1
    using that redis_lawsD(1, 2) [OF laws] k by (cases x) (fastforce simp: incremented_def)+
  from assms(2) show ?thesis
  proof (cases rule: redis_check_cases)
    case incr_failed
    then show ?thesis using i by blast
  next
    case expire_failed
    then show ?thesis using i redis_lawsD(5) [OF laws _ k] by metis
  next
    case both
    then show ?thesis using i redis_lawsD(5) [OF laws _ k] by metis
  qed
qed

lemma redis_denied_keeps:
  assumes laws: "redis_laws R view" and "redis_check_and_record R p s n (Some m) ttl now = Returns (r, s')"
    and D: "now \<le> D" "D < now + redis_life ttl"
  shows "redis_held view s (redis_key p n) D \<le> redis_held view s' (redis_key p n) D"
  using assms(2)
proof (cases rule: redis_check_cases)
  case (incr_failed e)
  then show ?thesis using incr_keeps [OF laws _ D(1)] by blast
next
  case (expire_failed c s1 e)
  have "redis_held view s (redis_key p n) D \<le> redis_held view s1 (redis_key p n) D"
    using laws expire_failed(1) D(1) by (rule incr_keeps)
  also have "\<dots> \<le> redis_held view s' (redis_key p n) D"
    using laws expire_failed(2) redis_life_positive(1) [OF D] D(1) redis_life_positive(2) [OF D] by (rule expire_keeps)
  finally show ?thesis .
next
  case (both c s1)
  have "redis_held view s (redis_key p n) D \<le> redis_held view s1 (redis_key p n) D"
    using laws both(1) D(1) by (rule incr_keeps)
  also have "\<dots> \<le> redis_held view s' (redis_key p n) D"
    using laws both(2) redis_life_positive(1) [OF D] D(1) redis_life_positive(2) [OF D] by (rule expire_keeps)
  finally show ?thesis .
qed

text \<open>The Redis store keeps the contract, for every server that keeps its own.\<close>

lemma redis_is_nonce_store:
  assumes laws: "redis_laws R view"
  shows "nonce_store (redis_check_and_record R p) (\<lambda>s _. s) (\<lambda>s n. redis_held view s (redis_key p n)) redis_life"
proof (unfold_locales, goal_cases)
  case (1 s n m ttl now c mx s' D)
  then show ?case using redis_allowed_grows [OF laws] by blast
next
  case (2 s n m ttl now r s' D)
  then show ?case using redis_denied_keeps [OF laws] by blast
next
  case (3 s n' mx ttl now r s' n D)
  then show ?case using redis_other_key [OF laws] redis_held_cong by metis
qed simp

section \<open>Interleaved checks\<close>

text \<open>
  Checks that run at the same time, of any number of proxies. A check begins with its INCR; if that
  answers, the task waits with the count, and other checks run in between, until it resumes with its
  EXPIRE and answers, or is abandoned, as when its request times out. Each event has its time.
\<close>

record redis_task =
  rt_nonce :: string
  rt_max_uses :: "u32 option"
  rt_ttl :: duration
  rt_count :: u32

datatype check_event =
    Begin nat string "u32 option" duration instant
  | Resume nat instant
  | Abandon nat instant

fun event_time :: "check_event \<Rightarrow> instant" where
  "event_time (Begin i nonce max_uses ttl now) = now"
| "event_time (Resume i now) = now"
| "event_time (Abandon i now) = now"

type_synonym 'c redis_run = "'c \<times> (nat \<rightharpoonup> redis_task)"

fun run_event :: "'c redis_lib \<Rightarrow> string \<Rightarrow> check_event \<Rightarrow> 'c redis_run \<Rightarrow>
    (string \<times> CheckResult tresult) option \<times> 'c redis_run" where
  "run_event R p (Begin i nonce max_uses ttl now) (conn, tasks) =
     (case redis_incr_phase R p conn nonce now of
        (Inl e, conn) \<Rightarrow> (Some (nonce, Err e), (conn, tasks))
      | (Inr c, conn) \<Rightarrow>
          (None, (conn, tasks(i \<mapsto> \<lparr>rt_nonce = nonce, rt_max_uses = max_uses, rt_ttl = ttl, rt_count = c\<rparr>))))"
| "run_event R p (Resume i now) (conn, tasks) =
     (case tasks i of
        None \<Rightarrow> (None, (conn, tasks))
      | Some t \<Rightarrow>
          (case redis_expire_phase R p conn (rt_nonce t) (rt_max_uses t) (rt_ttl t) (rt_count t) now of
             (r, conn) \<Rightarrow> (Some (rt_nonce t, r), (conn, tasks(i := None)))))"
| "run_event R p (Abandon i now) (conn, tasks) = (None, (conn, tasks(i := None)))"

text \<open>The answers that checks gave, each with its nonce, and how many uses of a nonce they allowed.\<close>

fun check_answers :: "'c redis_lib \<Rightarrow> string \<Rightarrow> 'c redis_run \<Rightarrow> check_event list \<Rightarrow>
    (string \<times> CheckResult tresult) list" where
  "check_answers R p st [] = []"
| "check_answers R p st (e # es) =
     (case run_event R p e st of (a, st') \<Rightarrow>
        (case a of None \<Rightarrow> [] | Some x \<Rightarrow> [x]) @ check_answers R p st' es)"

definition uses_allowed :: "string \<Rightarrow> (string \<times> CheckResult tresult) list \<Rightarrow> nat" where
  "uses_allowed n answers = length (filter (\<lambda>(n', r). n' = n \<and> allowed_of r) answers)"

text \<open>A check that nothing interrupts is \<open>redis_check_and_record\<close>.\<close>

lemma uninterrupted_check:
  assumes "redis_check_and_record R p conn n mx ttl now = Returns (r, conn')" and "tasks i = None"
  shows "check_answers R p (conn, tasks) [Begin i n mx ttl now, Resume i now] = [(n, r)]"
  using assms by (auto simp: redis_check_and_record_def split: prod.splits sum.splits)

text \<open>A key that is not due to expire by \<open>D\<close>.\<close>

definition outlives :: "'c redis_view \<Rightarrow> 'c \<Rightarrow> string \<Rightarrow> instant \<Rightarrow> bool" where
  "outlives view s k D \<longleftrightarrow> (case view s k of Some (v, Some t) \<Rightarrow> D < t | _ \<Rightarrow> True)"

lemma outlives_cong: "view s' k = view s k \<Longrightarrow> outlives view s' k D = outlives view s k D"
  by (simp add: outlives_def)

lemma outlives_incremented:
  assumes "outlives view s k D" and "incremented view s k now c s'" and "now \<le> D"
  shows "outlives view s' k D" and "redis_held view s' k D = unat c" and "unat c = Suc (redis_held view s k D)"
  using assms
  by (auto simp: outlives_def incremented_def redis_held_def redis_live_def split: option.splits if_splits)

lemma outlives_expiry_set:
  assumes "outlives view s k D" and "expiry_set view s k secs now s'" and "now \<le> D"
    and "D < now + unat secs * nanos_per_sec"
  shows "outlives view s' k D" and "redis_held view s' k D = redis_held view s k D"
  using assms
  by (auto simp: outlives_def expiry_set_def redis_held_def redis_live_def split: option.splits if_splits)

lemma incr_other_key:
  assumes "redis_laws R view" and "rd_incr R s k now = (r, s')" and "k' \<noteq> k"
  shows "view s' k' = view s k'"
  using assms redis_lawsD(1, 2) [OF assms(1)] by (cases r) (fastforce simp: incremented_def)+

lemma incr_outlives:
  assumes laws: "redis_laws R view" and r: "rd_incr R s k now = (r, s')" and "outlives view s k D" and "now \<le> D"
  shows "outlives view s' k D" and "redis_held view s k D \<le> redis_held view s' k D"
    and "r = Ok c \<Longrightarrow> redis_held view s' k D = unat c \<and> unat c = Suc (redis_held view s k D)"
proof -
  note inc = outlives_incremented [OF assms(3) _ assms(4)]
  have *: "view s' = view s \<and> (\<forall>c. r \<noteq> Ok c) \<or>
      (\<exists>c. incremented view s k now c s' \<and> (\<forall>d. r = Ok d \<longrightarrow> d = c))"
    using r redis_lawsD(1, 2) [OF laws] by (cases r) auto
  show "outlives view s' k D" using * inc(1) assms(3) outlives_cong by metis
  show "redis_held view s k D \<le> redis_held view s' k D"
    using * inc(2, 3) redis_held_cong [of view s' k s D] by (metis Suc_n_not_le_n nat_le_linear)
  show "redis_held view s' k D = unat c \<and> unat c = Suc (redis_held view s k D)" if "r = Ok c"
    using * inc(2, 3) that by metis
qed

lemma expire_outlives:
  assumes laws: "redis_laws R view" and r: "rd_expire R s k (ttl_secs ttl) now = (r, s')"
    and "outlives view s k D" and D: "now \<le> D" "D < now + redis_life ttl"
  shows "outlives view s' k D \<and> redis_held view s' k D = redis_held view s k D"
proof -
  note pos = redis_life_positive [OF D]
  have "view s' = view s \<or> expiry_set view s k (ttl_secs ttl) now s'"
    using r redis_lawsD(3, 4) [OF laws pos(1)] by (cases r) auto
  then show ?thesis
    using outlives_expiry_set [OF assms(3) _ D(1) pos(2)] assms(3) outlives_cong redis_held_cong by metis
qed

text \<open>The tasks of a nonce that wait with a count within the limit, and the uses that are still open.\<close>

definition waiting :: "string \<Rightarrow> u32 \<Rightarrow> (nat \<rightharpoonup> redis_task) \<Rightarrow> nat set" where
  "waiting n m tasks = {i. \<exists>t. tasks i = Some t \<and> rt_nonce t = n \<and> rt_count t \<le> m}"

definition uses_open :: "'c redis_view \<Rightarrow> string \<Rightarrow> string \<Rightarrow> u32 \<Rightarrow> instant \<Rightarrow> 'c redis_run \<Rightarrow> nat" where
  "uses_open view p n m D st =
     card (waiting n m (snd st)) + (unat m - redis_held view (fst st) (redis_key p n) D)"

text \<open>
  What holds of a run before an event at time \<open>now\<close>: the key of the nonce is not due to expire by the
  deadline, and every waiting task of the nonce carries its limit and would set an expiry beyond it.
\<close>

definition run_ok :: "'c redis_view \<Rightarrow> string \<Rightarrow> string \<Rightarrow> u32 \<Rightarrow> instant \<Rightarrow> instant \<Rightarrow> 'c redis_run \<Rightarrow> bool" where
  "run_ok view p n m D now st \<longleftrightarrow> outlives view (fst st) (redis_key p n) D \<and> finite (dom (snd st)) \<and>
     (\<forall>i t. snd st i = Some t \<and> rt_nonce t = n \<longrightarrow> rt_max_uses t = Some m \<and> D < now + redis_life (rt_ttl t))"

fun event_ok :: "string \<Rightarrow> u32 \<Rightarrow> instant \<Rightarrow> check_event \<Rightarrow> bool" where
  "event_ok n m D (Begin i nonce max_uses ttl now) =
     (now \<le> D \<and> (nonce = n \<longrightarrow> max_uses = Some m \<and> D < now + redis_life ttl))"
| "event_ok n m D e = (event_time e \<le> D)"

lemma finite_waiting: "finite (dom tasks) \<Longrightarrow> finite (waiting n m tasks)"
  by (rule finite_subset [of _ "dom tasks"]) (auto simp: waiting_def)

lemma waiting_dropped:
  "finite (dom tasks) \<Longrightarrow> card (waiting n m (tasks(i := None))) + (if i \<in> waiting n m tasks then 1 else 0) =
     card (waiting n m tasks)"
proof -
  assume fin: "finite (dom tasks)"
  have "waiting n m (tasks(i := None)) = waiting n m tasks - {i}" by (auto simp: waiting_def)
  then show ?thesis
    using card.remove [OF finite_waiting [OF fin, of n m], of i] by (cases "i \<in> waiting n m tasks") simp_all
qed

lemma waiting_added:
  "finite (dom tasks) \<Longrightarrow> card (waiting n m (tasks(i \<mapsto> t))) \<le>
     card (waiting n m tasks) + (if rt_nonce t = n \<and> rt_count t \<le> m then 1 else 0)"
proof -
  assume fin: "finite (dom tasks)"
  have "waiting n m (tasks(i \<mapsto> t)) \<subseteq>
      (if rt_nonce t = n \<and> rt_count t \<le> m then insert i (waiting n m tasks) else waiting n m tasks)"
    by (auto simp: waiting_def split: if_splits)
  from card_mono [OF _ this] finite_waiting [OF fin, of n m] show ?thesis
    by (auto simp: card_insert_if split: if_splits)
qed

lemma incr_phase_cases:
  assumes "redis_incr_phase R p s n now = (r, s')"
  obtains x where "rd_incr R s (redis_key p n) now = (x, s')" "r = map_err (\<lambda>e. NonceStoreError (''Redis INCR failed: '' @ e)) x"
  using assms by (auto simp: redis_incr_phase_def split: prod.splits sum.splits)

lemma cr_allowed_of: "allowed_of (Ok d) = cr_is_allowed d"
  by (cases d) simp_all

lemma expire_phase_cases:
  assumes "redis_expire_phase R p s n mx ttl c now = (r, s')"
  obtains x where "rd_expire R s (redis_key p n) (ttl_secs ttl) now = (x, s')"
    "allowed_of r \<longrightarrow> cr_is_allowed (redis_decide c mx)"
  using assms by (auto simp: redis_expire_phase_def cr_allowed_of split: prod.splits sum.splits)

lemma begin_step:
  assumes laws: "redis_laws R view" and st: "run_ok view p n m D now (s, tasks)"
    and e: "event_ok n m D (Begin i n' mx ttl now)"
    and step: "run_event R p (Begin i n' mx ttl now) (s, tasks) = (a, st')"
  shows "run_ok view p n m D now st' \<and>
    uses_open view p n m D st' + uses_allowed n (case a of None \<Rightarrow> [] | Some x \<Rightarrow> [x]) \<le> uses_open view p n m D (s, tasks)"
proof -
  let ?k = "redis_key p n"
  obtain r s' where ph: "redis_incr_phase R p s n' now = (r, s')" by fastforce
  then obtain x where x: "rd_incr R s (redis_key p n') now = (x, s')"
    "r = map_err (\<lambda>e. NonceStoreError (''Redis INCR failed: '' @ e)) x" by (rule incr_phase_cases)
  have fin: "finite (dom tasks)" and out: "outlives view s ?k D" using st by (simp_all add: run_ok_def)
  have held: "outlives view s' ?k D" "redis_held view s ?k D \<le> redis_held view s' ?k D"
    "n' = n \<Longrightarrow> x = Ok c \<Longrightarrow> redis_held view s' ?k D = unat c \<and> unat c = Suc (redis_held view s ?k D)" for c
  proof -
    have *: "outlives view s' ?k D \<and> redis_held view s ?k D \<le> redis_held view s' ?k D \<and>
        (n' = n \<longrightarrow> x = Ok c \<longrightarrow> redis_held view s' ?k D = unat c \<and> unat c = Suc (redis_held view s ?k D))" for c
    proof (cases "n' = n")
      case True
      with incr_outlives [OF laws x(1)] out e show ?thesis by auto
    next
      case False
      then have "view s' ?k = view s ?k" using incr_other_key [OF laws x(1), of ?k] by (simp add: redis_key_def)
      with out False show ?thesis by (simp add: outlives_def redis_held_def)
    qed
    from * show "outlives view s' ?k D" "redis_held view s ?k D \<le> redis_held view s' ?k D"
      "n' = n \<Longrightarrow> x = Ok c \<Longrightarrow> redis_held view s' ?k D = unat c \<and> unat c = Suc (redis_held view s ?k D)" by blast+
  qed
  show ?thesis
  proof (cases x)
    case (Inl err)
    with x ph step have "a = Some (n', Err (NonceStoreError (''Redis INCR failed: '' @ err)))" "st' = (s', tasks)"
      by simp_all
    with st held(1, 2) show ?thesis by (auto simp: run_ok_def uses_open_def uses_allowed_def intro: diff_le_mono2)
  next
    case (Inr c)
    let ?t = "\<lparr>rt_nonce = n', rt_max_uses = mx, rt_ttl = ttl, rt_count = c\<rparr>"
    from Inr x ph step have a: "a = None" "st' = (s', tasks(i \<mapsto> ?t))" by auto
    have "run_ok view p n m D now st'" using st held(1) e a(2) by (auto simp: run_ok_def split: if_splits)
    moreover have "uses_open view p n m D st' \<le> uses_open view p n m D (s, tasks)"
      using waiting_added [OF fin, of n m i ?t] held(2) held(3) [OF _ Inr]
      by (cases "n' = n"; cases "c \<le> m") (auto simp: a(2) uses_open_def word_le_nat_alt)
    ultimately show ?thesis using a(1) by (simp add: uses_allowed_def)
  qed
qed

lemma resume_step:
  assumes laws: "redis_laws R view" and st: "run_ok view p n m D now (s, tasks)" and e: "event_ok n m D (Resume i now)"
    and step: "run_event R p (Resume i now) (s, tasks) = (a, st')"
  shows "run_ok view p n m D now st' \<and>
    uses_open view p n m D st' + uses_allowed n (case a of None \<Rightarrow> [] | Some x \<Rightarrow> [x]) \<le> uses_open view p n m D (s, tasks)"
proof (cases "tasks i")
  case None
  with step st show ?thesis by (auto simp: uses_allowed_def)
next
  case (Some t)
  let ?k = "redis_key p n"
  obtain r s' where ph: "redis_expire_phase R p s (rt_nonce t) (rt_max_uses t) (rt_ttl t) (rt_count t) now = (r, s')"
    by fastforce
  then obtain x where x: "rd_expire R s (redis_key p (rt_nonce t)) (ttl_secs (rt_ttl t)) now = (x, s')"
    and allowed: "allowed_of r \<longrightarrow> cr_is_allowed (redis_decide (rt_count t) (rt_max_uses t))"
    by (rule expire_phase_cases)
  have fin: "finite (dom tasks)" and out: "outlives view s ?k D" using st by (simp_all add: run_ok_def)
  have own: "rt_nonce t = n \<Longrightarrow> rt_max_uses t = Some m \<and> D < now + redis_life (rt_ttl t)"
    using st Some by (simp add: run_ok_def)
  from step Some ph have a: "a = Some (rt_nonce t, r)" "st' = (s', tasks(i := None))" by auto
  have held: "outlives view s' ?k D \<and> redis_held view s' ?k D = redis_held view s ?k D"
  proof (cases "rt_nonce t = n")
    case True
    with expire_outlives [OF laws _ out] x own e show ?thesis by simp
  next
    case False
    then have "view s' ?k = view s ?k" using redis_lawsD(5) [OF laws x, of ?k] by (simp add: redis_key_def)
    with out show ?thesis by (simp add: outlives_def redis_held_def)
  qed
  have "run_ok view p n m D now st'" using st held a(2) by (auto simp: run_ok_def split: if_splits)
  moreover have "i \<in> waiting n m tasks" if "rt_nonce t = n" "allowed_of r"
    using allowed that(2) own [OF that(1)] that(1) Some
    by (simp add: waiting_def redis_decide_def not_less split: if_splits)
  then have "uses_open view p n m D st' + uses_allowed n [(rt_nonce t, r)] \<le> uses_open view p n m D (s, tasks)"
    using waiting_dropped [OF fin, of n m i] held by (auto simp: a(2) uses_open_def uses_allowed_def split: if_splits)
  ultimately show ?thesis by (simp add: a(1))
qed

lemma event_step:
  assumes laws: "redis_laws R view" and st: "run_ok view p n m D (event_time e) st" and e: "event_ok n m D e"
    and step: "run_event R p e st = (a, st')"
  shows "run_ok view p n m D (event_time e) st' \<and>
    uses_open view p n m D st' + uses_allowed n (case a of None \<Rightarrow> [] | Some x \<Rightarrow> [x]) \<le> uses_open view p n m D st"
proof (cases e)
  case (Begin i n' mx ttl now)
  with begin_step [OF laws, of p n m D now "fst st" "snd st" i n' mx ttl a st'] assms(2-) show ?thesis by simp
next
  case (Resume i now)
  with resume_step [OF laws, of p n m D now "fst st" "snd st" i a st'] assms(2-) show ?thesis by simp
next
  case (Abandon i now)
  with step have a: "a = None" "st' = (fst st, (snd st)(i := None))" by (cases st; simp)+
  have fin: "finite (dom (snd st))" using st by (simp add: run_ok_def)
  from st have "run_ok view p n m D (event_time e) st'" by (auto simp: a(2) run_ok_def split: if_splits)
  with waiting_dropped [OF fin, of n m i] show ?thesis by (simp add: a uses_open_def uses_allowed_def)
qed

lemma run_ok_later: "run_ok view p n m D now st \<Longrightarrow> now \<le> now' \<Longrightarrow> run_ok view p n m D now' st"
  by (fastforce simp: run_ok_def)

lemma checks_bounded:
  assumes laws: "redis_laws R view"
  shows "run_ok view p n m D now st \<Longrightarrow> sorted (map event_time es) \<Longrightarrow> \<forall>e\<in>set es. now \<le> event_time e \<Longrightarrow>
    \<forall>e\<in>set es. event_ok n m D e \<Longrightarrow> uses_allowed n (check_answers R p st es) \<le> uses_open view p n m D st"
proof (induction es arbitrary: st now)
  case Nil
  then show ?case by (simp add: uses_allowed_def)
next
  case (Cons e es)
  obtain a st' where step: "run_event R p e st = (a, st')" by (cases "run_event R p e st")
  have "run_ok view p n m D (event_time e) st" using run_ok_later [OF Cons.prems(1)] Cons.prems(3) by simp
  note after = event_step [OF laws this _ step]
  have "uses_allowed n (check_answers R p st' es) \<le> uses_open view p n m D st'"
    using after Cons.prems by (intro Cons.IH [of "event_time e"]) auto
  with after Cons.prems(4) step show ?case by (fastforce simp: uses_allowed_def)
qed

section \<open>Properties\<close>

text \<open>
  Property C10. Over any interleaving of the checks of any number of proxies, each an INCR and later
  an EXPIRE, also with checks that are abandoned between the two and with commands that fail, the Redis
  store answers that a use is allowed at most \<open>m\<close> times for a nonce that starts fresh and is limited to
  \<open>m\<close> uses, up to a deadline that every expiry set for it reaches past.
\<close>

theorem redis_replay_limit:
  assumes "redis_laws R view" and "view conn (redis_key p n) = None" and "sorted (map event_time es)"
    and "\<forall>e \<in> set es. event_time e \<le> D"
    and "\<forall>i mx ttl now. Begin i n mx ttl now \<in> set es \<longrightarrow> mx = Some m \<and> D < now + redis_life ttl"
  shows "uses_allowed n (check_answers R p (conn, Map.empty) es) \<le> unat m"
proof -
  have "run_ok view p n m D 0 (conn, Map.empty)" using assms(2) by (simp add: run_ok_def outlives_def)
  moreover have "event_ok n m D e" if "e \<in> set es" for e using assms(4, 5) that by (cases e) auto
  ultimately have "uses_allowed n (check_answers R p (conn, Map.empty) es) \<le>
      uses_open view p n m D (conn, Map.empty)"
    by (intro checks_bounded [OF assms(1) _ assms(3)]) auto
  then show ?thesis by (simp add: uses_open_def waiting_def)
qed

text \<open>A server with a map from keys to counts and expiries.\<close>

definition map_redis :: "(string \<rightharpoonup> u32 \<times> instant option) redis_lib" where
  "map_redis =
     \<lparr>rd_incr = (\<lambda>s k now.
        case redis_live id s k now of
          None \<Rightarrow> (Ok 1, s(k \<mapsto> (1, None)))
        | Some (v, e) \<Rightarrow> if v = - 1 then (Err ''overflow'', s) else (Ok (v + 1), s(k \<mapsto> (v + 1, e)))),
      rd_expire = (\<lambda>s k secs now.
        case redis_live id s k now of
          None \<Rightarrow> (Ok (), s)
        | Some (v, e) \<Rightarrow> (Ok (), s(k \<mapsto> (v, Some (now + unat secs * nanos_per_sec))))),
      rd_get = (\<lambda>s k now. Ok (map_option fst (redis_live id s k now)))\<rparr>"

lemma map_redis_laws: "redis_laws map_redis id"
proof -
  have "unat (v + 1) = Suc (unat v)" if "v \<noteq> - 1" for v :: u32
  proof -
    have "unat v \<noteq> unat (- 1 :: u32)" using that by (simp add: word_unat_eq_iff)
    then have "unat v + 1 < 2 ^ 32"
      using unsigned_less [of v, where ?'a = nat] by (simp add: unsigned_minus_1_eq_mask mask_eq_exp_minus_1)
    then show ?thesis using unat_add_no_overflow [of v 1] by simp
  qed
  then show ?thesis
    by (auto simp: redis_laws_def map_redis_def incremented_def expiry_set_def split: option.splits if_splits)
qed

definition sample_checks :: "check_event list" where
  "sample_checks =
     [Begin 0 ''n'' (Some 1) (from_secs 5) 0, Begin 1 ''n'' (Some 1) (from_secs 5) 1, Resume 1 2,
      Begin 2 ''n'' (Some 1) (from_secs 5) 3, Abandon 2 4, Begin 2 ''k'' None (from_secs 5) 5, Resume 0 6]"

lemma sample_checks_allow:
  "check_answers map_redis ''p:'' (Map.empty, Map.empty) sample_checks =
     [(''n'', Ok (Denied 1 1)), (''n'', Ok (Allowed 1 (Some 1)))]"
  by (simp add: sample_checks_def redis_incr_phase_def redis_expire_phase_def map_redis_def redis_live_def
      redis_key_def redis_decide_def saturating_sub_def)

theorem redis_replay_limit_witness:
  "uses_allowed ''n'' (check_answers map_redis ''p:'' (Map.empty, Map.empty) sample_checks) \<le> 1 \<and>
   (''n'', Ok (Allowed 1 (Some 1))) \<in> set (check_answers map_redis ''p:'' (Map.empty, Map.empty) sample_checks)"
proof
  have life: "redis_life (from_secs 5) = 5000000000"
    by (simp add: redis_life_def ttl_secs_def from_secs_def nanos_per_sec_def word_sless_alt)
  have begins: "\<forall>i mx ttl now. Begin i ''n'' mx ttl now \<in> set sample_checks \<longrightarrow> mx = Some 1 \<and> 10 < now + redis_life ttl"
    by (auto simp: sample_checks_def life)
  have times: "sorted (map event_time sample_checks)" "\<forall>e \<in> set sample_checks. event_time e \<le> 10"
    by (simp_all add: sample_checks_def)
  from redis_replay_limit [OF map_redis_laws _ times begins, of Map.empty "''p:''"]
  show "uses_allowed ''n'' (check_answers map_redis ''p:'' (Map.empty, Map.empty) sample_checks) \<le> 1"
    by simp
qed (simp add: sample_checks_allow)

text \<open>Whole seconds that fit in 63 bits are kept exactly.\<close>

lemma redis_life_from_secs:
  assumes "secs \<noteq> 0" and "unat secs < 2 ^ 63"
  shows "redis_life (from_secs secs) = from_secs secs"
proof -
  have "1 \<le> unat secs" using assms(1) by (simp add: Suc_le_eq unat_gt_0)
  then have "ttl_secs (from_secs secs) = secs"
    by (simp add: ttl_secs_def from_secs_def nanos_per_sec_def max_def)
  moreover have "0 <s secs"
  proof -
    have "int (unat secs) < int (2 ^ 63)" using assms(2) by (simp only: of_nat_less_iff)
    then have "uint secs < 2 ^ 63" by simp
    moreover have "- (2 ^ 63) \<le> uint secs" by (rule order_trans [OF _ unsigned_greater_eq]) simp
    ultimately have "signed_take_bit 63 (uint secs) = uint secs" by (intro signed_take_bit_int_eq_self)
    then have "sint secs = uint secs" by (simp add: sint_uint)
    moreover have "uint secs \<noteq> 0" using assms(1) by (simp add: unsigned_eq_0_iff)
    moreover have "0 \<le> uint secs" by (rule unsigned_greater_eq)
    ultimately show ?thesis unfolding word_sless_alt signed_0 by linarith
  qed
  ultimately show ?thesis by (simp add: redis_life_def from_secs_def)
qed

text \<open>
  Note. With the Redis store too, a token that may be used \<open>m\<close> times is admitted at most \<open>m\<close> times over
  any time-ordered run of admissions that one proxy makes.
\<close>

theorem redis_admissions_bounded:
  assumes laws: "redis_laws R view" and "ta_nonce_store self = Some store"
    and "view store (redis_key p n) = None"
    and "m \<noteq> 0" and "unat m < 2 ^ 32 - 1" and "sorted (map step_time es)"
    and "\<forall>r ck. Admit r ck \<in> set es \<longrightarrow> clocks_agree boot ck"
    and T: "unat E + unat (tolerance_seconds (ta_clock_skew self)) < 2 ^ 63"
    and "\<forall>r ck token payload. Admit r ck \<in> set es \<and> presented L self r (ck_unseal ck) = Some (token, payload) \<longrightarrow>
      (\<forall>replay. tp_replay_protection payload = Some replay \<and> rp_nonce replay = n \<longrightarrow>
         rp_max_uses replay = Some m \<and> rp_nonce_ttl_seconds replay = None \<and> tp_expires_at payload = Some E)"
  shows "admitted_uses L (redis_check_and_record R p) (\<lambda>s _. s) n self es \<le> unat m"
proof (rule nonce_store.admissions_bounded [OF redis_is_nonce_store [OF laws] assms(2) _ assms(5, 4, 6)])
  let ?D = "(unat E + unat (tolerance_seconds (ta_clock_skew self))) * nanos_per_sec - 1 - boot"
  show "redis_held view store (redis_key p n) ?D = 0" using assms(3) by (simp add: redis_held_def)
  fix r ck mx ttl
  assume r: "Admit r ck \<in> set es" "asked L self r ck = Some (n, mx, ttl)"
  have T': "unat E + unat (tolerance_seconds (ta_clock_skew self)) < 2 ^ 64" using T by simp
  have reach: "mx = Some m \<and> ck_mono ck \<le> ?D \<and> ?D < ck_mono ck + ttl"
    "\<exists>secs. ttl = from_secs secs \<and> secs \<noteq> 0 \<and> secs \<le> E + tolerance_seconds (ta_clock_skew self)"
    by (rule asked_reaches_expiry [OF r(2) _ T']; use r(1) assms(7, 9) in auto)+
  then obtain secs where s: "ttl = from_secs secs" "secs \<noteq> 0" "secs \<le> E + tolerance_seconds (ta_clock_skew self)"
    by blast
  have "unat secs < 2 ^ 63"
    using s(3) T by (simp add: word_le_nat_alt unat_add_no_overflow)
  then have "redis_life ttl = ttl" using s(1, 2) by (simp add: redis_life_from_secs)
  then show "mx = Some m \<and> ck_mono ck \<le> ?D \<and> ?D < ck_mono ck + redis_life ttl" using reach(1) by simp
qed

end
