(* ===== verification/Tls.thy ===== *)
theory Tls
  imports Auth_Validation
begin

text \<open>
  TLS, \<open>crates/icebreaker-proxy/src/tls/\<close>: the acceptor with its client authentication modes
  (\<open>acceptor.rs\<close>), what is read from a client certificate (\<open>cert_extract.rs\<close>), and interception
  (\<open>intercept.rs\<close>): loading and validating the interception CA, minting leaf certificates, and the
  bounded cache of leaves.

  Parameters: \<open>X\<close> is the certificate library (PEM and DER parsing, key generation, signing), \<open>Q\<close> the
  LRU cache, \<open>read\<close> the file system. Times are in nanoseconds. Shown: the acceptor asks for client
  certificates exactly as its mode says, a loaded CA has the key of its certificate, and every leaf
  that is served was minted for the host it is served for and stays valid for more than a day, over any
  sequence of requests, while the cache stays bounded.
\<close>

section \<open>The acceptor\<close>

datatype TlsAcceptorError =
    ReadCert string string
  | ReadKey string string
  | ParseCert string
  | ParseKey string
  | ParseClientCa string
  | ClientCaRequired ClientAuthMode
  | ClientVerifier string
  | TlsServerConfig string

fun mode_debug :: "ClientAuthMode \<Rightarrow> string" where
  "mode_debug CamNone = ''None''"
| "mode_debug CamOptional = ''Optional''"
| "mode_debug CamRequired = ''Required''"

definition quote :: "string \<Rightarrow> string" where
  "quote s = [CHR 0x27] @ s @ [CHR 0x27]"

fun acceptor_error_to_string :: "TlsAcceptorError \<Rightarrow> string" where
  "acceptor_error_to_string (ReadCert path source) =
     ''failed to read certificate file '' @ quote path @ '': '' @ source"
| "acceptor_error_to_string (ReadKey path source) =
     ''failed to read private key file '' @ quote path @ '': '' @ source"
| "acceptor_error_to_string (ParseCert path) =
     ''failed to parse certificate file '' @ quote path @ '': no valid certificates found''"
| "acceptor_error_to_string (ParseKey path) =
     ''failed to parse private key file '' @ quote path @ '': no valid private key found''"
| "acceptor_error_to_string (ParseClientCa path) =
     ''failed to parse client CA file '' @ quote path @ '': no valid certificates found''"
| "acceptor_error_to_string (ClientCaRequired mode) =
     ''client CA path required for client authentication mode '' @ quote (mode_debug mode)"
| "acceptor_error_to_string (ClientVerifier msg) =
     ''failed to create client certificate verifier: '' @ msg"
| "acceptor_error_to_string (TlsServerConfig msg) =
     ''failed to create TLS server config: '' @ msg"

fun acceptor_error_source :: "TlsAcceptorError \<Rightarrow> string option" where
  "acceptor_error_source (ReadCert _ source) = Some source"
| "acceptor_error_source (ReadKey _ source) = Some source"
| "acceptor_error_source _ = None"

text \<open>The calls into rustls. A certificate is its DER bytes; a root store is the list of its CAs.\<close>

record rustls_lib =
  pem_certs :: "bytes \<Rightarrow> (string, bytes) result list"
  pem_key :: "bytes \<Rightarrow> (string, bytes) result"
  root_add :: "bytes list \<Rightarrow> bytes \<Rightarrow> (string, bytes list) result"
  build_verifier :: "bytes list \<Rightarrow> bool \<Rightarrow> (string, unit) result"
  single_cert :: "bytes list \<Rightarrow> bytes \<Rightarrow> (string, unit) result"

text \<open>What the handshake demands of the client: nothing, or a certificate under the roots, unless it may be left out.\<close>

datatype client_check = NoClientAuth | VerifyClient "bytes list" bool

record tls_acceptor =
  acc_certs :: "bytes list"
  acc_key :: bytes
  acc_client :: client_check

fun add_roots :: "rustls_lib \<Rightarrow> bytes list \<Rightarrow> bytes list \<Rightarrow> (TlsAcceptorError, bytes list) result" where
  "add_roots R roots [] = Ok roots"
| "add_roots R roots (cert # certs) =
     bindR (map_err (\<lambda>e. ClientVerifier (''failed to add CA cert: '' @ e)) (root_add R roots cert))
       (\<lambda>roots. add_roots R roots certs)"

definition valid_certs :: "rustls_lib \<Rightarrow> bytes \<Rightarrow> bytes list" where
  "valid_certs R b = List.map_filter ok (pem_certs R b)"

definition create_tls_acceptor :: "rustls_lib \<Rightarrow> (string \<Rightarrow> (string, bytes) result) \<Rightarrow> TlsConfig \<Rightarrow>
    (TlsAcceptorError, tls_acceptor) result" where
  "create_tls_acceptor R read config =
     bindR (map_err (ReadCert (cert_path config)) (read (cert_path config))) (\<lambda>cert_bytes.
     let certs = valid_certs R cert_bytes in
     if certs = [] then Err (ParseCert (cert_path config))
     else
     bindR (map_err (ReadKey (key_path config)) (read (key_path config))) (\<lambda>key_bytes.
     bindR (map_err (\<lambda>_. ParseKey (key_path config)) (pem_key R key_bytes)) (\<lambda>key.
     case client_auth config of
       CamNone \<Rightarrow>
         bindR (map_err TlsServerConfig (single_cert R certs key)) (\<lambda>_.
         Ok \<lparr>acc_certs = certs, acc_key = key, acc_client = NoClientAuth\<rparr>)
     | _ \<Rightarrow>
         bindR (ok_or (client_ca_path config) (ClientCaRequired (client_auth config))) (\<lambda>client_ca_path.
         bindR (map_err (ReadCert client_ca_path) (read client_ca_path)) (\<lambda>ca_bytes.
         let client_certs = valid_certs R ca_bytes in
         if client_certs = [] then Err (ParseClientCa client_ca_path)
         else
         bindR (add_roots R [] client_certs) (\<lambda>root_store.
         let optional = (client_auth config \<noteq> CamRequired) in
         bindR (map_err ClientVerifier (build_verifier R root_store optional)) (\<lambda>_.
         bindR (map_err TlsServerConfig (single_cert R certs key)) (\<lambda>_.
         Ok \<lparr>acc_certs = certs, acc_key = key, acc_client = VerifyClient root_store optional\<rparr>))))))))"

section \<open>Client certificates\<close>

definition compute_cert_fingerprint :: "crypto_lib \<Rightarrow> bytes \<Rightarrow> string" where
  "compute_cert_fingerprint C cert_der = ''sha256:'' @ hex_encode C (sha256 C cert_der)"

text \<open>\<open>from_der\<close> parses a certificate and \<open>subject\<close> renders the subject of a parsed one.\<close>

definition parse_subject_dn :: "(bytes \<Rightarrow> (string, 'x) result) \<Rightarrow> ('x \<Rightarrow> string) \<Rightarrow> bytes \<Rightarrow> string option" where
  "parse_subject_dn from_der subject cert_der =
     (case ok (from_der cert_der) of None \<Rightarrow> None | Some cert \<Rightarrow> Some (subject cert))"

definition extract_client_cert_info :: "crypto_lib \<Rightarrow> (bytes \<Rightarrow> (string, 'x) result) \<Rightarrow> ('x \<Rightarrow> string) \<Rightarrow>
    bytes list option \<Rightarrow> TlsConnectionInfo option" where
  "extract_client_cert_info C from_der subject peer_certificates =
     (case peer_certificates of
        None \<Rightarrow> None
      | Some [] \<Rightarrow> None
      | Some (first_cert # _) \<Rightarrow>
          (let fingerprint = compute_cert_fingerprint C first_cert;
               dn = parse_subject_dn from_der subject first_cert
           in Some (with_subject_dn (with_fingerprint fingerprint) (case dn of Some d \<Rightarrow> d | None \<Rightarrow> []))))"

section \<open>The interception CA\<close>

datatype InterceptError =
    InterceptRead string string string
  | InterceptParseKey string
  | InterceptParseCert string
  | InterceptIssuer string
  | NotCa
  | KeyMismatch
  | InterceptLeaf string string

fun intercept_error_to_string :: "InterceptError \<Rightarrow> string" where
  "intercept_error_to_string (InterceptRead what path source) =
     ''failed to read '' @ what @ '' from '' @ path @ '': '' @ source"
| "intercept_error_to_string (InterceptParseKey e) = ''failed to parse interception CA key: '' @ e"
| "intercept_error_to_string (InterceptParseCert e) = ''failed to parse interception CA certificate: '' @ e"
| "intercept_error_to_string (InterceptIssuer e) = ''failed to prepare interception CA for signing: '' @ e"
| "intercept_error_to_string NotCa =
     ''interception certificate is not a CA: basicConstraints CA:TRUE is required''"
| "intercept_error_to_string KeyMismatch = ''interception CA key does not match the certificate''"
| "intercept_error_to_string (InterceptLeaf host reason) =
     ''failed to mint leaf certificate for '' @ host @ '': '' @ reason"

definition nanos_per_day :: int where
  "nanos_per_day = 24 * 60 * 60 * 1000000000"

definition LEAF_VALIDITY_DAYS :: int where "LEAF_VALIDITY_DAYS = 30"
definition LEAF_RENEW_MARGIN_DAYS :: int where "LEAF_RENEW_MARGIN_DAYS = 1"
definition LEAF_BACKDATE :: int where "LEAF_BACKDATE = 60 * 60 * 1000000000"
definition MAX_CACHED_LEAVES :: nat where "MAX_CACHED_LEAVES = 1024"
definition CA_SELF_CHECK_HOST :: string where "CA_SELF_CHECK_HOST = ''ca-self-check.invalid''"

datatype KeyUsagePurpose = DigitalSignature | KeyEncipherment
datatype ExtendedKeyUsagePurpose = ServerAuth

text \<open>The parameters \<open>mint_leaf\<close> sets on a certificate.\<close>

record leaf_params =
  lp_is_ca :: bool
  lp_common_name :: string
  lp_subject_alt_names :: "string list"
  lp_key_usages :: "KeyUsagePurpose list"
  lp_extended_key_usages :: "ExtendedKeyUsagePurpose list"
  lp_not_before :: int
  lp_not_after :: int

text \<open>
  The certificate library: \<open>'k\<close> is a key pair, \<open>'i\<close> a certificate prepared as issuer, \<open>'x\<close> a parsed
  certificate, \<open>'s\<close> a signing key. \<open>'g\<close> is the random source a key is generated from.
\<close>

record ('k, 'i, 'x, 's, 'g) cert_lib =
  key_from_pem :: "string \<Rightarrow> (string, 'k) result"
  ca_issuer :: "string \<Rightarrow> (string, 'k \<Rightarrow> (string, 'i) result) result"
  ca_pem_certs :: "string \<Rightarrow> (string, bytes) result list"
  parse_der :: "bytes \<Rightarrow> (string, 'x) result"
  is_ca_cert :: "'x \<Rightarrow> (string, bool option) result"
  verify_signed_by :: "'x \<Rightarrow> 'x \<Rightarrow> bool"
  dns_name :: "string \<Rightarrow> string option"
  generate_key :: "'g \<Rightarrow> (string, 'k) result"
  sign_leaf :: "leaf_params \<Rightarrow> 'k \<Rightarrow> 'i \<Rightarrow> 'k \<Rightarrow> (string, bytes) result"
  signing_key :: "'k \<Rightarrow> (string, 's) result"

record ('k, 'i) InterceptCa =
  ica_key :: 'k
  ica_issuer :: 'i
  ica_chain_der :: bytes

text \<open>\<open>CertifiedKey\<close>: the chain that is served, and the key that signs for it.\<close>

record 's CertifiedKey =
  crt_chain :: "bytes list"
  crt_key :: 's

definition leaf_params_for :: "string \<Rightarrow> string \<Rightarrow> int \<Rightarrow> int \<Rightarrow> leaf_params" where
  "leaf_params_for host dns now not_after =
     \<lparr>lp_is_ca = False, lp_common_name = host, lp_subject_alt_names = [dns],
      lp_key_usages = [DigitalSignature, KeyEncipherment], lp_extended_key_usages = [ServerAuth],
      lp_not_before = now - LEAF_BACKDATE, lp_not_after = not_after\<rparr>"

definition mint_leaf :: "('k, 'i, 'x, 's, 'g) cert_lib \<Rightarrow> ('k, 'i) InterceptCa \<Rightarrow> string \<Rightarrow> 'g \<Rightarrow> int \<Rightarrow>
    (InterceptError, 's CertifiedKey \<times> int) result" where
  "mint_leaf X self host rng now =
     bindR (ok_or (dns_name X host) (InterceptLeaf host (''invalid DNS name: '' @ host))) (\<lambda>dns_name.
     let not_after = now + LEAF_VALIDITY_DAYS * nanos_per_day;
         params = leaf_params_for host dns_name now not_after
     in
     bindR (map_err (InterceptLeaf host) (generate_key X rng)) (\<lambda>leaf_key.
     bindR (map_err (InterceptLeaf host) (sign_leaf X params leaf_key (ica_issuer self) (ica_key self))) (\<lambda>leaf_der.
     bindR (map_err (\<lambda>e. InterceptLeaf host (''unsupported leaf key: '' @ e)) (signing_key X leaf_key)) (\<lambda>key.
     Ok (\<lparr>crt_chain = [leaf_der, ica_chain_der self], crt_key = key\<rparr>, not_after)))))"

definition ca_validate :: "('k, 'i, 'x, 's, 'g) cert_lib \<Rightarrow> ('k, 'i) InterceptCa \<Rightarrow> 'g \<Rightarrow> int \<Rightarrow>
    (InterceptError, unit) result" where
  "ca_validate X self rng now =
     bindR (map_err (\<lambda>e. InterceptParseCert (''failed to parse CA certificate: '' @ e))
              (parse_der X (ica_chain_der self))) (\<lambda>ca_cert.
     case is_ca_cert X ca_cert of
       Inl e \<Rightarrow> Err (InterceptParseCert (''failed to read basicConstraints: '' @ e))
     | Inr flag \<Rightarrow>
         if flag \<noteq> Some True then Err NotCa
         else
         bindR (mint_leaf X self CA_SELF_CHECK_HOST rng now) (\<lambda>(probe, _).
         case crt_chain probe of
           [] \<Rightarrow> Err (InterceptIssuer ''minted probe leaf has an empty chain'')
         | leaf_der # _ \<Rightarrow>
             bindR (map_err (\<lambda>e. InterceptIssuer (''failed to parse probe leaf certificate: '' @ e))
                      (parse_der X leaf_der)) (\<lambda>leaf_cert.
             if verify_signed_by X leaf_cert ca_cert then Ok () else Err KeyMismatch)))"

definition ca_load :: "('k, 'i, 'x, 's, 'g) cert_lib \<Rightarrow> string \<Rightarrow> string \<Rightarrow> 'g \<Rightarrow> int \<Rightarrow>
    (InterceptError, ('k, 'i) InterceptCa) result" where
  "ca_load X cert_pem key_pem rng now =
     bindR (map_err InterceptParseKey (key_from_pem X key_pem)) (\<lambda>key.
     bindR (map_err InterceptParseCert (ca_issuer X cert_pem)) (\<lambda>self_signed.
     bindR (map_err InterceptIssuer (self_signed key)) (\<lambda>issuer.
     bindR (ok_or (case ca_pem_certs X cert_pem of [] \<Rightarrow> None | first # _ \<Rightarrow> ok first)
              (InterceptParseCert ''no certificate found in CA PEM'')) (\<lambda>chain_der.
     let ca = \<lparr>ica_key = key, ica_issuer = issuer, ica_chain_der = chain_der\<rparr> in
     bindR (ca_validate X ca rng now) (\<lambda>_. Ok ca)))))"

section \<open>The cache of leaves\<close>

record 's CachedLeaf =
  cl_key :: "'s CertifiedKey"
  cl_not_after :: int

text \<open>
  The LRU cache: a lookup may change the order of use, an insertion may evict. \<open>lru_view\<close> is what it
  holds; an insertion keeps the new entry and adds no other, and the number of entries stays within
  the capacity the cache was made with.
\<close>

record ('q, 's) lru_lib =
  lru_new :: "nat \<Rightarrow> 'q"
  lru_get :: "'q \<Rightarrow> string \<Rightarrow> 's CachedLeaf option \<times> 'q"
  lru_put :: "'q \<Rightarrow> string \<Rightarrow> 's CachedLeaf \<Rightarrow> 'q"

definition lru_laws :: "('q, 's) lru_lib \<Rightarrow> ('q \<Rightarrow> string \<rightharpoonup> 's CachedLeaf) \<Rightarrow> ('q \<Rightarrow> nat) \<Rightarrow> bool" where
  "lru_laws Q lru_view cap \<longleftrightarrow>
     (\<forall>n. lru_view (lru_new Q n) = Map.empty \<and> cap (lru_new Q n) = n) \<and>
     (\<forall>q k. fst (lru_get Q q k) = lru_view q k \<and> lru_view (snd (lru_get Q q k)) = lru_view q \<and>
        cap (snd (lru_get Q q k)) = cap q) \<and>
     (\<forall>q k v. cap q > 0 \<longrightarrow> lru_view (lru_put Q q k v) k = Some v \<and>
        (\<forall>k'. k' \<noteq> k \<longrightarrow> lru_view (lru_put Q q k v) k' \<in> {None, lru_view q k'}) \<and>
        cap (lru_put Q q k v) = cap q) \<and>
     (\<forall>q k v. finite (dom (lru_view q)) \<and> card (dom (lru_view q)) \<le> cap q \<and> cap q > 0 \<longrightarrow>
        finite (dom (lru_view (lru_put Q q k v))) \<and> card (dom (lru_view (lru_put Q q k v))) \<le> cap q)"

text \<open>The mutex around the cache is poisoned when a holder panicked; the cache is then left alone.\<close>

record ('k, 'i, 'q) DynamicCertResolver =
  dcr_ca :: "('k, 'i) InterceptCa"
  dcr_cache :: 'q
  dcr_poisoned :: bool

definition from_pem :: "('k, 'i, 'x, 's, 'g) cert_lib \<Rightarrow> ('q, 's) lru_lib \<Rightarrow> string \<Rightarrow> string \<Rightarrow> 'g \<Rightarrow> int \<Rightarrow>
    (InterceptError, ('k, 'i, 'q) DynamicCertResolver) result" where
  "from_pem X Q cert_pem key_pem rng now =
     bindR (ca_load X cert_pem key_pem rng now) (\<lambda>ca.
     Ok \<lparr>dcr_ca = ca, dcr_cache = lru_new Q MAX_CACHED_LEAVES, dcr_poisoned = False\<rparr>)"

definition from_pem_files :: "('k, 'i, 'x, 's, 'g) cert_lib \<Rightarrow> ('q, 's) lru_lib \<Rightarrow>
    (string \<Rightarrow> (string, string) result) \<Rightarrow> string \<Rightarrow> string \<Rightarrow> 'g \<Rightarrow> int \<Rightarrow>
    (InterceptError, ('k, 'i, 'q) DynamicCertResolver) result" where
  "from_pem_files X Q read cert_file key_file rng now =
     bindR (map_err (InterceptRead ''interception CA certificate'' cert_file) (read cert_file)) (\<lambda>cert_pem.
     bindR (map_err (InterceptRead ''interception CA key'' key_file) (read key_file)) (\<lambda>key_pem.
     from_pem X Q cert_pem key_pem rng now))"

text \<open>The clock is read at the start and again when a leaf is minted.\<close>

definition leaf_for :: "('k, 'i, 'x, 's, 'g) cert_lib \<Rightarrow> ('q, 's) lru_lib \<Rightarrow> ('k, 'i, 'q) DynamicCertResolver \<Rightarrow>
    string \<Rightarrow> 'g \<Rightarrow> int \<Rightarrow> int \<Rightarrow> 's CertifiedKey option \<times> ('k, 'i, 'q) DynamicCertResolver" where
  "leaf_for X Q self host rng now mint_now =
     (let renew_margin = LEAF_RENEW_MARGIN_DAYS * nanos_per_day;
          (entry, cache) = (if dcr_poisoned self then (None, dcr_cache self) else lru_get Q (dcr_cache self) host);
          self = self\<lparr>dcr_cache := cache\<rparr>;
          hit = (case entry of
                   Some e \<Rightarrow> if cl_not_after e - now > renew_margin then Some (cl_key e) else None
                 | None \<Rightarrow> None)
      in case hit of
        Some key \<Rightarrow> (Some key, self)
      | None \<Rightarrow>
          (case mint_leaf X (dcr_ca self) host rng mint_now of
             Inl e \<Rightarrow> (None, self)
           | Inr (certified, not_after) \<Rightarrow>
               (Some certified,
                if dcr_poisoned self then self
                else self\<lparr>dcr_cache := lru_put Q (dcr_cache self) host
                       \<lparr>cl_key = certified, cl_not_after = not_after\<rparr>\<rparr>)))"

text \<open>An intercepting acceptor: the key it serves whatever name the client asks for, and its protocols.\<close>

record 's intercept_acceptor =
  ia_key :: "'s CertifiedKey"
  ia_client_auth :: bool
  ia_alpn :: "string list"

definition fixed_resolve :: "'s intercept_acceptor \<Rightarrow> string option \<Rightarrow> 's CertifiedKey option" where
  "fixed_resolve a server_name = Some (ia_key a)"

definition build_acceptor :: "'s CertifiedKey \<Rightarrow> 's intercept_acceptor" where
  "build_acceptor key = \<lparr>ia_key = key, ia_client_auth = False, ia_alpn = [''http/1.1'']\<rparr>"

definition acceptor_for :: "('k, 'i, 'x, 's, 'g) cert_lib \<Rightarrow> ('q, 's) lru_lib \<Rightarrow> ('k, 'i, 'q) DynamicCertResolver \<Rightarrow>
    string \<Rightarrow> 'g \<Rightarrow> int \<Rightarrow> int \<Rightarrow> 's intercept_acceptor option \<times> ('k, 'i, 'q) DynamicCertResolver" where
  "acceptor_for X Q self host rng now mint_now =
     (case leaf_for X Q self host rng now mint_now of (key, self') \<Rightarrow> (map_option build_acceptor key, self'))"

section \<open>The acceptor and the certificate it reads\<close>

text \<open>
  Note. The acceptor demands of a client what its mode says: nothing in mode None, a
  certificate under the CAs of the client CA file in the other modes, which the client may leave out
  exactly in mode Optional; it serves the certificates of the certificate file.
\<close>

theorem acceptor_mode:
  assumes "create_tls_acceptor R read config = Ok a"
  shows "\<exists>cert_bytes. read (cert_path config) = Ok cert_bytes \<and> acc_certs a = valid_certs R cert_bytes \<and>
       acc_certs a \<noteq> []"
    and "client_auth config = CamNone \<longleftrightarrow> acc_client a = NoClientAuth"
    and "client_auth config \<noteq> CamNone \<Longrightarrow>
       \<exists>p ca roots. client_ca_path config = Some p \<and> read p = Ok ca \<and> valid_certs R ca \<noteq> [] \<and>
         add_roots R [] (valid_certs R ca) = Ok roots \<and>
         acc_client a = VerifyClient roots (client_auth config = CamOptional)"
  using assms
  by (cases "client_auth config"; cases "client_ca_path config";
      auto simp: create_tls_acceptor_def Let_def split: if_splits)+

text \<open>
  Note. A client passes mutual TLS with the certificate a token names by fingerprint only: when
  SHA-256 has no collision on the two and hexadecimal text is decodable, two clients that pass
  presented the same first certificate.
\<close>

theorem mtls_binds_certificate:
  assumes hex: "hex_laws C" and no_collision: "\<And>c d. sha256 C c = sha256 C d \<Longrightarrow> c = d"
    and "validate_mtls rx config (extract_client_cert_info C from_der subject certs) = Ok ()"
    and "validate_mtls rx config (extract_client_cert_info C from_der subject certs') = Ok ()"
  shows "\<exists>cert rest rest'. certs = Some (cert # rest) \<and> certs' = Some (cert # rest') \<and>
           mt_cert_fingerprint config = ''sha256:'' @ hex_encode C (sha256 C cert)"
proof -
  have passed: "\<exists>cert rest. cs = Some (cert # rest) \<and>
      mt_cert_fingerprint config = ''sha256:'' @ hex_encode C (sha256 C cert)"
    if "validate_mtls rx config (extract_client_cert_info C from_der subject cs) = Ok ()" for cs
    using that
    by (auto simp: validate_mtls_Ok_iff extract_client_cert_info_def compute_cert_fingerprint_def
        with_subject_dn_def with_fingerprint_def split: option.splits list.splits)
  have hex_inj: "hex_encode C a = hex_encode C b \<Longrightarrow> a = b" for a b
    using hex by (metis hex_laws_def sum.inject(2))
  show ?thesis
    using passed[OF assms(3)] passed[OF assms(4)] hex_inj no_collision by fastforce
qed

section \<open>What is minted\<close>

text \<open>
  What a served chain must be: a certificate signed by the loaded CA for this host and no other name,
  with the key that signs for it, followed by the CA certificate.
\<close>

definition leaf_spec :: "('k, 'i, 'x, 's, 'g) cert_lib \<Rightarrow> ('k, 'i) InterceptCa \<Rightarrow> string \<Rightarrow> 's CertifiedKey \<Rightarrow>
    leaf_params \<Rightarrow> bool" where
  "leaf_spec X ca host key p \<longleftrightarrow>
     (\<exists>dns leaf_key leaf_der. dns_name X host = Some dns \<and>
        lp_subject_alt_names p = [dns] \<and> lp_common_name p = host \<and> \<not> lp_is_ca p \<and>
        lp_extended_key_usages p = [ServerAuth] \<and>
        sign_leaf X p leaf_key (ica_issuer ca) (ica_key ca) = Ok leaf_der \<and>
        signing_key X leaf_key = Ok (crt_key key) \<and>
        crt_chain key = [leaf_der, ica_chain_der ca])"

lemma mint_leaf_spec:
  assumes "mint_leaf X ca host rng now = Ok (key, not_after)"
  shows "\<exists>p. leaf_spec X ca host key p \<and> lp_not_before p = now - LEAF_BACKDATE \<and> lp_not_after p = not_after \<and>
     not_after = now + LEAF_VALIDITY_DAYS * nanos_per_day"
proof -
  obtain dns leaf_key leaf_der k where "dns_name X host = Some dns"
      "sign_leaf X (leaf_params_for host dns now not_after) leaf_key (ica_issuer ca) (ica_key ca) = Ok leaf_der"
      "signing_key X leaf_key = Ok k" "key = \<lparr>crt_chain = [leaf_der, ica_chain_der ca], crt_key = k\<rparr>"
      "not_after = now + LEAF_VALIDITY_DAYS * nanos_per_day"
    using assms by (auto simp: mint_leaf_def Let_def)
  then show ?thesis
    by (intro exI[of _ "leaf_params_for host dns now not_after"]) (auto simp: leaf_spec_def leaf_params_for_def)
qed

section \<open>The interception CA that loads\<close>

lemma ca_validate_Ok:
  assumes "ca_validate X ca rng now = Ok ()"
  obtains ca_cert probe t leaf_der rest leaf_cert where
    "parse_der X (ica_chain_der ca) = Ok ca_cert" "is_ca_cert X ca_cert = Ok (Some True)"
    "mint_leaf X ca CA_SELF_CHECK_HOST rng now = Ok (probe, t)" "crt_chain probe = leaf_der # rest"
    "parse_der X leaf_der = Ok leaf_cert" "verify_signed_by X leaf_cert ca_cert"
proof -
  from assms obtain ca_cert where ca: "parse_der X (ica_chain_der ca) = Ok ca_cert"
    by (auto simp: ca_validate_def)
  with assms have flag: "is_ca_cert X ca_cert = Ok (Some True)"
    by (cases "is_ca_cert X ca_cert") (auto simp: ca_validate_def split: if_splits)
  with assms ca obtain probe t where minted: "mint_leaf X ca CA_SELF_CHECK_HOST rng now = Ok (probe, t)"
    by (cases "mint_leaf X ca CA_SELF_CHECK_HOST rng now") (auto simp: ca_validate_def)
  with assms ca flag obtain leaf_der rest where chain: "crt_chain probe = leaf_der # rest"
    by (cases "crt_chain probe") (simp_all add: ca_validate_def)
  with assms ca flag minted obtain leaf_cert where "parse_der X leaf_der = Ok leaf_cert"
    by (cases "parse_der X leaf_der") (simp_all add: ca_validate_def)
  with assms ca flag minted chain show thesis
    by (intro that) (simp_all add: ca_validate_def split: if_splits)
qed

text \<open>
  Note. A CA that loads is marked as a CA, and a leaf signed with the loaded key verifies against
  the loaded certificate, which is the first one of the file.
\<close>

theorem loaded_ca_signs:
  assumes "ca_load X cert_pem key_pem rng now = Ok ca"
  shows "\<exists>ca_cert leaf_der leaf_cert k params.
     parse_der X (ica_chain_der ca) = Ok ca_cert \<and> is_ca_cert X ca_cert = Ok (Some True) \<and>
     sign_leaf X params k (ica_issuer ca) (ica_key ca) = Ok leaf_der \<and>
     parse_der X leaf_der = Ok leaf_cert \<and> verify_signed_by X leaf_cert ca_cert \<and>
     (\<exists>rest. ca_pem_certs X cert_pem = Ok (ica_chain_der ca) # rest)"
proof -
  have valid: "ca_validate X ca rng now = Ok ()"
    and first: "\<exists>rest. ca_pem_certs X cert_pem = Ok (ica_chain_der ca) # rest"
    using assms by (auto simp: ca_load_def Let_def split: list.splits)
  from valid obtain ca_cert probe t leaf_der rest leaf_cert where checked:
      "parse_der X (ica_chain_der ca) = Ok ca_cert" "is_ca_cert X ca_cert = Ok (Some True)"
      "mint_leaf X ca CA_SELF_CHECK_HOST rng now = Ok (probe, t)" "crt_chain probe = leaf_der # rest"
      "parse_der X leaf_der = Ok leaf_cert" "verify_signed_by X leaf_cert ca_cert"
    by (rule ca_validate_Ok)
  have "\<exists>k p. sign_leaf X p k (ica_issuer ca) (ica_key ca) = Ok leaf_der"
    using mint_leaf_spec[OF checked(3)] checked(4) by (auto simp: leaf_spec_def)
  with checked first show ?thesis by blast
qed

text \<open>What a key pair that fails the checks is answered with.\<close>

lemma ca_validate_rejects:
  assumes "parse_der X (ica_chain_der ca) = Ok ca_cert"
  shows "is_ca_cert X ca_cert = Ok None \<or> is_ca_cert X ca_cert = Ok (Some False) \<Longrightarrow>
      ca_validate X ca rng now = Err NotCa"
    and "\<lbrakk>is_ca_cert X ca_cert = Ok (Some True); mint_leaf X ca CA_SELF_CHECK_HOST rng now = Ok (probe, t);
      crt_chain probe = leaf_der # rest; parse_der X leaf_der = Ok leaf_cert;
      \<not> verify_signed_by X leaf_cert ca_cert\<rbrakk> \<Longrightarrow> ca_validate X ca rng now = Err KeyMismatch"
  using assms by (auto simp: ca_validate_def)

section \<open>The leaves that are served\<close>

text \<open>The cache holds leaves minted at or before \<open>now\<close>, with the expiry they carry, and keeps its bound.\<close>

definition resolver_inv :: "('k, 'i, 'x, 's, 'g) cert_lib \<Rightarrow> ('q \<Rightarrow> string \<rightharpoonup> 's CachedLeaf) \<Rightarrow> ('q \<Rightarrow> nat) \<Rightarrow>
    ('k, 'i, 'q) DynamicCertResolver \<Rightarrow> int \<Rightarrow> bool" where
  "resolver_inv X lru_view cap r now \<longleftrightarrow>
     (\<forall>host e. lru_view (dcr_cache r) host = Some e \<longrightarrow>
        (\<exists>p. leaf_spec X (dcr_ca r) host (cl_key e) p \<and> lp_not_after p = cl_not_after e \<and>
           lp_not_before p \<le> now - LEAF_BACKDATE)) \<and>
     cap (dcr_cache r) = MAX_CACHED_LEAVES \<and> finite (dom (lru_view (dcr_cache r))) \<and>
     card (dom (lru_view (dcr_cache r))) \<le> MAX_CACHED_LEAVES"

lemma resolver_inv_mono: "resolver_inv X v cap r now \<Longrightarrow> now \<le> now' \<Longrightarrow> resolver_inv X v cap r now'"
  unfolding resolver_inv_def by fastforce

lemma from_pem_inv:
  assumes "lru_laws Q v cap" "from_pem X Q cert_pem key_pem rng now = Ok r"
  shows "resolver_inv X v cap r now'"
  using assms by (auto simp: from_pem_def lru_laws_def resolver_inv_def)

lemma lru_lawsD:
  assumes "lru_laws Q v cap"
  shows "v (lru_new Q n) = Map.empty" "cap (lru_new Q n) = n"
    "fst (lru_get Q q k) = v q k" "v (snd (lru_get Q q k)) = v q" "cap (snd (lru_get Q q k)) = cap q"
    "cap q > 0 \<Longrightarrow> v (lru_put Q q k x) k = Some x"
    "cap q > 0 \<Longrightarrow> k' \<noteq> k \<Longrightarrow> v (lru_put Q q k x) k' \<in> {None, v q k'}"
    "cap q > 0 \<Longrightarrow> cap (lru_put Q q k x) = cap q"
    "\<lbrakk>cap q > 0; finite (dom (v q)); card (dom (v q)) \<le> cap q\<rbrakk> \<Longrightarrow>
       finite (dom (v (lru_put Q q k x))) \<and> card (dom (v (lru_put Q q k x))) \<le> cap q"
  using assms unfolding lru_laws_def by blast+

lemma resolver_inv_get:
  assumes "lru_laws Q v cap" "resolver_inv X v cap r now"
  shows "resolver_inv X v cap (r\<lparr>dcr_cache := snd (lru_get Q (dcr_cache r) host)\<rparr>) now"
  using assms(2) by (simp add: resolver_inv_def lru_lawsD[OF assms(1)])

lemma resolver_inv_put:
  assumes laws: "lru_laws Q v cap" and inv: "resolver_inv X v cap r now"
    and minted: "mint_leaf X (dcr_ca r) host rng now = Ok (key, not_after)"
  shows "resolver_inv X v cap (r\<lparr>dcr_cache := lru_put Q (dcr_cache r) host
           \<lparr>cl_key = key, cl_not_after = not_after\<rparr>\<rparr>) now"
proof -
  let ?q = "dcr_cache r" let ?e = "\<lparr>cl_key = key, cl_not_after = not_after\<rparr>"
  have cap: "cap ?q = MAX_CACHED_LEAVES" "cap ?q > 0"
    using inv by (auto simp: resolver_inv_def MAX_CACHED_LEAVES_def)
  have "\<exists>p. leaf_spec X (dcr_ca r) host' (cl_key e) p \<and> lp_not_after p = cl_not_after e \<and>
          lp_not_before p \<le> now - LEAF_BACKDATE"
    if stored: "v (lru_put Q ?q host ?e) host' = Some e" for host' e
  proof (cases "host' = host")
    case True
    then show ?thesis
      using stored mint_leaf_spec[OF minted] lru_lawsD(6)[OF laws cap(2), of host ?e] by auto
  next
    case False
    then have "v ?q host' = Some e"
      using stored lru_lawsD(7)[OF laws cap(2) False, of ?e] by auto
    then show ?thesis using inv by (auto simp: resolver_inv_def)
  qed
  then show ?thesis
    using inv cap lru_lawsD(8,9)[OF laws, of ?q host ?e] by (auto simp: resolver_inv_def)
qed

text \<open>One request: what is served satisfies the specification, and the invariant holds at the end.\<close>

lemma leaf_for_step:
  assumes laws: "lru_laws Q v cap" and inv: "resolver_inv X v cap r now" and clock: "now \<le> mint_now"
    and step: "leaf_for X Q r host rng now mint_now = (served, r')"
  shows "resolver_inv X v cap r' mint_now \<and> dcr_ca r' = dcr_ca r \<and>
     (\<forall>key. served = Some key \<longrightarrow>
        (\<exists>p. leaf_spec X (dcr_ca r) host key p \<and> lp_not_before p \<le> mint_now - LEAF_BACKDATE \<and>
           now + LEAF_RENEW_MARGIN_DAYS * nanos_per_day < lp_not_after p))"
proof -
  let ?get = "if dcr_poisoned r then (None, dcr_cache r) else lru_get Q (dcr_cache r) host"
  let ?r = "r\<lparr>dcr_cache := snd ?get\<rparr>"
  let ?fresh = "\<lambda>e. cl_not_after e - now > LEAF_RENEW_MARGIN_DAYS * nanos_per_day"
  have inv1: "resolver_inv X v cap ?r mint_now"
    using resolver_inv_get[OF laws inv] inv clock by (auto intro: resolver_inv_mono)
  have entry: "fst ?get = Some e \<Longrightarrow> v (dcr_cache r) host = Some e" for e
    using lru_lawsD(3)[OF laws] by (auto split: if_splits)
  show ?thesis
  proof (cases "\<exists>e. fst ?get = Some e \<and> ?fresh e")
    case True
    then obtain e where e: "fst ?get = Some e" "?fresh e" by blast
    then have "served = Some (cl_key e)" "r' = ?r"
      using step by (auto simp: leaf_for_def split_beta Let_def)
    moreover obtain p where "leaf_spec X (dcr_ca r) host (cl_key e) p" "lp_not_after p = cl_not_after e"
        "lp_not_before p \<le> now - LEAF_BACKDATE"
      using inv entry[OF e(1)] by (auto simp: resolver_inv_def)
    ultimately show ?thesis using inv1 e(2) clock by (auto intro!: exI[of _ p])
  next
    case False
    then have miss: "(case fst ?get of Some e \<Rightarrow> if ?fresh e then Some (cl_key e) else None | None \<Rightarrow> None) = None"
      by (auto split: option.splits)
    show ?thesis
    proof (cases "mint_leaf X (dcr_ca r) host rng mint_now")
      case (Inl err)
      with step miss have "served = None" "r' = ?r" by (auto simp: leaf_for_def split_beta Let_def)
      with inv1 show ?thesis by simp
    next
      case (Inr minted)
      obtain key not_after where kn: "minted = (key, not_after)" by force
      have "served = Some key" and r': "r' = (if dcr_poisoned r then ?r else ?r\<lparr>dcr_cache := lru_put Q (dcr_cache ?r) host
          \<lparr>cl_key = key, cl_not_after = not_after\<rparr>\<rparr>)"
        using step miss Inr kn by (auto simp: leaf_for_def split_beta Let_def)
      moreover have "resolver_inv X v cap r' mint_now"
        using resolver_inv_put[OF laws inv1, of host rng key not_after] inv1 Inr kn unfolding r'
        by (cases "dcr_poisoned r") simp_all
      moreover obtain p where "leaf_spec X (dcr_ca r) host key p" "lp_not_before p = mint_now - LEAF_BACKDATE"
          "lp_not_after p = mint_now + LEAF_VALIDITY_DAYS * nanos_per_day"
        using mint_leaf_spec[of X "dcr_ca r" host rng mint_now key not_after] Inr kn by auto
      ultimately show ?thesis
        using clock by (auto simp: LEAF_VALIDITY_DAYS_def LEAF_RENEW_MARGIN_DAYS_def nanos_per_day_def intro!: exI[of _ p])
    qed
  qed
qed

text \<open>A run of intercepted connections: each with its host, its randomness and the two readings of the clock.\<close>

fun serve_run :: "('k, 'i, 'x, 's, 'g) cert_lib \<Rightarrow> ('q, 's) lru_lib \<Rightarrow> ('k, 'i, 'q) DynamicCertResolver \<Rightarrow>
    (string \<times> 'g \<times> int \<times> int) list \<Rightarrow> 's intercept_acceptor option list \<times> ('k, 'i, 'q) DynamicCertResolver" where
  "serve_run X Q r [] = ([], r)"
| "serve_run X Q r ((host, rng, now, mint_now) # reqs) =
     (let (a, r) = acceptor_for X Q r host rng now mint_now;
          (as, r) = serve_run X Q r reqs
      in (a # as, r))"

fun clock_ok :: "int \<Rightarrow> (string \<times> 'g \<times> int \<times> int) list \<Rightarrow> bool" where
  "clock_ok t [] = True"
| "clock_ok t ((host, rng, now, mint_now) # reqs) = (t \<le> now \<and> now \<le> mint_now \<and> clock_ok mint_now reqs)"

definition served_ok :: "('k, 'i, 'x, 's, 'g) cert_lib \<Rightarrow> ('k, 'i) InterceptCa \<Rightarrow>
    string \<times> 'g \<times> int \<times> int \<Rightarrow> 's intercept_acceptor option \<Rightarrow> bool" where
  "served_ok X ca req a \<longleftrightarrow>
     (case req of (host, rng, now, mint_now) \<Rightarrow>
        \<forall>acc. a = Some acc \<longrightarrow>
          (\<forall>sni. \<exists>key p. fixed_resolve acc sni = Some key \<and> leaf_spec X ca host key p \<and>
             lp_not_before p \<le> mint_now - LEAF_BACKDATE \<and>
             now + LEAF_RENEW_MARGIN_DAYS * nanos_per_day < lp_not_after p) \<and>
          ia_alpn acc = [''http/1.1''])"

lemma serve_run_inv:
  assumes laws: "lru_laws Q v cap" and "resolver_inv X v cap r t" "clock_ok t reqs" "serve_run X Q r reqs = (as, r')"
  shows "list_all2 (served_ok X (dcr_ca r)) reqs as \<and> (\<exists>t'. resolver_inv X v cap r' t')"
  using assms(2-4)
proof (induction reqs arbitrary: r t as r')
  case (Cons req reqs)
  obtain host rng now mint_now where req: "req = (host, rng, now, mint_now)" by (cases req) auto
  obtain served r1 where step: "leaf_for X Q r host rng now mint_now = (served, r1)" by force
  obtain as' where rest: "serve_run X Q r1 reqs = (as', r')" and as: "as = map_option build_acceptor served # as'"
    using Cons.prems(3) step req by (auto simp: acceptor_for_def split: prod.splits)
  have times: "t \<le> now" "now \<le> mint_now" "clock_ok mint_now reqs" using Cons.prems(2) req by auto
  note one = leaf_for_step[OF laws resolver_inv_mono[OF Cons.prems(1) times(1)] times(2) step]
  have "served_ok X (dcr_ca r) req (map_option build_acceptor served)"
    using one by (auto simp: served_ok_def req fixed_resolve_def build_acceptor_def)
  moreover have "list_all2 (served_ok X (dcr_ca r)) reqs as' \<and> (\<exists>t'. resolver_inv X v cap r' t')"
    using Cons.IH[of r1 mint_now as' r'] one times(3) rest by simp
  ultimately show ?case using as by simp
qed auto

text \<open>
  Property C11. Over any sequence of intercepted connections under an advancing clock, the chain a
  connection is served, whatever server name its client asks for, is a server certificate for exactly
  the host the connection was opened for, signed by the loaded CA, already valid, and valid for more
  than another day; and the cache never holds more than 1024 leaves.
\<close>

theorem intercepted_leaf_valid:
  assumes "lru_laws Q lru_view cap" "from_pem X Q cert_pem key_pem rng t = Ok r"
    and "clock_ok t reqs" "serve_run X Q r reqs = (as, r')"
  shows "list_all2 (served_ok X (dcr_ca r)) reqs as \<and> card (dom (lru_view (dcr_cache r'))) \<le> 1024"
proof -
  have "list_all2 (served_ok X (dcr_ca r)) reqs as \<and> (\<exists>t'. resolver_inv X lru_view cap r' t')"
    by (rule serve_run_inv[OF assms(1) from_pem_inv[OF assms(1,2)] assms(3,4)])
  then show ?thesis by (auto simp: resolver_inv_def MAX_CACHED_LEAVES_def)
qed

text \<open>An LRU cache as a list in order of use, and a certificate library whose signature is the key itself.\<close>

definition list_lru :: "(nat \<times> (string \<times> 's CachedLeaf) list, 's) lru_lib" where
  "list_lru =
     \<lparr>lru_new = (\<lambda>n. (n, [])),
      lru_get = (\<lambda>(n, xs) k. case map_of xs k of
                   None \<Rightarrow> (None, (n, xs))
                 | Some x \<Rightarrow> (Some x, (n, (k, x) # filter (\<lambda>e. fst e \<noteq> k) xs))),
      lru_put = (\<lambda>(n, xs) k x. (n, take n ((k, x) # filter (\<lambda>e. fst e \<noteq> k) xs)))\<rparr>"

lemma map_of_take: "map_of (take n xs) k = None \<or> map_of (take n xs) k = map_of xs k"
proof (induction xs arbitrary: n)
  case (Cons x xs)
  then show ?case by (cases n) auto
qed simp

lemma map_of_filter_ne: "map_of (filter (\<lambda>e. fst e \<noteq> k) xs) k' = (if k' = k then None else map_of xs k')"
  by (induction xs) auto

definition sample_certs :: "(bytes, bytes, bytes, bytes, bytes) cert_lib" where
  "sample_certs =
     \<lparr>key_from_pem = (\<lambda>s. Ok (as_bytes s)), ca_issuer = (\<lambda>s. Ok Ok), ca_pem_certs = (\<lambda>s. [Ok (as_bytes s)]),
      parse_der = Ok, is_ca_cert = (\<lambda>x. Ok (Some True)),
      verify_signed_by = (\<lambda>x ca. take (length ca) x = ca),
      dns_name = (\<lambda>s. if s = [] then None else Some s), generate_key = Ok,
      sign_leaf = (\<lambda>p k i ca. Ok (ca @ as_bytes (lp_common_name p))), signing_key = Ok\<rparr>"

lemma list_lru_laws: "lru_laws list_lru (\<lambda>q. map_of (snd q)) fst"
proof -
  have bound: "finite (dom (map_of ys)) \<and> card (dom (map_of ys)) \<le> length ys" for ys :: "(string \<times> 's CachedLeaf) list"
    by (simp add: finite_dom_map_of dom_map_of_conv_image_fst) (metis card_image_le card_length length_map list.set_map)
  show ?thesis
    unfolding lru_laws_def
  proof (intro conjI allI impI)
    fix q :: "nat \<times> (string \<times> 's CachedLeaf) list" and k k' :: string and v :: "'s CachedLeaf"
    assume "0 < fst q" "k' \<noteq> k"
    then show "map_of (snd (lru_put list_lru q k v)) k' \<in> {None, map_of (snd q) k'}"
      using map_of_take[of "fst q - 1" "filter (\<lambda>e. fst e \<noteq> k) (snd q)" k']
      by (cases q; cases "fst q") (auto simp: list_lru_def map_of_filter_ne)
  next
    fix q :: "nat \<times> (string \<times> 's CachedLeaf) list" and k :: string and v :: "'s CachedLeaf"
    show "card (dom (map_of (snd (lru_put list_lru q k v)))) \<le> fst q"
      using bound[of "snd (lru_put list_lru q k v)"] by (cases q) (auto simp: list_lru_def)
  next
    fix q :: "nat \<times> (string \<times> 's CachedLeaf) list" and k :: string and v :: "'s CachedLeaf"
    assume "0 < fst q"
    then show "map_of (snd (lru_put list_lru q k v)) k = Some v"
      by (cases q; cases "fst q") (auto simp: list_lru_def)
  next
    fix q :: "nat \<times> (string \<times> 's CachedLeaf) list" and k :: string
    show "map_of (snd (snd (lru_get list_lru q k))) = map_of (snd q)"
      by (cases q) (auto simp: list_lru_def map_of_filter_ne fun_eq_iff split: option.splits)
  qed (auto simp: list_lru_def finite_dom_map_of split: option.splits prod.splits)
qed

definition sample_run :: "(string \<times> bytes \<times> int \<times> int) list" where
  "sample_run =
     [(''a.com'', [1], 5, 6), (''b.org'', [2], 10, 11),
      (''a.com'', [3], 29 * nanos_per_day, 29 * nanos_per_day + 1),
      (''a.com'', [4], 30 * nanos_per_day, 30 * nanos_per_day + 1)]"

theorem intercepted_leaf_valid_witness:
  "\<exists>r. from_pem sample_certs list_lru ''ca'' ''ca'' [] 0 = Ok r \<and>
     list_all2 (served_ok sample_certs (dcr_ca r)) sample_run (fst (serve_run sample_certs list_lru r sample_run)) \<and>
     map (map_option (crt_key \<circ> ia_key)) (fst (serve_run sample_certs list_lru r sample_run)) =
       [Some [1], Some [2], Some [1], Some [4]]"
proof -
  let ?r = "\<lparr>dcr_ca = \<lparr>ica_key = as_bytes ''ca'', ica_issuer = as_bytes ''ca'', ica_chain_der = as_bytes ''ca''\<rparr>,
     dcr_cache = (1024 :: nat, [] :: (string \<times> bytes CachedLeaf) list), dcr_poisoned = False\<rparr>"
  have clock: "clock_ok 0 sample_run" by (simp add: sample_run_def nanos_per_day_def)
  have loads: "from_pem sample_certs list_lru ''ca'' ''ca'' [] 0 = Ok ?r"
    by (simp add: from_pem_def ca_load_def ca_validate_def mint_leaf_def sample_certs_def list_lru_def
        CA_SELF_CHECK_HOST_def MAX_CACHED_LEAVES_def leaf_params_for_def Let_def)
  moreover have "list_all2 (served_ok sample_certs (dcr_ca ?r)) sample_run
      (fst (serve_run sample_certs list_lru ?r sample_run))"
    by (rule conjunct1[OF intercepted_leaf_valid[OF list_lru_laws loads clock prod.collapse[symmetric]]])
  moreover have "map (map_option (crt_key \<circ> ia_key)) (fst (serve_run sample_certs list_lru ?r sample_run)) =
      [Some [1], Some [2], Some [1], Some [4]]"
    by code_simp
  ultimately show ?thesis by (intro exI[of _ ?r] conjI)
qed

end
