(* ===== verification/Cli.thy ===== *)
theory Cli
  imports Serve Tls
begin

text \<open>
  The command line, \<open>crates/icebreaker-cli/src/main.rs\<close>: the arguments of its commands, sealing a token
  (\<open>seal\<close> and what it calls), inspecting one, generating a key, and how \<open>run_server\<close> builds the server
  from its arguments (host policy of requests without a token, TLS, interception, upstream roots, nonce
  store, clock skew, decryption). Reading the arguments and printing belong to clap and the standard
  library; what is printed is a list of lines, an error its text.

  Shown: a server in token-optional mode is no open proxy unless it was asked to be one, a token
  sealed on the command line opens at the server that holds its key and is confined to the hosts,
  methods and paths it was sealed for, and a sealed token with a limit of uses always expires.
\<close>

section \<open>Arguments\<close>

record ServeArgs =
  srv_bind :: string
  srv_port :: u16
  srv_secret_key :: string
  srv_key_id :: string
  srv_timeout :: u64
  srv_log_level :: string
  srv_log_json :: bool
  srv_metrics_enabled :: bool
  srv_metrics_port :: u16
  srv_health_enabled :: bool
  srv_health_port :: u16
  srv_shutdown_timeout :: u64
  srv_shutdown_delay :: u64
  srv_tls_cert :: "string option"
  srv_tls_key :: "string option"
  srv_tls_client_ca :: "string option"
  srv_tls_client_auth :: string
  srv_token_optional :: bool
  srv_token_optional_allow_hosts :: "string option"
  srv_token_optional_deny_hosts :: "string option"
  srv_token_optional_allow_any :: bool
  srv_intercept_ca_cert :: "string option"
  srv_intercept_ca_key :: "string option"
  srv_no_bump_hosts :: "string option"
  srv_upstream_ca :: "string option"
  srv_response_scan_enabled :: bool
  srv_rate_limit_enabled :: bool
  srv_rate_limit_max_requests :: u32
  srv_rate_limit_burst :: u32
  srv_replay_detection :: bool
  srv_replay_backend :: string
  srv_replay_redis_url :: "string option"
  srv_clock_skew_tolerance :: u64
  srv_max_future_token :: u64
  srv_require_expiration :: bool

record KeygenArgs =
  kg_format :: string
  kg_key_id :: string

record SealArgs =
  se_secret :: string
  se_allowed_hosts :: string
  se_header :: string
  se_prefix :: "string option"
  se_public_key :: string
  se_key_id :: string
  se_expires_in :: "u64 option"
  se_single_use :: bool
  se_max_uses :: "u32 option"
  se_nonce :: "string option"
  se_nonce_ttl :: "u64 option"
  se_allowed_methods :: "string option"
  se_allowed_paths :: "string option"
  se_allowed_path_pattern :: "string option"
  se_sigv4_access_key :: "string option"
  se_processor_json :: "string option"
  se_upstream_scheme :: "UpstreamScheme option"

record InspectArgs =
  ins_token :: string

definition parse_upstream_scheme_arg :: "string \<Rightarrow> (string, UpstreamScheme) result" where
  "parse_upstream_scheme_arg s = map_err to_string (scheme_from_str s)"

section \<open>Lists in arguments\<close>

text \<open>\<open>str::to_uppercase\<close> on ASCII text, which the names of methods are.\<close>

definition ascii_upper :: "char \<Rightarrow> char" where
  "ascii_upper c = (case map_of (zip ascii_lower_letters ascii_upper_letters) c of Some d \<Rightarrow> d | None \<Rightarrow> c)"

definition parse_csv :: "string option \<Rightarrow> (string \<Rightarrow> string) \<Rightarrow> string list" where
  "parse_csv spec transform =
     (case spec of
        Some raw \<Rightarrow> filter (\<lambda>s. s \<noteq> []) (map (\<lambda>s. transform (trim s)) (split_on (CHR '','') raw))
      | None \<Rightarrow> [])"

fun check_authorities :: "uri_lib \<Rightarrow> string list \<Rightarrow> (string, unit) result" where
  "check_authorities U [] = Ok ()"
| "check_authorities U (entry # hosts) =
     bindR (map_err (\<lambda>e. ''invalid allowed-host entry '' @ str_debug entry @ '': '' @ e) (ul_authority U entry))
       (\<lambda>_. check_authorities U hosts)"

definition parse_allowed_hosts :: "uri_lib \<Rightarrow> string \<Rightarrow> (string, string list) result" where
  "parse_allowed_hosts U spec =
     (let hosts = filter (\<lambda>s. s \<noteq> []) (map trim (split_on (CHR '','') spec)) in
      if hosts = [] then Err ''at least one allowed host is required''
      else bindR (check_authorities U hosts) (\<lambda>_. Ok hosts))"

section \<open>Sealing a token\<close>

text \<open>\<open>J\<close> reads a processor configuration from JSON.\<close>

definition parse_processor_config :: "(string \<Rightarrow> (string, ProcessorConfig) result) \<Rightarrow> SealArgs \<Rightarrow>
    (string, ProcessorConfig) result" where
  "parse_processor_config J args =
     (case se_processor_json args of
        Some json \<Rightarrow>
          bindR (map_err (\<lambda>e. ''invalid processor JSON: '' @ e) (J json)) (\<lambda>config.
          (case config of
             PcMulti multi \<Rightarrow>
               bindR (map_err (\<lambda>e. ''invalid multi-processor config: '' @ e) (multi_validate multi)) (\<lambda>_. Ok config)
           | _ \<Rightarrow> Ok config))
      | None \<Rightarrow>
          (case se_sigv4_access_key args of
             Some access_key \<Rightarrow> Ok (PcSigv4 (Sigv4Config_new access_key))
           | None \<Rightarrow>
               Ok (PcInject
                 (case se_prefix args of
                    Some pre \<Rightarrow> \<lparr>ic_header_name = se_header args, ic_prefix = Some pre, ic_suffix = None\<rparr>
                  | None \<Rightarrow>
                      if eq_ignore_ascii_case (se_header args) ''authorization'' then InjectConfig_bearer (se_header args)
                      else InjectConfig_raw (se_header args)))))"

text \<open>\<open>drawn\<close> is the hexadecimal text of the 16 random bytes a missing nonce is replaced by.\<close>

definition build_replay_protection :: "string \<Rightarrow> SealArgs \<Rightarrow> ReplayProtection" where
  "build_replay_protection drawn args =
     (let nonce = (case se_nonce args of Some n \<Rightarrow> n | None \<Rightarrow> drawn);
          max_uses = (if se_single_use args then Some 1 else se_max_uses args);
          replay = \<lparr>rp_nonce = nonce, rp_max_uses = max_uses, rp_nonce_ttl_seconds = se_nonce_ttl args\<rparr>
      in case se_nonce_ttl args of Some ttl \<Rightarrow> rp_with_ttl replay ttl | None \<Rightarrow> replay)"

text \<open>
  The builder as the options fill it. \<open>now\<close> is the wall clock in seconds, \<open>None\<close> when it stands before
  the epoch.
\<close>

definition seal_builder :: "SealArgs \<Rightarrow> ProcessorConfig \<Rightarrow> string list \<Rightarrow> u64 option \<Rightarrow> TokenPayloadBuilder" where
  "seal_builder args processor_config hosts now =
     (let method_list = parse_csv (se_allowed_methods args) (map ascii_upper);
          path_list = parse_csv (se_allowed_paths args) (\<lambda>s. s);
          builder = b_allowed_hosts (payload_builder (se_secret args) processor_config) hosts;
          builder = (if method_list \<noteq> [] then b_allowed_methods builder method_list else builder);
          builder = (if path_list \<noteq> [] then b_allowed_paths builder path_list else builder);
          builder = (case se_allowed_path_pattern args of
                       Some pattern \<Rightarrow> b_allowed_path_pattern builder pattern | None \<Rightarrow> builder);
          builder = (case se_upstream_scheme args of
                       Some scheme \<Rightarrow> b_upstream_scheme builder scheme | None \<Rightarrow> builder)
      in case se_expires_in args of
           Some expires_in \<Rightarrow> b_expires_at builder (case now of Some d \<Rightarrow> d + expires_in | None \<Rightarrow> 0)
         | None \<Rightarrow> builder)"

definition build_seal_payload :: "uri_lib \<Rightarrow> (string \<Rightarrow> (string, ProcessorConfig) result) \<Rightarrow> u64 option \<Rightarrow> string \<Rightarrow>
    SealArgs \<Rightarrow> (string, TokenPayload) result" where
  "build_seal_payload U J now drawn args =
     bindR (parse_processor_config J args) (\<lambda>processor_config.
     bindR (parse_allowed_hosts U (se_allowed_hosts args)) (\<lambda>hosts.
     let builder = seal_builder args processor_config hosts now in
     if se_single_use args \<or> se_max_uses args \<noteq> None then
       if se_expires_in args = None then Err ''single-use and max-use tokens require --expires-in''
       else map_err to_string (build_payload (b_replay_protection builder (build_replay_protection drawn args)))
     else map_err to_string (build_payload builder)))"

text \<open>What \<open>seal\<close> prints of the payload before the token.\<close>

definition seal_summary :: "TokenPayload \<Rightarrow> string list" where
  "seal_summary payload =
     (case tp_upstream_scheme payload of Some s \<Rightarrow> [''Upstream scheme: '' @ scheme_str s] | None \<Rightarrow> []) @
     (if tp_allowed_methods payload \<noteq> []
      then [''Allowed methods: '' @ join_str '', '' (tp_allowed_methods payload)] else []) @
     (if tp_allowed_paths payload \<noteq> []
      then [''Allowed paths: '' @ join_str '', '' (tp_allowed_paths payload)] else []) @
     (case tp_allowed_path_pattern payload of Some p \<Rightarrow> [''Allowed path pattern: '' @ p] | None \<Rightarrow> []) @
     (case tp_replay_protection payload of
        Some replay \<Rightarrow>
          [''Replay protection enabled:'', ''  Nonce: '' @ rp_nonce replay] @
          (case rp_max_uses replay of
             Some m \<Rightarrow> [''  Max uses: '' @ nat_to_string (unat m)]
           | None \<Rightarrow> [''  Max uses: unlimited (audit only)'']) @
          (case rp_nonce_ttl_seconds replay of
             Some ttl \<Rightarrow> [''  Nonce TTL: '' @ nat_to_string (unat ttl) @ '' seconds''] | None \<Rightarrow> []) @
          [[]]
      | None \<Rightarrow> [])"

text \<open>The random draws and the clock of one call.\<close>

record seal_env =
  sx_now :: "u64 option"
  sx_nonce :: string
  sx_rng :: seal_rng

definition seal_cmd :: "crypto_lib \<Rightarrow> base64_lib \<Rightarrow> SealedToken serde_lib \<Rightarrow> TokenPayload serde_lib \<Rightarrow> uri_lib \<Rightarrow>
    (string \<Rightarrow> (string, ProcessorConfig) result) \<Rightarrow> seal_env \<Rightarrow> SealArgs \<Rightarrow> (string, string list \<times> string) result" where
  "seal_cmd C B S P U J env args =
     bindR (map_err (\<lambda>e. ''invalid public key: '' @ e) (b64_decode B (se_public_key args))) (\<lambda>public_key.
     if length public_key \<noteq> 32
     then Err (''invalid public key length: expected 32, got '' @ nat_to_string (length public_key))
     else
     bindR (build_seal_payload U J (sx_now env) (sx_nonce env) args) (\<lambda>payload.
     bindR (map_err (\<lambda>e. ''failed to seal: '' @ to_string e) (seal C P (sx_rng env) payload public_key)) (\<lambda>sealed_bytes.
     let ciphertext = b64_encode B sealed_bytes;
         sealed_token = SealedToken_new (se_key_id args) ciphertext
     in
     bindR (map_err to_string (to_header B S sealed_token)) (\<lambda>header.
     Ok (seal_summary payload @ [''Sealed token:'', [], header, [], ''Use this in the X-Tokenizer-Token header.''],
         header)))))"

definition inspect_cmd :: "base64_lib \<Rightarrow> SealedToken serde_lib \<Rightarrow> InspectArgs \<Rightarrow> (string, string list) result" where
  "inspect_cmd B S args =
     bindR (map_err (\<lambda>e. ''failed to parse token: '' @ to_string e) (from_header B S (ins_token args))) (\<lambda>token.
     Ok [''Token inspection:'', ''  Version: '' @ nat_to_string (unat (st_version token)),
         ''  Key ID: '' @ st_key_id token,
         ''  Ciphertext length: '' @ nat_to_string (length (st_ciphertext token)) @ '' bytes'', [],
         ''Note: The payload cannot be inspected without the secret key.''])"

text \<open>\<open>keygen\<close>: the lines it prints and its exit status; an unknown format ends the process with status 1.\<close>

definition key_lines :: "string \<Rightarrow> string \<Rightarrow> string list" where
  "key_lines secret public =
     [''Secret key (keep private):'', ''  '' @ secret, [], ''Public key (safe to share):'', ''  '' @ public]"

definition keygen_cmd :: "crypto_lib \<Rightarrow> base64_lib \<Rightarrow> Keypair \<Rightarrow> KeygenArgs \<Rightarrow> string list \<times> nat" where
  "keygen_cmd C B keypair args =
     (let start = [''Generated keypair for key ID: '' @ kg_key_id args, []];
          finish = [[], ''Environment variables:'',
            ''  export ICEBREAKER_SECRET_KEY='' @ [CHR 0x22] @ ''<secret key>'' @ [CHR 0x22],
            ''  export ICEBREAKER_KEY_ID='' @ [CHR 0x22] @ kg_key_id args @ [CHR 0x22]]
      in if kg_format args = ''base64''
         then (start @ key_lines (b64_encode B (kp_secret_key keypair)) (public_key_base64 B keypair) @ finish, 0)
         else if kg_format args = ''hex''
         then (start @ key_lines (hex_encode C (kp_secret_key keypair)) (hex_encode C (kp_public_key keypair)) @ finish, 0)
         else (start, 1))"

section \<open>Building the server\<close>

definition build_token_optional_policy :: "ServeArgs \<Rightarrow> (string, HostValidationConfig) result" where
  "build_token_optional_policy args =
     (let allow = parse_csv (srv_token_optional_allow_hosts args) (\<lambda>s. s);
          deny = parse_csv (srv_token_optional_deny_hosts args) (\<lambda>s. s)
      in if srv_token_optional args \<and> allow = [] \<and> \<not> srv_token_optional_allow_any args
         then Err (''--token-optional requires --token-optional-allow-hosts or '' @
                   ''--token-optional-allow-any (refusing to run an open egress proxy)'')
         else Ok (fold (\<lambda>host policy. block_host policy host) deny (allow_hosts HostValidationConfig_new allow)))"

definition parse_client_auth :: "string \<Rightarrow> ClientAuthMode" where
  "parse_client_auth s =
     (if s = ''none'' then CamNone else if s = ''optional'' then CamOptional
      else if s = ''required'' then CamRequired else CamNone)"

text \<open>The libraries and files of a start: \<open>read_bytes\<close> and \<open>read_text\<close> are the two ways a file is read.\<close>

definition tls_acceptor_of :: "rustls_lib \<Rightarrow> (string \<Rightarrow> (string, bytes) result) \<Rightarrow> ServeArgs \<Rightarrow>
    (string, tls_acceptor option) result" where
  "tls_acceptor_of R read_bytes args =
     (case (srv_tls_cert args, srv_tls_key args) of
        (Some cert, Some key) \<Rightarrow>
          (let tls_config = with_client_auth (TlsConfig_new cert key) (parse_client_auth (srv_tls_client_auth args));
               tls_config = (case srv_tls_client_ca args of Some ca \<Rightarrow> with_client_ca tls_config ca | None \<Rightarrow> tls_config)
           in bindR (map_err (\<lambda>e. ''failed to create TLS acceptor: '' @ acceptor_error_to_string e)
                       (create_tls_acceptor R read_bytes tls_config)) (\<lambda>a. Ok (Some a)))
      | (None, None) \<Rightarrow> Ok None
      | _ \<Rightarrow> Err ''both --tls-cert and --tls-key must be provided together'')"

definition bump_resolver_of :: "('k, 'i, 'x, 's, 'g) cert_lib \<Rightarrow> ('q, 's) lru_lib \<Rightarrow>
    (string \<Rightarrow> (string, string) result) \<Rightarrow> 'g \<Rightarrow> int \<Rightarrow> ServeArgs \<Rightarrow>
    (string, ('k, 'i, 'q) DynamicCertResolver option) result" where
  "bump_resolver_of X Q read_text rng now args =
     (case (srv_intercept_ca_cert args, srv_intercept_ca_key args) of
        (Some cert, Some key) \<Rightarrow>
          bindR (map_err (\<lambda>e. ''failed to load interception CA: '' @ intercept_error_to_string e)
                   (from_pem_files X Q read_text cert key rng now)) (\<lambda>r. Ok (Some r))
      | (None, None) \<Rightarrow> Ok None
      | _ \<Rightarrow> Err ''both --intercept-ca-cert and --intercept-ca-key must be provided together'')"

definition no_bump_policy_of :: "ServeArgs \<Rightarrow> HostValidationConfig option" where
  "no_bump_policy_of args =
     (let no_bump_hosts = parse_csv (srv_no_bump_hosts args) (\<lambda>s. s)
      in if no_bump_hosts = [] then None else Some (allow_hosts HostValidationConfig_new no_bump_hosts))"

text \<open>\<open>build_upstream_root_store\<close>: the bundled roots, and every certificate of the operator's file.\<close>

fun add_upstream_roots :: "rustls_lib \<Rightarrow> bytes list \<Rightarrow> (string, bytes) result list \<Rightarrow> (string, bytes list) result" where
  "add_upstream_roots R roots [] = Ok roots"
| "add_upstream_roots R roots (item # items) =
     bindR item (\<lambda>cert. bindR (root_add R roots cert) (\<lambda>roots. add_upstream_roots R roots items))"

definition build_upstream_root_store :: "rustls_lib \<Rightarrow> bytes list \<Rightarrow> bytes option \<Rightarrow> (string, bytes list) result" where
  "build_upstream_root_store R webpki_roots extra_ca_pem =
     map_err (\<lambda>e. ''failed to parse upstream CA PEM: '' @ e)
       (case extra_ca_pem of
          None \<Rightarrow> Ok webpki_roots
        | Some pem \<Rightarrow> add_upstream_roots R webpki_roots (pem_certs R pem))"

definition upstream_roots_of :: "rustls_lib \<Rightarrow> bytes list \<Rightarrow> (string \<Rightarrow> (string, string) result) \<Rightarrow> ServeArgs \<Rightarrow>
    (string, bytes list) result" where
  "upstream_roots_of R webpki_roots read_text args =
     bindR (case srv_upstream_ca args of
              Some path \<Rightarrow> map_err (\<lambda>e. ''failed to read --upstream-ca file '' @ path @ '': '' @ e)
                             (bindR (read_text path) (\<lambda>pem. Ok (Some (as_bytes pem))))
            | None \<Rightarrow> Ok None)
       (build_upstream_root_store R webpki_roots)"

definition rate_limiter_of :: "ServeArgs \<Rightarrow> RateLimiter option" where
  "rate_limiter_of args =
     (if srv_rate_limit_enabled args
      then Some (RateLimiter_new \<lparr>max_requests = srv_rate_limit_max_requests args, period = from_secs 1,
                                  burst = srv_rate_limit_burst args\<rparr>)
      else None)"

definition nonce_store_of :: "ServeArgs \<Rightarrow> (string, InMemoryNonceStore option) result" where
  "nonce_store_of args =
     (if srv_replay_detection args then
        if srv_replay_backend args = ''memory'' then Ok (Some InMemoryNonceStore_new)
        else if srv_replay_backend args = ''redis''
        then Err (''redis replay backend requires the '' @ quote ''redis'' @ '' feature (not implemented yet)'')
        else Err (''unknown replay backend: '' @ quote (srv_replay_backend args) @ ''. Valid options: memory, redis'')
      else Ok None)"

definition clock_skew_of :: "ServeArgs \<Rightarrow> ClockSkewConfig" where
  "clock_skew_of args =
     \<lparr>tolerance_seconds = srv_clock_skew_tolerance args,
      max_future_seconds = (if srv_max_future_token args = 0 then None else Some (srv_max_future_token args))\<rparr>"

definition proxy_config_of :: "ServeArgs \<Rightarrow> ProxyConfig" where
  "proxy_config_of args =
     (let health_config = HealthConfig_default\<lparr>health_enabled := srv_health_enabled args, health_port := srv_health_port args\<rparr>;
          shutdown_config = \<lparr>shutdown_timeout = from_secs (srv_shutdown_timeout args),
                             shutdown_delay = from_secs (srv_shutdown_delay args)\<rparr>
      in build_proxy_config (set_shutdown (set_health (set_timeout (set_port (set_bind_address ProxyConfig_builder
           (srv_bind args)) (srv_port args)) (from_secs (srv_timeout args))) health_config) shutdown_config))"

definition key_store_of :: "crypto_lib \<Rightarrow> base64_lib \<Rightarrow> ServeArgs \<Rightarrow> (string, KeyStore) result" where
  "key_store_of C B args =
     (if trim (srv_secret_key args) = [] then Err ''ICEBREAKER_SECRET_KEY cannot be empty''
      else bindR (map_err (\<lambda>e. ''failed to load secret key: '' @ to_string e) (keypair_from_base64 C B (srv_secret_key args)))
        (\<lambda>keypair. Ok (with_primary (VersionedKeypair_new (srv_key_id args) keypair 1))))"

text \<open>
  What \<open>run_server\<close> has built when it starts to listen, in the order of the source, so that the first
  failing step gives the error.
\<close>

record ('k, 'i, 'q, 'n) server_parts =
  sp_config :: ProxyConfig
  sp_tls_acceptor :: "tls_acceptor option"
  sp_bump_resolver :: "('k, 'i, 'q) DynamicCertResolver option"
  sp_upstream_roots :: "bytes list"
  sp_context :: "(InMemoryNonceStore, 'n) ProxyContext"

definition build_server :: "crypto_lib \<Rightarrow> base64_lib \<Rightarrow> 'n ipnet_lib \<Rightarrow> rustls_lib \<Rightarrow> ('k, 'i, 'x, 's, 'g) cert_lib \<Rightarrow>
    ('q, 's) lru_lib \<Rightarrow> bytes list \<Rightarrow> (string \<Rightarrow> (string, bytes) result) \<Rightarrow> (string \<Rightarrow> (string, string) result) \<Rightarrow>
    'g \<Rightarrow> int \<Rightarrow> ServeArgs \<Rightarrow> (string, ('k, 'i, 'q, 'n) server_parts) result" where
  "build_server C B N R X Q webpki_roots read_bytes read_text rng now args =
     bindR (key_store_of C B args) (\<lambda>key_store.
     bindR (map_err (\<lambda>e. ''failed to create IP filter: '' @ to_string e) (IpFilter_new N NetworkProtectionConfig_default)) (\<lambda>ip_filter.
     let config = proxy_config_of args in
     bindR (tls_acceptor_of R read_bytes args) (\<lambda>tls_acceptor.
     bindR (build_token_optional_policy args) (\<lambda>host_policy.
     bindR (bump_resolver_of X Q read_text rng now args) (\<lambda>bump_resolver.
     bindR (upstream_roots_of R webpki_roots read_text args) (\<lambda>upstream_roots.
     let rate_limiter = rate_limiter_of args in
     bindR (nonce_store_of args) (\<lambda>nonce_store.
     let clock_skew = clock_skew_of args;
         decrypt_config = \<lparr>dc_clock_skew = clock_skew, dc_require_expiration = srv_require_expiration args\<rparr>
     in Ok \<lparr>sp_config = config, sp_tls_acceptor = tls_acceptor, sp_bump_resolver = bump_resolver,
            sp_upstream_roots = upstream_roots,
            sp_context =
              \<lparr>px_crypto = TokenCrypto_with_config key_store decrypt_config, px_ip_filter = ip_filter,
               px_nonce_store = nonce_store, px_clock_skew = clock_skew, px_rate_limiter = rate_limiter,
               px_response_scan_enabled = srv_response_scan_enabled args,
               px_request_timeout = from_secs (srv_timeout args), px_shutdown = ShutdownState_new,
               px_token_optional = srv_token_optional args, px_host_policy = host_policy,
               px_bump_resolver = (bump_resolver \<noteq> None), px_no_bump_policy = no_bump_policy_of args\<rparr>\<rparr>)))))))"

section \<open>Lemmas\<close>

lemma parse_csv_entries:
  "set (parse_csv spec f) = (case spec of None \<Rightarrow> {} | Some raw \<Rightarrow> {f (trim s) | s. s \<in> set (split_on (CHR '','') raw)} - {[]})"
  by (auto simp: parse_csv_def split: option.splits)

lemma check_authorities_Ok_iff:
  "check_authorities U hosts = Ok () \<longleftrightarrow> (\<forall>h \<in> set hosts. \<exists>a. ul_authority U h = Ok a)"
  by (induction hosts) auto

lemma parse_allowed_hosts_Ok_iff:
  "parse_allowed_hosts U spec = Ok hosts \<longleftrightarrow>
     hosts = parse_csv (Some spec) (\<lambda>s. s) \<and> hosts \<noteq> [] \<and> (\<forall>h \<in> set hosts. \<exists>a. ul_authority U h = Ok a)"
  by (auto simp: parse_allowed_hosts_def parse_csv_def check_authorities_Ok_iff Let_def split: if_splits)

text \<open>The payload a call seals, field by field; a limit on uses comes with an expiry.\<close>

lemma seal_builder_eq:
  "seal_builder args pc hosts now =
     \<lparr>tp_secret = se_secret args, tp_processor = pc, tp_auth = AuthConfig_default, tp_allowed_hosts = hosts,
      tp_allowed_host_pattern = None, tp_upstream_scheme = se_upstream_scheme args,
      tp_expires_at = map_option (\<lambda>d. case now of Some t \<Rightarrow> t + d | None \<Rightarrow> 0) (se_expires_in args),
      tp_metadata = None, tp_oauth = None,
      tp_allowed_methods = parse_csv (se_allowed_methods args) (map ascii_upper),
      tp_allowed_paths = parse_csv (se_allowed_paths args) (\<lambda>s. s),
      tp_allowed_path_pattern = se_allowed_path_pattern args, tp_replay_protection = None\<rparr>"
proof -
  have methods: "(if ms \<noteq> [] then b_allowed_methods b ms else b) = b\<lparr>tp_allowed_methods := ms\<rparr>"
    if "tp_allowed_methods b = []" for b ms using that by (simp add: b_allowed_methods_def)
  have paths: "(if ps \<noteq> [] then b_allowed_paths b ps else b) = b\<lparr>tp_allowed_paths := ps\<rparr>"
    if "tp_allowed_paths b = []" for b ps using that by (simp add: b_allowed_paths_def)
  show ?thesis
    by (cases "se_allowed_path_pattern args"; cases "se_upstream_scheme args"; cases "se_expires_in args")
      (simp_all only: seal_builder_def Let_def methods paths option.case option.map,
       simp_all add: methods paths payload_builder_def b_allowed_hosts_def b_allowed_path_pattern_def
         b_upstream_scheme_def b_expires_at_def del: not_None_eq)
qed

lemma seal_builder_fields:
  "tp_secret (seal_builder args pc hosts now) = se_secret args"
  "tp_auth (seal_builder args pc hosts now) = AuthConfig_default"
  "tp_processor (seal_builder args pc hosts now) = pc"
  "tp_allowed_hosts (seal_builder args pc hosts now) = hosts"
  "tp_allowed_host_pattern (seal_builder args pc hosts now) = None"
  "tp_allowed_methods (seal_builder args pc hosts now) = parse_csv (se_allowed_methods args) (map ascii_upper)"
  "tp_allowed_paths (seal_builder args pc hosts now) = parse_csv (se_allowed_paths args) (\<lambda>s. s)"
  "tp_allowed_path_pattern (seal_builder args pc hosts now) = se_allowed_path_pattern args"
  "tp_upstream_scheme (seal_builder args pc hosts now) = se_upstream_scheme args"
  "tp_expires_at (seal_builder args pc hosts now) =
     map_option (\<lambda>d. case now of Some t \<Rightarrow> t + d | None \<Rightarrow> 0) (se_expires_in args)"
  "tp_replay_protection (seal_builder args pc hosts now) = None"
  by (simp_all add: seal_builder_eq)

lemma build_seal_payload_Ok_iff:
  "build_seal_payload U J now drawn args = Ok p \<longleftrightarrow>
     (\<exists>pc hosts. parse_processor_config J args = Ok pc \<and> parse_allowed_hosts U (se_allowed_hosts args) = Ok hosts \<and>
        (if se_single_use args \<or> se_max_uses args \<noteq> None
         then se_expires_in args \<noteq> None \<and>
              p = b_replay_protection (seal_builder args pc hosts now) (build_replay_protection drawn args)
         else p = seal_builder args pc hosts now))"
proof -
  have plain: "build_payload (seal_builder args pc hosts now) = Ok (seal_builder args pc hosts now)" for pc hosts
    by (simp add: build_payload_def seal_builder_fields)
  have limited: "build_payload (b_replay_protection (seal_builder args pc hosts now) r) =
      Ok (b_replay_protection (seal_builder args pc hosts now) r)" if "se_expires_in args \<noteq> None" for pc hosts r
    using that by (simp add: build_payload_def seal_builder_fields b_replay_protection_def)
  show ?thesis
    by (cases "parse_processor_config J args"; cases "parse_allowed_hosts U (se_allowed_hosts args)";
        cases "se_single_use args \<or> se_max_uses args \<noteq> None"; cases "se_expires_in args = None")
      (simp_all only: build_seal_payload_def Let_def if_True if_False bindR_simps map_err_simps plain limited
        sum.simps simp_thms ex_simps not_False_eq_True HOL.eq_commute [of _ p])
qed

lemma allow_hosts_fields:
  "set (hv_allowed_hosts (allow_hosts c hs)) = set (hv_allowed_hosts c) \<union> set hs"
  "hv_allowed_patterns (allow_hosts c hs) = hv_allowed_patterns c"
  "hv_blocked_hosts (allow_hosts c hs) = hv_blocked_hosts c"
  "hv_blocked_patterns (allow_hosts c hs) = hv_blocked_patterns c"
proof -
  have "set (hv_allowed_hosts (allow_hosts c hs)) = set (hv_allowed_hosts c) \<union> set hs \<and>
      hv_allowed_patterns (allow_hosts c hs) = hv_allowed_patterns c \<and>
      hv_blocked_hosts (allow_hosts c hs) = hv_blocked_hosts c \<and> hv_blocked_patterns (allow_hosts c hs) = hv_blocked_patterns c"
    unfolding allow_hosts_def by (induction hs arbitrary: c) (auto simp: set_insert_def)
  then show "set (hv_allowed_hosts (allow_hosts c hs)) = set (hv_allowed_hosts c) \<union> set hs"
    "hv_allowed_patterns (allow_hosts c hs) = hv_allowed_patterns c"
    "hv_blocked_hosts (allow_hosts c hs) = hv_blocked_hosts c"
    "hv_blocked_patterns (allow_hosts c hs) = hv_blocked_patterns c" by simp_all
qed

lemma block_hosts_fields:
  "set (hv_blocked_hosts (fold (\<lambda>h c. block_host c h) hs c)) = set (hv_blocked_hosts c) \<union> set hs \<and>
   hv_allowed_hosts (fold (\<lambda>h c. block_host c h) hs c) = hv_allowed_hosts c \<and>
   hv_allowed_patterns (fold (\<lambda>h c. block_host c h) hs c) = hv_allowed_patterns c \<and>
   hv_blocked_patterns (fold (\<lambda>h c. block_host c h) hs c) = hv_blocked_patterns c"
  by (induction hs arbitrary: c) (auto simp: block_host_def set_insert_def)

text \<open>What the policy of requests without a token admits, in terms of the arguments.\<close>

definition args_admit :: "ServeArgs \<Rightarrow> string \<Rightarrow> bool" where
  "args_admit args authority \<longleftrightarrow>
     (case split_host_port authority of (host, port) \<Rightarrow>
        (\<forall>e \<in> set (parse_csv (srv_token_optional_deny_hosts args) (\<lambda>s. s)). \<not> entry_matches e host port) \<and>
        ((\<exists>e \<in> set (parse_csv (srv_token_optional_allow_hosts args) (\<lambda>s. s)). entry_matches e host port) \<or>
         srv_token_optional_allow_any args \<and> parse_csv (srv_token_optional_allow_hosts args) (\<lambda>s. s) = []))"

lemma token_optional_policy_exact:
  assumes "build_token_optional_policy args = Ok policy" and "srv_token_optional args"
  shows "policy_validate policy authority = Ok () \<longleftrightarrow> args_admit args authority"
proof -
  let ?allow = "parse_csv (srv_token_optional_allow_hosts args) (\<lambda>s. s)"
  let ?deny = "parse_csv (srv_token_optional_deny_hosts args) (\<lambda>s. s)"
  have policy: "policy = fold (\<lambda>h c. block_host c h) ?deny (allow_hosts HostValidationConfig_new ?allow)"
    and guard: "?allow \<noteq> [] \<or> srv_token_optional_allow_any args"
    using assms by (auto simp: build_token_optional_policy_def Let_def split: if_splits)
  have f: "set (hv_allowed_hosts policy) = set ?allow" "set (hv_blocked_hosts policy) = set ?deny"
    "hv_allowed_patterns policy = []" "hv_blocked_patterns policy = []"
    by (simp_all add: policy block_hosts_fields allow_hosts_fields HostValidationConfig_new_def)
  have e: "hv_allowed_hosts policy = [] \<longleftrightarrow> ?allow = []" using f(1) by (metis set_empty)
  show ?thesis
    using guard f e
    by (auto simp: policy_validate_eq policy_blocks_def policy_lists_def args_admit_def split: prod.splits)
qed

lemma build_server_context:
  assumes "build_server C B N R X Q roots read_bytes read_text rng now args = Ok parts"
  obtains key_store policy store where "key_store_of C B args = Ok key_store"
    "build_token_optional_policy args = Ok policy" "nonce_store_of args = Ok store"
    "px_crypto (sp_context parts) = TokenCrypto_with_config key_store
       \<lparr>dc_clock_skew = clock_skew_of args, dc_require_expiration = srv_require_expiration args\<rparr>"
    "px_nonce_store (sp_context parts) = store" "px_clock_skew (sp_context parts) = clock_skew_of args"
    "px_token_optional (sp_context parts) = srv_token_optional args" "px_host_policy (sp_context parts) = policy"
    "px_response_scan_enabled (sp_context parts) = srv_response_scan_enabled args"
  using assms by (auto simp: build_server_def Let_def)

lemma stack_of_admission:
  "ta_crypto (ss_admission (stack_of ctx)) = px_crypto ctx"
  "ta_token_optional (ss_admission (stack_of ctx)) = px_token_optional ctx"
  "ta_host_policy (ss_admission (stack_of ctx)) = px_host_policy ctx"
  "ta_response_scan_enabled (ss_admission (stack_of ctx)) = px_response_scan_enabled ctx"
  "ta_nonce_store (ss_admission (stack_of ctx)) = px_nonce_store ctx"
  "ta_clock_skew (ss_admission (stack_of ctx)) = px_clock_skew ctx"
  by (simp_all add: stack_of_def Let_def with_token_optional_def ta_with_clock_skew_def with_response_scan_def
      TokenAdmission_new_def with_nonce_store_def split: option.split)

lemma admit_tokenless:
  assumes "h_get (al_headers L) (rq_headers request) TOKEN_HEADER = None"
    and "admit L chk self request ck = Returns ((w, Ok request'), self')"
  shows "request' = request \<and> ta_token_optional self \<and>
    (\<exists>a. request_authority (al_headers L) request = Some a \<and> policy_validate (ta_host_policy self) a = Ok ())"
proof -
  have "snd (admit_token_optional L self request) = Ok request'" using assms by (auto simp: admit_def)
  then show ?thesis by (auto simp: admit_token_optional_def bindW_eq_Inr split: if_splits)
qed

section \<open>Properties\<close>

text \<open>
  Property C8. A server is no open proxy unless it was told to be one: a request or CONNECT without a
  token passes only when the server was started with token-optional mode, to an authority that no deny
  entry covers and that an allow entry covers, unless any host was allowed explicitly.
\<close>

theorem no_open_proxy:
  assumes "build_server C B N R X Q roots read_bytes read_text rng now args = Ok parts"
  shows "(\<forall>w request' self'. admit L chk (ss_admission (stack_of (sp_context parts))) request ck =
            Returns ((w, Ok request'), self') \<and> h_get (al_headers L) (rq_headers request) TOKEN_HEADER = None \<longrightarrow>
          request' = request \<and> srv_token_optional args \<and>
          (\<exists>a. request_authority (al_headers L) request = Some a \<and> args_admit args a)) \<and>
     (\<forall>deps w resp host port deps'. connect_deps (sp_context parts) conn = Some deps \<and>
          handle_connect L chk' deps req remote tls kck = Returns ((w, resp, Some (host, port)), deps') \<and>
          \<not> has_token (al_headers L) req \<longrightarrow>
          srv_token_optional args \<and> (\<exists>au. u_authority (rq_uri req) = Some au \<and> args_admit args (au_str au) \<and>
            host = au_host au \<and> port = unwrap_or (au_port au) 443))"
proof (intro conjI allI impI; elim conjE)
  from assms obtain policy where policy: "build_token_optional_policy args = Ok policy"
      "px_token_optional (sp_context parts) = srv_token_optional args" "px_host_policy (sp_context parts) = policy"
    by (rule build_server_context)
  note exact = token_optional_policy_exact [OF policy(1)]
  {
    fix w request' self'
    assume "admit L chk (ss_admission (stack_of (sp_context parts))) request ck = Returns ((w, Ok request'), self')"
      and "h_get (al_headers L) (rq_headers request) TOKEN_HEADER = None"
    from admit_tokenless [OF this(2,1)] exact policy
    show "request' = request" "srv_token_optional args"
      "\<exists>a. request_authority (al_headers L) request = Some a \<and> args_admit args a"
      by (auto simp: stack_of_admission)
  next
    fix deps w resp host port deps'
    assume d: "connect_deps (sp_context parts) conn = Some deps"
      and h: "handle_connect L chk' deps req remote tls kck = Returns ((w, resp, Some (host, port)), deps')"
      and n: "\<not> has_token (al_headers L) req"
    from d policy have deps: "cd_token_optional deps = srv_token_optional args" "cd_host_policy deps = policy"
      by (auto simp: connect_deps_def split: if_splits)
    from h obtain deps1 deps2 w' where t: "connect_target L chk' deps1 req tls kck = Returns ((w', Ok (host, port)), deps2)"
      "cd_handler deps1 = cd_handler deps" "cd_token_optional deps1 = cd_token_optional deps"
      "cd_host_policy deps1 = cd_host_policy deps" "cd_handler deps' = cd_handler deps2" "resp = connect_success_response"
      by (rule handle_connect_tunnel)
    have "\<not> connect_presents L (cd_handler deps1) req (kc_unseal kck) token payload" for token payload
      using n by (auto simp: connect_presents_def has_token_def connect_token_def)
    with connect_target_Ok [OF t(1)] t(3,4) deps
    have o: "srv_token_optional args" "connect_target_with_policy req policy = Ok (host, port)" by auto
    then show "srv_token_optional args" "\<exists>au. u_authority (rq_uri req) = Some au \<and> args_admit args (au_str au) \<and>
        host = au_host au \<and> port = unwrap_or (au_port au) 443"
      using exact [OF o(1)] by (auto simp: connect_target_with_policy_def)
  }
qed

definition no_rustls :: rustls_lib where
  "no_rustls = \<lparr>pem_certs = (\<lambda>_. []), pem_key = (\<lambda>_. Err ''no key''), root_add = (\<lambda>roots c. Ok (roots @ [c])),
     build_verifier = (\<lambda>_ _. Ok ()), single_cert = (\<lambda>_ _. Ok ())\<rparr>"

definition default_args :: "string \<Rightarrow> ServeArgs" where
  "default_args key = \<lparr>srv_bind = ''127.0.0.1'', srv_port = 8080, srv_secret_key = key, srv_key_id = ''primary'',
     srv_timeout = 30, srv_log_level = ''info'', srv_log_json = False, srv_metrics_enabled = False,
     srv_metrics_port = 9090, srv_health_enabled = True, srv_health_port = 9091, srv_shutdown_timeout = 30,
     srv_shutdown_delay = 0, srv_tls_cert = None, srv_tls_key = None, srv_tls_client_ca = None,
     srv_tls_client_auth = ''none'', srv_token_optional = False, srv_token_optional_allow_hosts = None,
     srv_token_optional_deny_hosts = None, srv_token_optional_allow_any = False, srv_intercept_ca_cert = None,
     srv_intercept_ca_key = None, srv_no_bump_hosts = None, srv_upstream_ca = None, srv_response_scan_enabled = True,
     srv_rate_limit_enabled = True, srv_rate_limit_max_requests = 100, srv_rate_limit_burst = 20,
     srv_replay_detection = True, srv_replay_backend = ''memory'', srv_replay_redis_url = None,
     srv_clock_skew_tolerance = 30, srv_max_future_token = 300, srv_require_expiration = False\<rparr>"

text \<open>A server without TLS, interception and extra roots starts when its key loads and its policy is in order.\<close>

lemma default_server_builds:
  assumes "key_store_of C B args = Ok ks" and "build_token_optional_policy args = Ok policy"
    and "srv_tls_cert args = None" "srv_tls_key args = None" "srv_intercept_ca_cert args = None"
    "srv_intercept_ca_key args = None" "srv_upstream_ca args = None" "srv_replay_backend args = ''memory''"
  shows "\<exists>parts. build_server C B N R X Q roots read_bytes read_text rng now args = Ok parts"
  using assms by (simp add: build_server_def IpFilter_new_def NetworkProtectionConfig_default_def tls_acceptor_of_def
      bump_resolver_of_def upstream_roots_of_def build_upstream_root_store_def nonce_store_of_def Let_def)

definition tokenless_args :: ServeArgs where
  "tokenless_args = (default_args (replicate 32 (CHR ''k'')))\<lparr>srv_token_optional := True,
     srv_token_optional_allow_hosts := Some ''a.io, b.io:443'', srv_token_optional_deny_hosts := Some ''c.io''\<rparr>"

definition tokenless_request :: "((string \<times> string) list, unit) request" where
  "tokenless_request = (bearer_request ''x'')\<lparr>rq_headers := [(''host'', ''a.io'')]\<rparr>"

theorem no_open_proxy_witness:
  "\<exists>parts w. build_server plain_crypto plain_base64 pair_nets no_rustls sample_certs list_lru [] (\<lambda>_. Err ''none'')
       (\<lambda>_. Err ''none'') [] 0 tokenless_args = Ok parts \<and>
     admit sample_libs check_and_record (ss_admission (stack_of (sp_context parts))) tokenless_request sample_clock =
       Returns ((w, Ok tokenless_request), ss_admission (stack_of (sp_context parts))) \<and>
     args_admit tokenless_args ''a.io''"
proof -
  have csv: "parse_csv (srv_token_optional_allow_hosts tokenless_args) (\<lambda>s. s) = [''a.io'', ''b.io:443'']"
    "parse_csv (srv_token_optional_deny_hosts tokenless_args) (\<lambda>s. s) = [''c.io'']"
    by (simp_all add: tokenless_args_def parse_csv_def trim_def is_ws_def)
  have "\<exists>ks. key_store_of plain_crypto plain_base64 tokenless_args = Ok ks"
    by (simp add: key_store_of_def tokenless_args_def default_args_def trim_def is_ws_def keypair_from_base64_def
        plain_base64_def from_secret_bytes_def numeral_eq_Suc)
  moreover obtain policy where policy: "build_token_optional_policy tokenless_args = Ok policy"
    by (simp add: build_token_optional_policy_def csv Let_def)
  moreover have plain: "srv_tls_cert tokenless_args = None" "srv_tls_key tokenless_args = None"
    "srv_intercept_ca_cert tokenless_args = None" "srv_intercept_ca_key tokenless_args = None"
    "srv_upstream_ca tokenless_args = None" "srv_replay_backend tokenless_args = ''memory''" "srv_token_optional tokenless_args"
    by (simp_all add: tokenless_args_def default_args_def)
  ultimately obtain parts where parts: "build_server plain_crypto plain_base64 pair_nets no_rustls sample_certs list_lru []
      (\<lambda>_. Err ''none'') (\<lambda>_. Err ''none'') [] 0 tokenless_args = Ok parts"
    using default_server_builds by metis
  let ?self = "ss_admission (stack_of (sp_context parts))"
  have host: "split_host_port ''a.io'' = (''a.io'', None)" "split_host_port ''c.io'' = (''c.io'', None)"
    by (simp_all add: split_host_port_def rfind_char_def)
  then have admits: "args_admit tokenless_args ''a.io''" by (simp add: args_admit_def csv entry_matches_def)
  from parts policy plain(7) have s: "ta_token_optional ?self" "ta_host_policy ?self = policy"
    by (auto simp: stack_of_admission elim!: build_server_context)
  have none: "h_get (al_headers sample_libs) (rq_headers tokenless_request) TOKEN_HEADER = None"
    and auth: "request_authority (al_headers sample_libs) tokenless_request = Some ''a.io''"
    by (simp_all add: sample_libs_def tokenless_request_def bearer_request_def assoc_headers_def TOKEN_HEADER_def
        to_lower_def ascii_lower_def ascii_upper_letters_def ascii_lower_letters_def request_authority_def
        visible_ascii_def header_str_def)
  obtain w where a: "admit sample_libs check_and_record ?self tokenless_request sample_clock =
      Returns ((w, Ok tokenless_request), ?self)"
    using s none auth admits token_optional_policy_exact [OF policy plain(7), of "''a.io''"]
    by (simp add: admit_def admit_token_optional_def or_record_def silent_def)
  from conjunct1 [OF no_open_proxy [OF parts, of sample_libs check_and_record tokenless_request sample_clock]] a none auth
  have "args_admit tokenless_args ''a.io''" by auto
  with parts a show ?thesis by blast
qed

section \<open>Keys and tokens of the command line\<close>

text \<open>
  Note. The key pair that \<open>keygen\<close> prints in base64 is the one a server started with the printed
  secret holds, and the printed public key is the one that \<open>seal\<close> reads.
\<close>

theorem keygen_key_loads:
  assumes B: "base64_laws B" and kp: "length (kp_secret_key kp) = 32" "kp_public_key kp = public_of C (kp_secret_key kp)"
    and f: "kg_format args = ''base64''" and nonempty: "trim (b64_encode B (kp_secret_key kp)) \<noteq> []"
  shows "\<exists>secret public. fst (keygen_cmd C B kp args) ! 3 = ''  '' @ secret \<and>
      fst (keygen_cmd C B kp args) ! 6 = ''  '' @ public \<and> snd (keygen_cmd C B kp args) = 0 \<and>
      key_store_of C B (sargs\<lparr>srv_secret_key := secret, srv_key_id := kg_key_id args\<rparr>) =
        Ok (with_primary (VersionedKeypair_new (kg_key_id args) kp 1)) \<and>
      b64_decode B public = Ok (kp_public_key kp)"
proof -
  have "keypair_from_base64 C B (b64_encode B (kp_secret_key kp)) = Ok kp"
    using B kp by (simp add: keypair_from_base64_def base64_laws_def from_secret_bytes_def)
  then show ?thesis
    using f nonempty B by (simp add: keygen_cmd_def Let_def key_lines_def key_store_of_def public_key_base64_def
        base64_laws_def numeral_eq_Suc)
qed

text \<open>
  Note. A limit on the uses of a token comes with an expiry, without which no payload is built; a single
  use is a limit of one, whatever other limit is given.
\<close>

theorem limited_token_expires:
  assumes "build_seal_payload U J now drawn args = Ok p" and "se_single_use args \<or> se_max_uses args \<noteq> None"
  shows "tp_expires_at p \<noteq> None" and "\<exists>r. tp_replay_protection p = Some r \<and>
    rp_max_uses r = (if se_single_use args then Some 1 else se_max_uses args) \<and>
    rp_nonce_ttl_seconds r = se_nonce_ttl args"
  using assms
  by (auto simp: build_seal_payload_Ok_iff b_replay_protection_def seal_builder_fields build_replay_protection_def
      Let_def rp_with_ttl_def split: option.splits)

text \<open>Note. What a call is refused for, in the order of the checks.\<close>

theorem seal_refusals:
  "parse_csv (Some (se_allowed_hosts args)) (\<lambda>s. s) = [] \<Longrightarrow> parse_processor_config J args = Ok pc \<Longrightarrow>
     build_seal_payload U J now drawn args = Err ''at least one allowed host is required''"
  "parse_allowed_hosts U (se_allowed_hosts args) = Ok hosts \<Longrightarrow> parse_processor_config J args = Ok pc \<Longrightarrow>
     se_single_use args \<or> se_max_uses args \<noteq> None \<Longrightarrow> se_expires_in args = None \<Longrightarrow>
     build_seal_payload U J now drawn args = Err ''single-use and max-use tokens require --expires-in''"
  by (simp_all add: build_seal_payload_def parse_allowed_hosts_def parse_csv_def)

text \<open>What comes out of sealing on the command line opens under the key of the public key it was sealed for.\<close>

lemma seal_cmd_token:
  assumes laws: "box_laws C" "base64_laws B" "serde_laws S" "serde_laws P" and rng: "length (rng_nonce (sx_rng env)) = 24"
    and kp: "kp_public_key kp = public_of C (kp_secret_key kp)"
    and ok: "seal_cmd C B S P U J env args = Ok (lines, header)"
    and pk: "b64_decode B (se_public_key args) = Ok (kp_public_key kp)"
  obtains payload sealed where "build_seal_payload U J (sx_now env) (sx_nonce env) args = Ok payload"
    and "from_header B S header = Ok (SealedToken_new (se_key_id args) (b64_encode B sealed))"
    and "unseal C P sealed kp = Ok payload"
proof -
  from ok pk obtain payload sealed where p: "build_seal_payload U J (sx_now env) (sx_nonce env) args = Ok payload"
      "seal C P (sx_rng env) payload (kp_public_key kp) = Ok sealed"
      "to_header B S (SealedToken_new (se_key_id args) (b64_encode B sealed)) = Ok header"
    by (auto simp: seal_cmd_def Let_def split: if_splits)
  show thesis
    using that p(1) to_header_from_header [OF laws(2,3) p(3)] seal_unseal [OF laws(1,4) rng kp p(2)] by blast
qed

lemma upper_lower: "ascii_lower (ascii_upper c) = ascii_lower c"
proof (cases "c \<in> set ascii_lower_letters")
  case True
  then show ?thesis by (auto simp: ascii_upper_def ascii_lower_def ascii_lower_letters_def ascii_upper_letters_def)
next
  case False
  then have "map_of (zip ascii_lower_letters ascii_upper_letters) c = None"
    by (auto simp: map_of_eq_None_iff dest: set_zip_leftD)
  then show ?thesis by (simp add: ascii_upper_def)
qed

lemma upper_ignore_case: "eq_ignore_ascii_case (map ascii_upper s) t \<longleftrightarrow> eq_ignore_ascii_case s t"
  by (simp add: eq_ignore_ascii_case_def to_lower_def upper_lower comp_def)

lemma replay_fields:
  "tp_secret (b_replay_protection b r) = tp_secret b" "tp_allowed_hosts (b_replay_protection b r) = tp_allowed_hosts b"
  "tp_allowed_host_pattern (b_replay_protection b r) = tp_allowed_host_pattern b"
  "tp_allowed_methods (b_replay_protection b r) = tp_allowed_methods b"
  "tp_allowed_paths (b_replay_protection b r) = tp_allowed_paths b"
  "tp_allowed_path_pattern (b_replay_protection b r) = tp_allowed_path_pattern b"
  "tp_upstream_scheme (b_replay_protection b r) = tp_upstream_scheme b"
  by (simp_all add: b_replay_protection_def)

lemma seal_payload_limits:
  assumes "build_seal_payload U J now drawn args = Ok p"
  shows "tp_expires_at p = map_option (\<lambda>d. case now of Some t \<Rightarrow> t + d | None \<Rightarrow> 0) (se_expires_in args)"
    "tp_replay_protection p = (if se_single_use args \<or> se_max_uses args \<noteq> None
       then Some \<lparr>rp_nonce = unwrap_or (se_nonce args) drawn,
         rp_max_uses = (if se_single_use args then Some 1 else se_max_uses args),
         rp_nonce_ttl_seconds = se_nonce_ttl args\<rparr>
       else None)"
proof -
  have r: "build_replay_protection drawn args = \<lparr>rp_nonce = unwrap_or (se_nonce args) drawn,
      rp_max_uses = (if se_single_use args then Some 1 else se_max_uses args), rp_nonce_ttl_seconds = se_nonce_ttl args\<rparr>"
    by (simp add: build_replay_protection_def Let_def rp_with_ttl_def unwrap_or_def split: option.split)
  let ?lim = "se_single_use args \<or> se_max_uses args \<noteq> None"
  from assms obtain pc hosts where p: "if ?lim
      then se_expires_in args \<noteq> None \<and>
        p = b_replay_protection (seal_builder args pc hosts now) (build_replay_protection drawn args)
      else p = seal_builder args pc hosts now"
    unfolding build_seal_payload_Ok_iff by blast
  have expires: "tp_expires_at (b_replay_protection q x) = tp_expires_at q"
    "tp_replay_protection (b_replay_protection q x) = Some x" for q x
    by (simp_all add: b_replay_protection_def)
  show "tp_expires_at p = map_option (\<lambda>d. case now of Some t \<Rightarrow> t + d | None \<Rightarrow> 0) (se_expires_in args)"
    using p by (cases ?lim) (simp_all only: if_True if_False expires seal_builder_fields)
  show "tp_replay_protection p = (if ?lim
       then Some \<lparr>rp_nonce = unwrap_or (se_nonce args) drawn,
         rp_max_uses = (if se_single_use args then Some 1 else se_max_uses args),
         rp_nonce_ttl_seconds = se_nonce_ttl args\<rparr> else None)"
    using p by (cases ?lim) (simp_all only: if_True if_False expires seal_builder_fields r)
qed

lemma seal_payload_restricts:
  assumes "build_seal_payload U J now drawn args = Ok p"
  shows "tp_secret p = se_secret args" "tp_allowed_hosts p = parse_csv (Some (se_allowed_hosts args)) (\<lambda>s. s)"
    "tp_allowed_host_pattern p = None" "tp_allowed_methods p = parse_csv (se_allowed_methods args) (map ascii_upper)"
    "tp_allowed_paths p = parse_csv (se_allowed_paths args) (\<lambda>s. s)"
    "tp_allowed_path_pattern p = se_allowed_path_pattern args" "tp_upstream_scheme p = se_upstream_scheme args"
proof -
  from assms obtain pc hosts where hosts: "parse_allowed_hosts U (se_allowed_hosts args) = Ok hosts"
      and p: "p = b_replay_protection (seal_builder args pc hosts now) (build_replay_protection drawn args) \<or>
        p = seal_builder args pc hosts now"
    unfolding build_seal_payload_Ok_iff by (elim exE conjE) (auto simp only: split: if_splits)
  have "hosts = parse_csv (Some (se_allowed_hosts args)) (\<lambda>s. s)"
    using hosts by (simp only: parse_allowed_hosts_Ok_iff)
  with p have fields: "tp_secret p = se_secret args \<and> tp_allowed_hosts p = parse_csv (Some (se_allowed_hosts args)) (\<lambda>s. s) \<and>
    tp_allowed_host_pattern p = None \<and> tp_allowed_methods p = parse_csv (se_allowed_methods args) (map ascii_upper) \<and>
    tp_allowed_paths p = parse_csv (se_allowed_paths args) (\<lambda>s. s) \<and>
    tp_allowed_path_pattern p = se_allowed_path_pattern args \<and> tp_upstream_scheme p = se_upstream_scheme args"
    by (elim disjE) (simp_all only: replay_fields seal_builder_fields simp_thms)
  then show "tp_secret p = se_secret args" "tp_allowed_hosts p = parse_csv (Some (se_allowed_hosts args)) (\<lambda>s. s)"
    "tp_allowed_host_pattern p = None" "tp_allowed_methods p = parse_csv (se_allowed_methods args) (map ascii_upper)"
    "tp_allowed_paths p = parse_csv (se_allowed_paths args) (\<lambda>s. s)"
    "tp_allowed_path_pattern p = se_allowed_path_pattern args" "tp_upstream_scheme p = se_upstream_scheme args"
    by blast+
qed

end
