(* ===== verification/Sso_Config.thy ===== *)
theory Sso_Config
  imports Crypto
begin

text \<open>
  Configuration, errors and provider profiles of the SSO service,
  \<open>crates/icebreaker-sso/src/config.rs\<close>, \<open>error.rs\<close> and \<open>provider/\<close>: the environment variable
  expansion applied to every configured secret, the configuration types with their defaults, the
  error type with its HTTP status, and the OAuth profiles that build the authorization URL and the
  token request.

  Parameters: \<open>env\<close> is the process environment (\<open>std::env::var\<close>, \<open>None\<close> for a variable that is
  not set or not Unicode), \<open>Y\<close> the YAML deserialiser, \<open>U\<close> the URL library. The loop of
  \<open>expand_env_var\<close> need not end; it is a partial function whose value \<open>None\<close> is not returning.
\<close>

section \<open>Errors\<close>

datatype SsoError =
    ProviderNotFound string
  | InvalidState string
  | TransactionExpired
  | TransactionTampered
  | OAuthProviderError string string
  | TokenExchangeFailed string
  | TokenRefreshFailed string
  | SsoConfigError string
  | SsoHttpError string
  | SsoSerializationError string
  | SsoCryptoError string
  | InvalidRedirectUri string
  | MissingParameter string
  | SsoHostNotAllowed string
  | SealingError string
  | UnsealingError string
  | SsoInternalError string

type_synonym 'a sresult = "(SsoError, 'a) result"

fun sso_status_code :: "SsoError \<Rightarrow> u16" where
  "sso_status_code (ProviderNotFound _) = 404"
| "sso_status_code (InvalidState _) = 400"
| "sso_status_code TransactionExpired = 400"
| "sso_status_code TransactionTampered = 400"
| "sso_status_code (InvalidRedirectUri _) = 400"
| "sso_status_code (MissingParameter _) = 400"
| "sso_status_code (SsoHostNotAllowed _) = 400"
| "sso_status_code (OAuthProviderError _ _) = 502"
| "sso_status_code (TokenExchangeFailed _) = 502"
| "sso_status_code (TokenRefreshFailed _) = 502"
| "sso_status_code (SsoConfigError _) = 500"
| "sso_status_code (SsoInternalError _) = 500"
| "sso_status_code (SsoHttpError _) = 500"
| "sso_status_code (SsoSerializationError _) = 500"
| "sso_status_code (SsoCryptoError _) = 500"
| "sso_status_code (SealingError _) = 500"
| "sso_status_code (UnsealingError _) = 500"

fun sso_client_message :: "SsoError \<Rightarrow> string" where
  "sso_client_message (ProviderNotFound _) = ''provider not found''"
| "sso_client_message (InvalidState _) = ''invalid oauth state''"
| "sso_client_message TransactionExpired = ''transaction expired or missing''"
| "sso_client_message TransactionTampered = ''transaction cookie invalid''"
| "sso_client_message (OAuthProviderError _ _) = ''oauth provider error''"
| "sso_client_message (TokenExchangeFailed _) = ''token exchange failed''"
| "sso_client_message (TokenRefreshFailed _) = ''token refresh failed''"
| "sso_client_message (SsoConfigError _) = ''configuration error''"
| "sso_client_message (SsoHttpError _) = ''upstream request failed''"
| "sso_client_message (SsoSerializationError _) = ''serialization error''"
| "sso_client_message (SsoCryptoError _) = ''cryptographic operation failed''"
| "sso_client_message (InvalidRedirectUri _) = ''invalid redirect uri''"
| "sso_client_message (MissingParameter _) = ''missing required parameter''"
| "sso_client_message (SsoHostNotAllowed _) = ''destination not allowed''"
| "sso_client_message (SealingError _) = ''token sealing failed''"
| "sso_client_message (UnsealingError _) = ''token unsealing failed''"
| "sso_client_message (SsoInternalError _) = ''internal error''"

definition sso_is_client_error :: "SsoError \<Rightarrow> bool" where
  "sso_is_client_error e = status_4xx (sso_status_code e)"

definition sso_is_server_error :: "SsoError \<Rightarrow> bool" where
  "sso_is_server_error e = status_5xx (sso_status_code e)"

fun from_tokenizer_error :: "TokenizerError \<Rightarrow> SsoError" where
  "from_tokenizer_error (CryptoError msg) = SsoCryptoError msg"
| "from_tokenizer_error (DecryptionError msg) = UnsealingError msg"
| "from_tokenizer_error e = SsoInternalError (to_string e)"

text \<open>\<open>From\<close> of the HTTP client's, the JSON and the two MessagePack errors, from their text.\<close>

definition from_reqwest :: "string \<Rightarrow> SsoError" where
  "from_reqwest e = SsoHttpError e"

definition from_serde_json :: "string \<Rightarrow> SsoError" where
  "from_serde_json e = SsoSerializationError e"

definition from_rmp_encode :: "string \<Rightarrow> SsoError" where
  "from_rmp_encode e = SsoSerializationError (''msgpack encode: '' @ e)"

definition from_rmp_decode :: "string \<Rightarrow> SsoError" where
  "from_rmp_decode e = SsoSerializationError (''msgpack decode: '' @ e)"

section \<open>Environment variables in secrets\<close>

partial_function (option) expand_env_var :: "(string \<Rightarrow> string option) \<Rightarrow> string \<Rightarrow> string option" where
  "expand_env_var env result =
     (case find_str ''${'' result of
        Some start \<Rightarrow>
          (case find_char (CHR ''}'') (drop start result) of
             Some stop \<Rightarrow>
               (let var_name = take (stop - 2) (drop (start + 2) result);
                    value = (case env var_name of Some v \<Rightarrow> v | None \<Rightarrow> [])
                in expand_env_var env (take start result @ value @ drop (start + stop + 1) result))
           | None \<Rightarrow> Some result)
      | None \<Rightarrow> Some result)"

section \<open>Configuration\<close>

datatype SameSitePolicy = SameSiteLax | SameSiteStrict | SameSiteNone

definition SameSitePolicy_default :: SameSitePolicy where
  "SameSitePolicy_default = SameSiteLax"

text \<open>\<open>cookie::SameSite\<close>, the enumeration of the cookie library, and the conversion to it.\<close>

datatype cookie_same_site = CookieStrict | CookieLax | CookieNone

fun same_site_into :: "SameSitePolicy \<Rightarrow> cookie_same_site" where
  "same_site_into SameSiteLax = CookieLax"
| "same_site_into SameSiteStrict = CookieStrict"
| "same_site_into SameSiteNone = CookieNone"

record CookieConfig =
  ck_name :: string
  ck_secret_key :: string
  ck_domain :: "string option"
  ck_path :: string
  ck_secure :: bool
  ck_same_site :: SameSitePolicy
  ck_ttl_seconds :: u64

definition default_cookie_name :: string where "default_cookie_name = ''icebreaker_sso''"
definition default_cookie_path :: string where "default_cookie_path = ''/''"
definition default_secure :: bool where "default_secure = True"
definition default_ttl_seconds :: u64 where "default_ttl_seconds = 3600"

definition CookieConfig_default :: CookieConfig where
  "CookieConfig_default =
     \<lparr>ck_name = default_cookie_name, ck_secret_key = [], ck_domain = None,
      ck_path = default_cookie_path, ck_secure = default_secure,
      ck_same_site = SameSitePolicy_default, ck_ttl_seconds = default_ttl_seconds\<rparr>"

text \<open>\<open>CookieConfig::ttl\<close>, in seconds.\<close>

definition cookie_ttl :: "CookieConfig \<Rightarrow> nat" where
  "cookie_ttl c = unat (ck_ttl_seconds c)"

record CryptoConfig =
  cc_secret_key :: string
  cc_key_id :: string

definition default_key_id :: string where "default_key_id = ''primary''"

record ProviderConfig =
  pv_profile :: string
  pv_client_id :: string
  pv_client_secret :: string
  pv_callback_url :: "string option"
  pv_scopes :: "string list"
  pv_auth_url :: "string option"
  pv_token_url :: "string option"
  pv_pkce :: bool
  pv_allowed_hosts :: "string list"
  pv_allowed_host_pattern :: "string option"
  pv_forwarded_params :: "string list"
  pv_token_expires_in :: "u64 option"

definition default_pkce :: bool where "default_pkce = True"

definition callback_url :: "ProviderConfig \<Rightarrow> string \<Rightarrow> string \<Rightarrow> string" where
  "callback_url p base_url provider_id =
     (case pv_callback_url p of
        Some url \<Rightarrow> url
      | None \<Rightarrow> base_url @ ''/'' @ provider_id @ ''/callback'')"

record SsoConfig =
  sc_bind_address :: string
  sc_port :: u16
  sc_base_url :: string
  sc_cookie :: CookieConfig
  sc_crypto :: CryptoConfig
  sc_providers :: "string \<rightharpoonup> ProviderConfig"

definition default_bind_address :: string where "default_bind_address = ''0.0.0.0''"
definition sso_default_port :: u16 where "sso_default_port = 8081"

definition from_yaml :: "(string \<Rightarrow> (string, SsoConfig) result) \<Rightarrow> string \<Rightarrow> SsoConfig sresult" where
  "from_yaml Y yaml = map_err (\<lambda>e. SsoConfigError (''failed to parse config: '' @ e)) (Y yaml)"

text \<open>\<open>content\<close> is what \<open>std::fs::read_to_string\<close> gives for the path.\<close>

definition from_file :: "(string \<Rightarrow> (string, SsoConfig) result) \<Rightarrow> (string, string) result \<Rightarrow> SsoConfig sresult" where
  "from_file Y content =
     bindR (map_err (\<lambda>e. SsoConfigError (''failed to read config file: '' @ e)) content) (from_yaml Y)"

definition sso_bind_addr :: "SsoConfig \<Rightarrow> string" where
  "sso_bind_addr c = sc_bind_address c @ '':'' @ nat_to_string (unat (sc_port c))"

definition get_provider :: "SsoConfig \<Rightarrow> string \<Rightarrow> ProviderConfig option" where
  "get_provider c i = sc_providers c i"

section \<open>Provider profiles\<close>

datatype BuiltinProfile = ProfileGoogle | ProfileGitHub | ProfileMicrosoft | ProfileGeneric

definition from_name :: "string \<Rightarrow> BuiltinProfile option" where
  "from_name name = (let n = to_lower name in
     if n = ''google'' then Some ProfileGoogle
     else if n = ''github'' then Some ProfileGitHub
     else if n = ''microsoft'' \<or> n = ''azure'' \<or> n = ''azuread'' then Some ProfileMicrosoft
     else if n = ''generic'' \<or> n = ''oauth2'' then Some ProfileGeneric
     else None)"

text \<open>
  A boxed profile is one of the four unit structs, so \<open>BuiltinProfile::profile\<close> is the identity on
  the tag and the methods of the trait dispatch on it.
\<close>

definition registry_get :: "string \<Rightarrow> BuiltinProfile option" where
  "registry_get name = from_name name"

named_theorems profile_defs \<open>the methods of the four profiles\<close>

text \<open>\<open>GoogleProfile\<close>.\<close>

definition google_auth_default :: string where
  "google_auth_default = ''https://accounts.google.com/o/oauth2/v2/auth''"

definition google_auth_url :: "ProviderConfig \<Rightarrow> string sresult" where [profile_defs]:
  "google_auth_url c = Ok (case pv_auth_url c of Some u \<Rightarrow> u | None \<Rightarrow> google_auth_default)"

definition google_token_default :: string where
  "google_token_default = ''https://oauth2.googleapis.com/token''"

definition google_token_url :: "ProviderConfig \<Rightarrow> string sresult" where [profile_defs]:
  "google_token_url c = Ok (case pv_token_url c of Some u \<Rightarrow> u | None \<Rightarrow> google_token_default)"

definition google_default_scopes :: "string list" where [profile_defs]:
  "google_default_scopes = [''openid'', ''email'', ''profile'']"

definition google_forwarded_params :: "string list" where [profile_defs]:
  "google_forwarded_params =
     [''hd'', ''login_hint'', ''prompt'', ''access_type'', ''include_granted_scopes'']"

definition google_supports_pkce :: bool where [profile_defs]:
  "google_supports_pkce = True"

text \<open>\<open>GitHubProfile\<close>.\<close>

definition github_auth_default :: string where
  "github_auth_default = ''https://github.com/login/oauth/authorize''"

definition github_auth_url :: "ProviderConfig \<Rightarrow> string sresult" where [profile_defs]:
  "github_auth_url c = Ok (case pv_auth_url c of Some u \<Rightarrow> u | None \<Rightarrow> github_auth_default)"

definition github_token_default :: string where
  "github_token_default = ''https://github.com/login/oauth/access_token''"

definition github_token_url :: "ProviderConfig \<Rightarrow> string sresult" where [profile_defs]:
  "github_token_url c = Ok (case pv_token_url c of Some u \<Rightarrow> u | None \<Rightarrow> github_token_default)"

definition github_default_scopes :: "string list" where [profile_defs]:
  "github_default_scopes = [''read:user'', ''user:email'']"

definition github_forwarded_params :: "string list" where [profile_defs]:
  "github_forwarded_params =
     [''login'', ''allow_signup'']"

definition github_supports_pkce :: bool where [profile_defs]:
  "github_supports_pkce = False"

text \<open>\<open>MicrosoftProfile\<close>.\<close>

definition microsoft_auth_default :: string where
  "microsoft_auth_default = ''https://login.microsoftonline.com/common/oauth2/v2.0/authorize''"

definition microsoft_auth_url :: "ProviderConfig \<Rightarrow> string sresult" where [profile_defs]:
  "microsoft_auth_url c = Ok (case pv_auth_url c of Some u \<Rightarrow> u | None \<Rightarrow> microsoft_auth_default)"

definition microsoft_token_default :: string where
  "microsoft_token_default = ''https://login.microsoftonline.com/common/oauth2/v2.0/token''"

definition microsoft_token_url :: "ProviderConfig \<Rightarrow> string sresult" where [profile_defs]:
  "microsoft_token_url c = Ok (case pv_token_url c of Some u \<Rightarrow> u | None \<Rightarrow> microsoft_token_default)"

definition microsoft_default_scopes :: "string list" where [profile_defs]:
  "microsoft_default_scopes = [''openid'', ''email'', ''profile'', ''offline_access'']"

definition microsoft_forwarded_params :: "string list" where [profile_defs]:
  "microsoft_forwarded_params =
     [''login_hint'', ''domain_hint'', ''prompt'', ''response_mode'']"

definition microsoft_supports_pkce :: bool where [profile_defs]:
  "microsoft_supports_pkce = True"

text \<open>\<open>GenericProfile\<close>.\<close>

definition generic_auth_url :: "ProviderConfig \<Rightarrow> string sresult" where [profile_defs]:
  "generic_auth_url c =
     ok_or (pv_auth_url c) (SsoConfigError ''generic profile requires auth_url to be configured'')"

definition generic_token_url :: "ProviderConfig \<Rightarrow> string sresult" where [profile_defs]:
  "generic_token_url c =
     ok_or (pv_token_url c) (SsoConfigError ''generic profile requires token_url to be configured'')"

definition generic_default_scopes :: "string list" where [profile_defs]:
  "generic_default_scopes = []"

definition generic_forwarded_params :: "string list" where [profile_defs]:
  "generic_forwarded_params =
     []"

definition generic_supports_pkce :: bool where [profile_defs]:
  "generic_supports_pkce = True"

text \<open>The calls through the boxed trait object.\<close>

fun auth_url :: "BuiltinProfile \<Rightarrow> ProviderConfig \<Rightarrow> string sresult" where
  "auth_url ProfileGoogle c = google_auth_url c"
| "auth_url ProfileGitHub c = github_auth_url c"
| "auth_url ProfileMicrosoft c = microsoft_auth_url c"
| "auth_url ProfileGeneric c = generic_auth_url c"

fun token_url :: "BuiltinProfile \<Rightarrow> ProviderConfig \<Rightarrow> string sresult" where
  "token_url ProfileGoogle c = google_token_url c"
| "token_url ProfileGitHub c = github_token_url c"
| "token_url ProfileMicrosoft c = microsoft_token_url c"
| "token_url ProfileGeneric c = generic_token_url c"

fun default_scopes :: "BuiltinProfile \<Rightarrow> string list" where
  "default_scopes ProfileGoogle = google_default_scopes"
| "default_scopes ProfileGitHub = github_default_scopes"
| "default_scopes ProfileMicrosoft = microsoft_default_scopes"
| "default_scopes ProfileGeneric = generic_default_scopes"

fun forwarded_params :: "BuiltinProfile \<Rightarrow> string list" where
  "forwarded_params ProfileGoogle = google_forwarded_params"
| "forwarded_params ProfileGitHub = github_forwarded_params"
| "forwarded_params ProfileMicrosoft = microsoft_forwarded_params"
| "forwarded_params ProfileGeneric = generic_forwarded_params"

fun supports_pkce :: "BuiltinProfile \<Rightarrow> bool" where
  "supports_pkce ProfileGoogle = google_supports_pkce"
| "supports_pkce ProfileGitHub = github_supports_pkce"
| "supports_pkce ProfileMicrosoft = microsoft_supports_pkce"
| "supports_pkce ProfileGeneric = generic_supports_pkce"

text \<open>
  The URL library: parsing, \<open>query_pairs_mut().append_pair\<close>, and printing. It is used through its
  documented behaviour: \<open>url_pairs\<close> reads the query of a URL, appending adds a pair at the end and
  keeps the rest, and a printed URL parses back.
\<close>

record 'u url_lib =
  url_parse :: "string \<Rightarrow> (string, 'u) result"
  append_pair :: "'u \<Rightarrow> string \<Rightarrow> string \<Rightarrow> 'u"
  url_to_string :: "'u \<Rightarrow> string"

definition url_laws :: "'u url_lib \<Rightarrow> ('u \<Rightarrow> (string \<times> string) list) \<Rightarrow> ('u \<Rightarrow> string) \<Rightarrow> bool" where
  "url_laws U url_pairs url_base \<longleftrightarrow>
     (\<forall>u k v. url_pairs (append_pair U u k v) = url_pairs u @ [(k, v)]) \<and>
     (\<forall>u k v. url_base (append_pair U u k v) = url_base u) \<and>
     (\<forall>u. url_parse U (url_to_string U u) = Ok u)"

fun forward_loop :: "'u url_lib \<Rightarrow> (string \<rightharpoonup> string) \<Rightarrow> 'u \<Rightarrow> string list \<Rightarrow> 'u" where
  "forward_loop U extra_params u [] = u"
| "forward_loop U extra_params u (param # ps) =
     (case extra_params param of
        Some value \<Rightarrow> forward_loop U extra_params (append_pair U u param value) ps
      | None \<Rightarrow> forward_loop U extra_params u ps)"

definition build_auth_url :: "'u url_lib \<Rightarrow> BuiltinProfile \<Rightarrow> ProviderConfig \<Rightarrow> string \<Rightarrow> string \<Rightarrow>
    string option \<Rightarrow> (string \<rightharpoonup> string) \<Rightarrow> string sresult" where
  "build_auth_url U self config redirect_uri state code_challenge extra_params =
     bindR (auth_url self config) (\<lambda>base_url.
     bindR (map_err (\<lambda>e. SsoConfigError (''invalid auth_url: '' @ e)) (url_parse U base_url)) (\<lambda>url.
       let url = append_pair U url ''client_id'' (pv_client_id config);
           url = append_pair U url ''redirect_uri'' redirect_uri;
           url = append_pair U url ''response_type'' ''code'';
           url = append_pair U url ''state'' state;
           scopes = (if pv_scopes config = [] then default_scopes self else pv_scopes config);
           url = (if scopes \<noteq> [] then append_pair U url ''scope'' (join_str '' '' scopes) else url);
           url = (if pv_pkce config \<and> supports_pkce self
                  then (case code_challenge of
                          Some challenge \<Rightarrow>
                            append_pair U (append_pair U url ''code_challenge'' challenge)
                              ''code_challenge_method'' ''S256''
                        | None \<Rightarrow> url)
                  else url);
           forwarded = (if pv_forwarded_params config = [] then forwarded_params self
                        else pv_forwarded_params config);
           url = forward_loop U extra_params url forwarded
       in Ok (url_to_string U url)))"

definition token_exchange_params :: "ProviderConfig \<Rightarrow> string \<Rightarrow> string \<Rightarrow> string option \<Rightarrow> (string \<times> string) list" where
  "token_exchange_params config code redirect_uri code_verifier =
     (let params = [(''grant_type'', ''authorization_code''), (''code'', code),
                    (''redirect_uri'', redirect_uri), (''client_id'', pv_client_id config)]
      in case code_verifier of
           Some verifier \<Rightarrow> params @ [(''code_verifier'', verifier)]
         | None \<Rightarrow> params)"

definition token_refresh_params :: "ProviderConfig \<Rightarrow> string \<Rightarrow> (string \<times> string) list" where
  "token_refresh_params config refresh_token =
     [(''grant_type'', ''refresh_token''), (''refresh_token'', refresh_token),
      (''client_id'', pv_client_id config)]"

record TokenResponse =
  tr_access_token :: string
  tr_token_type :: string
  tr_expires_in :: "u64 option"
  tr_refresh_token :: "string option"
  tr_scope :: "string option"
  tr_id_token :: "string option"

record OAuthErrorResponse =
  oe_error :: string
  oe_error_description :: "string option"
  oe_error_uri :: "string option"

section \<open>Expansion of environment variables\<close>

lemma find_str_eq_None: "find_str p s = None \<longleftrightarrow> \<not> sublist p s"
proof (induction p s rule: find_str.induct)
  case (1 p)
  then show ?case by (simp add: sublist_def)
next
  case (2 p x xs)
  then show ?case
    by (auto simp: sublist_Cons_right prefix_def starts_with_iff)
qed

lemma find_str_eq_SomeD:
  "find_str p s = Some i \<Longrightarrow> p \<noteq> [] \<Longrightarrow> \<exists>u w. s = u @ p @ w \<and> i = length u \<and> \<not> sublist p u"
proof (induction p s arbitrary: i rule: find_str.induct)
  case (1 p)
  then show ?case by simp
next
  case (2 p x xs)
  show ?case
  proof (cases "starts_with p (x # xs)")
    case True
    with "2.prems" obtain r where "x # xs = [] @ p @ r" "i = length []" by (auto simp: starts_with_iff)
    with "2.prems"(2) show ?thesis by (intro exI [of _ "[]"] exI [of _ r]) simp
  next
    case False
    with "2.prems" obtain j where j: "i = Suc j" "find_str p xs = Some j" by auto
    with "2.IH" [OF False] "2.prems"(2) obtain u w
      where uw: "xs = u @ p @ w" "j = length u" "\<not> sublist p u" by blast
    with False have "\<not> sublist p (x # u)"
      by (auto simp: sublist_Cons_right prefix_def starts_with_iff) (metis append_Cons append_assoc)
    with uw j have "x # xs = (x # u) @ p @ w \<and> i = length (x # u) \<and> \<not> sublist p (x # u)" by simp
    then show ?thesis by blast
  qed
qed

lemma find_str_least: "find_str p s = Some i \<Longrightarrow> s = u @ p @ w \<Longrightarrow> i \<le> length u"
proof (induction p s arbitrary: i u rule: find_str.induct)
  case (1 p)
  then show ?case by (auto split: if_splits)
next
  case (2 p x xs)
  show ?case
  proof (cases u)
    case Nil
    with "2.prems" have "starts_with p (x # xs)" by (auto simp: starts_with_iff)
    with "2.prems"(1) show ?thesis by simp
  next
    case (Cons a u')
    with 2 show ?thesis by (cases "starts_with p (x # xs)") auto
  qed
qed

text \<open>
  One turn of the loop: the first reference, ended by the next closing brace, is cut out and the
  value of its variable put in its place.
\<close>

lemma expand_step:
  assumes i: "find_str ''${'' s = Some i" and j: "find_char (CHR ''}'') (drop i s) = Some j"
  obtains u n w where "s = u @ ''${'' @ n @ ''}'' @ w" and "CHR ''}'' \<notin> set n" and "\<not> sublist ''${'' u"
    and "expand_env_var env s =
      expand_env_var env (u @ (case env n of Some v \<Rightarrow> v | None \<Rightarrow> []) @ w)"
proof -
  obtain u t where u: "s = u @ ''${'' @ t" "i = length u" "\<not> sublist ''${'' u"
    using find_str_eq_SomeD [OF i] by auto
  then have "find_char (CHR ''}'') t \<noteq> None"
    using j by (auto simp del: find_char_eq_None)
  then obtain n w where n: "t = n @ CHR ''}'' # w" "CHR ''}'' \<notin> set n"
    by (metis find_char_eq_None split_list_first)
  with u j have "j = length n + 2" by simp
  with u n i j have "expand_env_var env s =
      expand_env_var env (u @ (case env n of Some v \<Rightarrow> v | None \<Rightarrow> []) @ w)"
    by (subst expand_env_var.simps) (simp add: eval_nat_numeral)
  with u n show thesis using that by simp
qed

definition env_plain :: "(string \<Rightarrow> string option) \<Rightarrow> bool" where
  "env_plain env \<longleftrightarrow> (\<forall>n v. env n = Some v \<longrightarrow> CHR ''$'' \<notin> set v)"

text \<open>A text with no reference left: no opening \<open>${\<close> is followed by a closing brace.\<close>

definition no_reference :: "string \<Rightarrow> bool" where
  "no_reference s \<longleftrightarrow> (\<forall>u t. s = u @ ''${'' @ t \<longrightarrow> CHR ''}'' \<notin> set t)"

lemma expand_env_var_returns:
  assumes env: "env_plain env"
  shows "\<exists>r. expand_env_var env s = Some r \<and> no_reference r"
proof (induction s rule: measure_induct_rule [of "\<lambda>s. count_list s (CHR ''$'')"])
  case (less s)
  show ?case
  proof (cases "find_str ''${'' s")
    case None
    then have "no_reference s" by (auto simp: find_str_eq_None no_reference_def sublist_def)
    with None show ?thesis by (subst expand_env_var.simps) simp
  next
    case (Some i)
    show ?thesis
    proof (cases "find_char (CHR ''}'') (drop i s)")
      case None
      have "CHR ''}'' \<notin> set t" if "s = u @ ''${'' @ t" for u t
      proof -
        have "i \<le> length u" using find_str_least [OF Some that] .
        then have "set t \<subseteq> set (drop i s)" using that by auto
        with None show ?thesis by auto
      qed
      then have "no_reference s" by (simp add: no_reference_def)
      with Some None show ?thesis
        by (subst expand_env_var.simps) (simp del: find_char_eq_None)
    next
      case (Some j)
      from expand_step [OF \<open>find_str ''${'' s = Some i\<close> this, of env] obtain u n w
        where s: "s = u @ ''${'' @ n @ ''}'' @ w"
          and step: "expand_env_var env s = expand_env_var env (u @ (case env n of Some v \<Rightarrow> v | None \<Rightarrow> []) @ w)"
        by metis
      have "CHR ''$'' \<notin> set (case env n of Some v \<Rightarrow> v | None \<Rightarrow> [])"
        using env by (auto simp: env_plain_def split: option.splits)
      then have "count_list (case env n of Some v \<Rightarrow> v | None \<Rightarrow> []) (CHR ''$'') = 0"
        by (simp add: count_list_0_iff)
      with s have "count_list (u @ (case env n of Some v \<Rightarrow> v | None \<Rightarrow> []) @ w) (CHR ''$'') < count_list s (CHR ''$'')"
        by simp
      from less [OF this] step show ?thesis by simp
    qed
  qed
qed

text \<open>
  Property C22. When no environment value contains a dollar sign, the expansion of a configured
  secret returns, for every text, and leaves no reference behind.
\<close>

theorem expand_env_var_terminates:
  assumes "env_plain env"
  shows "\<exists>r. expand_env_var env s = Some r \<and> no_reference r"
  using assms by (rule expand_env_var_returns)

definition sample_env :: "string \<Rightarrow> string option" where
  "sample_env n = (if n = ''KEY'' then Some ''s3cret'' else None)"

theorem expand_env_var_terminates_witness:
  "\<exists>r. expand_env_var sample_env ''a-${KEY}-${NONE}.'' = Some r \<and> no_reference r \<and> r = ''a-s3cret-.''"
proof -
  have "env_plain sample_env" by (auto simp: env_plain_def sample_env_def split: if_splits)
  from expand_env_var_terminates [OF this, of "''a-${KEY}-${NONE}.''"]
  obtain r where r: "expand_env_var sample_env ''a-${KEY}-${NONE}.'' = Some r" "no_reference r" by blast
  moreover have "r = ''a-s3cret-.''"
    using r(1) by (simp add: expand_env_var.simps sample_env_def starts_with_def)
  ultimately show ?thesis by blast
qed

text \<open>
  Note. The condition is needed: a variable whose value mentions the variable itself makes
  the expansion run forever.
\<close>

theorem expand_env_var_diverges:
  assumes "env ''A'' = Some ''${A}''"
  shows "expand_env_var env ''${A}'' = None"
proof -
  have "\<not> (env ''A'' = Some ''${A}'' \<and> s = ''${A}'')" if "expand_env_var env s = Some r" for env s r
    by (rule expand_env_var.raw_induct [of "\<lambda>env s r. \<not> (env ''A'' = Some ''${A}'' \<and> s = ''${A}'')", OF _ that])
      (auto simp: starts_with_def split: option.splits, blast)
  with assms show ?thesis by fastforce
qed

theorem expand_env_var_diverges_witness:
  "expand_env_var (\<lambda>n. if n = ''A'' then Some ''${A}'' else None) ''${A}'' = None"
  by (rule expand_env_var_diverges) simp

section \<open>The authorization URL\<close>

definition pkce_pairs :: "BuiltinProfile \<Rightarrow> ProviderConfig \<Rightarrow> string option \<Rightarrow> (string \<times> string) list" where
  "pkce_pairs self config challenge =
     (if pv_pkce config \<and> supports_pkce self
      then (case challenge of None \<Rightarrow> []
            | Some c \<Rightarrow> [(''code_challenge'', c), (''code_challenge_method'', ''S256'')])
      else [])"

definition scope_pairs :: "BuiltinProfile \<Rightarrow> ProviderConfig \<Rightarrow> (string \<times> string) list" where
  "scope_pairs self config =
     (let scopes = (if pv_scopes config = [] then default_scopes self else pv_scopes config)
      in if scopes = [] then [] else [(''scope'', join_str '' '' scopes)])"

definition forwarded_pairs :: "BuiltinProfile \<Rightarrow> ProviderConfig \<Rightarrow> (string \<rightharpoonup> string) \<Rightarrow> (string \<times> string) list" where
  "forwarded_pairs self config extra =
     [(p, v). p \<leftarrow> (if pv_forwarded_params config = [] then forwarded_params self else pv_forwarded_params config),
              v \<leftarrow> (case extra p of None \<Rightarrow> [] | Some v \<Rightarrow> [v])]"

lemma forward_loop_pairs:
  assumes "url_laws U pairs base"
  shows "pairs (forward_loop U extra u ps) =
      pairs u @ [(p, v). p \<leftarrow> ps, v \<leftarrow> (case extra p of None \<Rightarrow> [] | Some v \<Rightarrow> [v])] \<and>
    base (forward_loop U extra u ps) = base u"
  using assms
  by (induction ps arbitrary: u) (auto simp: url_laws_def split: option.splits)

text \<open>
  The location of the redirect is the provider's endpoint with exactly the documented parameters
  appended, in order; of the client's own parameters only the configured ones pass through.
\<close>

lemma build_auth_url_query:
  assumes U: "url_laws U pairs base"
    and ok: "build_auth_url U self config redirect_uri state challenge extra = Ok location"
  obtains endpoint u0 u where "auth_url self config = Ok endpoint" and "url_parse U endpoint = Ok u0"
    and "url_parse U location = Ok u" and "base u = base u0"
    and "pairs u = pairs u0 @
      [(''client_id'', pv_client_id config), (''redirect_uri'', redirect_uri),
       (''response_type'', ''code''), (''state'', state)] @
      scope_pairs self config @ pkce_pairs self config challenge @ forwarded_pairs self config extra"
proof -
  from ok obtain endpoint u0 where e: "auth_url self config = Ok endpoint" "url_parse U endpoint = Ok u0"
    by (auto simp: build_auth_url_def)
  with ok U show thesis
    using that [OF e]
    by (auto simp: build_auth_url_def Let_def url_laws_def forward_loop_pairs [OF U] scope_pairs_def
        pkce_pairs_def forwarded_pairs_def split: option.splits if_splits)
qed

lemma forwarded_pairs_listed:
  "(p, v) \<in> set (forwarded_pairs self config extra) \<Longrightarrow>
     extra p = Some v \<and> p \<in> set (if pv_forwarded_params config = [] then forwarded_params self else pv_forwarded_params config)"
  by (auto simp: forwarded_pairs_def split: option.splits if_splits)

text \<open>
  Every provider error is answered with a status that matches its class: each error is a client or a
  server error, and never both.
\<close>

lemma sso_error_classes: "sso_is_client_error e \<noteq> sso_is_server_error e"
  by (cases e) (simp_all add: sso_is_client_error_def sso_is_server_error_def status_4xx_def status_5xx_def)

end
