(* ===== verification/Sso_Transaction.thy ===== *)
theory Sso_Transaction
  imports Sso_Config
begin

text \<open>
  The transaction of an OAuth flow, \<open>crates/icebreaker-sso/src/transaction/state.rs\<close> and
  \<open>cookie.rs\<close>: the state kept in the browser between the start of the flow and the callback, its
  signed encoding, the \<open>Set-Cookie\<close> values, and reading it back from a \<open>Cookie\<close> header.

  Parameters: \<open>C\<close> has SHA-256 and HMAC, \<open>W\<close> is the URL-safe base64 engine without padding, \<open>M\<close> the
  MessagePack serialisation of the state, \<open>F\<close> renders a cookie of the cookie library. A clock
  reading is \<open>None\<close> when the system time lies before the Unix epoch, and a random draw is an
  argument. The theory shows that a state comes back from its cookie, among other cookies, until it
  expires, and that a cookie that decodes carries the service's signature.
\<close>

section \<open>State\<close>

record TransactionState =
  ts_nonce :: string
  ts_provider_id :: string
  ts_redirect_uri :: string
  ts_code_verifier :: "string option"
  ts_return_state :: "string option"
  ts_client_redirect_uri :: "string option"
  ts_expires_at :: u64

text \<open>\<open>SystemTime::now().duration_since(UNIX_EPOCH).map(|d| d.as_secs()).unwrap_or(0)\<close>.\<close>

definition unix_now :: "u64 option \<Rightarrow> u64" where
  "unix_now clock = (case clock of Some s \<Rightarrow> s | None \<Rightarrow> 0)"

definition TransactionState_new :: "string \<Rightarrow> string \<Rightarrow> string \<Rightarrow> u64 \<Rightarrow> u64 option \<Rightarrow> TransactionState" where
  "TransactionState_new nonce provider_id redirect_uri ttl_seconds clock =
     \<lparr>ts_nonce = nonce, ts_provider_id = provider_id, ts_redirect_uri = redirect_uri,
      ts_code_verifier = None, ts_return_state = None, ts_client_redirect_uri = None,
      ts_expires_at = unix_now clock + ttl_seconds\<rparr>"

definition with_code_verifier :: "TransactionState \<Rightarrow> string \<Rightarrow> TransactionState" where
  "with_code_verifier s v = s\<lparr>ts_code_verifier := Some v\<rparr>"
definition with_return_state :: "TransactionState \<Rightarrow> string \<Rightarrow> TransactionState" where
  "with_return_state s r = s\<lparr>ts_return_state := Some r\<rparr>"
definition with_client_redirect_uri :: "TransactionState \<Rightarrow> string \<Rightarrow> TransactionState" where
  "with_client_redirect_uri s u = s\<lparr>ts_client_redirect_uri := Some u\<rparr>"

definition ts_is_expired :: "TransactionState \<Rightarrow> u64 option \<Rightarrow> bool" where
  "ts_is_expired s clock \<longleftrightarrow> unix_now clock \<ge> ts_expires_at s"

text \<open>The argument \<open>bs\<close> is the 32 bytes that \<open>rand::fill\<close> writes.\<close>

definition generate_nonce :: "base64_lib \<Rightarrow> bytes \<Rightarrow> string" where
  "generate_nonce W bs = b64_encode W bs"

definition generate_pkce :: "crypto_lib \<Rightarrow> base64_lib \<Rightarrow> bytes \<Rightarrow> string \<times> string" where
  "generate_pkce C W bs =
     (let verifier = b64_encode W bs;
          challenge = b64_encode W (sha256 C (as_bytes verifier))
      in (verifier, challenge))"

definition verify_nonce :: "TransactionState \<Rightarrow> string \<Rightarrow> bool" where
  "verify_nonce s state \<longleftrightarrow> as_bytes (ts_nonce s) = as_bytes state"

section \<open>Cookies\<close>

record CookieManager =
  cm_name :: string
  cm_hmac_key :: bytes
  cm_domain :: "string option"
  cm_path :: string
  cm_secure :: bool
  cm_same_site :: cookie_same_site

definition CookieManager_new :: "crypto_lib \<Rightarrow> CookieConfig \<Rightarrow> CookieManager" where
  "CookieManager_new C config =
     \<lparr>cm_name = ck_name config, cm_hmac_key = sha256 C (as_bytes (ck_secret_key config)),
      cm_domain = ck_domain config, cm_path = ck_path config, cm_secure = ck_secure config,
      cm_same_site = same_site_into (ck_same_site config)\<rparr>"

definition cookie_encode :: "crypto_lib \<Rightarrow> base64_lib \<Rightarrow> TransactionState serde_lib \<Rightarrow> CookieManager \<Rightarrow>
    TransactionState \<Rightarrow> string sresult" where
  "cookie_encode C W M self state =
     bindR (map_err from_rmp_encode (ser M state)) (\<lambda>data.
     bindR (map_err (\<lambda>e. SsoCryptoError (''hmac init failed: '' @ e)) (hmac_sha256 C (cm_hmac_key self) data))
       (\<lambda>signature. Ok (b64_encode W (signature @ data))))"

definition cookie_decode :: "crypto_lib \<Rightarrow> base64_lib \<Rightarrow> TransactionState serde_lib \<Rightarrow> CookieManager \<Rightarrow>
    string \<Rightarrow> u64 option \<Rightarrow> TransactionState sresult" where
  "cookie_decode C W M self cookie_value clock =
     bindR (map_err (\<lambda>e. SsoSerializationError (''base64 decode failed: '' @ e)) (b64_decode W cookie_value))
       (\<lambda>combined.
     if length combined < 32 then Err TransactionTampered
     else let signature = take 32 combined; data = drop 32 combined in
     bindR (map_err (\<lambda>e. SsoCryptoError (''hmac init failed: '' @ e)) (hmac_sha256 C (cm_hmac_key self) data))
       (\<lambda>expected.
     if signature \<noteq> expected then Err TransactionTampered
     else
     bindR (map_err from_rmp_decode (de M data)) (\<lambda>state.
     if ts_is_expired state clock then Err TransactionExpired else Ok state)))"

text \<open>A cookie of the cookie library, as its builder is called.\<close>

record cookie =
  co_name :: string
  co_value :: string
  co_path :: string
  co_http_only :: bool
  co_same_site :: cookie_same_site
  co_secure :: bool
  co_domain :: "string option"
  co_max_age :: "int option"

definition transaction_cookie :: "CookieManager \<Rightarrow> string \<Rightarrow> cookie" where
  "transaction_cookie self value =
     \<lparr>co_name = cm_name self, co_value = value, co_path = cm_path self, co_http_only = True,
      co_same_site = cm_same_site self, co_secure = cm_secure self, co_domain = cm_domain self,
      co_max_age = None\<rparr>"

definition build_set_cookie :: "crypto_lib \<Rightarrow> base64_lib \<Rightarrow> TransactionState serde_lib \<Rightarrow> (cookie \<Rightarrow> string) \<Rightarrow>
    CookieManager \<Rightarrow> TransactionState \<Rightarrow> u64 option \<Rightarrow> string sresult" where
  "build_set_cookie C W M F self state clock =
     bindR (cookie_encode C W M self state) (\<lambda>value.
       let cookie = transaction_cookie self value; now = unix_now clock in
       Ok (F (if ts_expires_at state > now
              then cookie\<lparr>co_max_age := Some (sint (ts_expires_at state - now))\<rparr>
              else cookie)))"

definition build_clear_cookie :: "(cookie \<Rightarrow> string) \<Rightarrow> CookieManager \<Rightarrow> string" where
  "build_clear_cookie F self = F ((transaction_cookie self [])\<lparr>co_max_age := Some 0\<rparr>)"

fun extract_loop :: "(string \<Rightarrow> TransactionState sresult) \<Rightarrow> string \<Rightarrow> string list \<Rightarrow> TransactionState sresult" where
  "extract_loop dec wanted [] = Err TransactionExpired"
| "extract_loop dec wanted (c # cs) =
     (case split_once (CHR ''='') (trim c) of
        Some (n, v) \<Rightarrow> if trim n = wanted then dec (trim v) else extract_loop dec wanted cs
      | None \<Rightarrow> extract_loop dec wanted cs)"

definition extract_from_cookie_header :: "crypto_lib \<Rightarrow> base64_lib \<Rightarrow> TransactionState serde_lib \<Rightarrow>
    CookieManager \<Rightarrow> string \<Rightarrow> u64 option \<Rightarrow> TransactionState sresult" where
  "extract_from_cookie_header C W M self cookie_header clock =
     extract_loop (\<lambda>v. cookie_decode C W M self v clock) (cm_name self) (split_on (CHR '';'') cookie_header)"

section \<open>Encoding and decoding\<close>

text \<open>
  What the code relies on: a SHA-256 MAC has 32 bytes; the text of the base64 engine has no white
  space and no semicolon.
\<close>

definition mac_laws :: "crypto_lib \<Rightarrow> bool" where
  "mac_laws C \<longleftrightarrow> (\<forall>k m t. hmac_sha256 C k m = Ok t \<longrightarrow> length t = 32)"

definition cookie_char :: "char \<Rightarrow> bool" where
  "cookie_char c \<longleftrightarrow> \<not> is_ws c \<and> c \<noteq> CHR '';''"

definition cookie_safe :: "base64_lib \<Rightarrow> bool" where
  "cookie_safe W \<longleftrightarrow> (\<forall>x. list_all cookie_char (b64_encode W x))"

lemma cookie_decode_Ok_iff:
  "cookie_decode C W M self v clock = Ok st \<longleftrightarrow>
     (\<exists>mac data. b64_decode W v = Ok (mac @ data) \<and> length mac = 32 \<and>
        hmac_sha256 C (cm_hmac_key self) data = Ok mac \<and> de M data = Ok st \<and>
        unix_now clock < ts_expires_at st)"
proof
  assume "cookie_decode C W M self v clock = Ok st"
  then obtain combined where *: "b64_decode W v = Ok combined" "32 \<le> length combined"
      "hmac_sha256 C (cm_hmac_key self) (drop 32 combined) = Ok (take 32 combined)"
      "de M (drop 32 combined) = Ok st" "unix_now clock < ts_expires_at st"
    by (auto simp: cookie_decode_def ts_is_expired_def Let_def split: if_splits)
  then show "\<exists>mac data. b64_decode W v = Ok (mac @ data) \<and> length mac = 32 \<and>
        hmac_sha256 C (cm_hmac_key self) data = Ok mac \<and> de M data = Ok st \<and>
        unix_now clock < ts_expires_at st"
    by (intro exI [of _ "take 32 combined"] exI [of _ "drop 32 combined"]) simp
qed (auto simp: cookie_decode_def ts_is_expired_def Let_def simp del: bindR_eq_Inr)

text \<open>
  What a cookie header has to hold for its transaction to be believed: a cookie of the manager's name
  whose value decodes to a MAC of 32 bytes and data, where the MAC is the HMAC of the data under the
  manager's key, the data is the transaction, and the transaction is not expired.
\<close>

definition signed_transaction :: "crypto_lib \<Rightarrow> base64_lib \<Rightarrow> TransactionState serde_lib \<Rightarrow> CookieManager \<Rightarrow>
    string \<Rightarrow> u64 option \<Rightarrow> TransactionState \<Rightarrow> bool" where
  "signed_transaction C W M self header clock st \<longleftrightarrow>
     (\<exists>part n v mac data. part \<in> set (split_on (CHR '';'') header) \<and>
        trim part = n @ CHR ''='' # v \<and> CHR ''='' \<notin> set n \<and> trim n = cm_name self \<and>
        b64_decode W (trim v) = Ok (mac @ data) \<and> length mac = 32 \<and>
        hmac_sha256 C (cm_hmac_key self) data = Ok mac \<and> de M data = Ok st \<and>
        unix_now clock < ts_expires_at st)"

lemma extract_loop_OkD:
  "extract_loop dec wanted parts = Ok st \<Longrightarrow>
   \<exists>part n v. part \<in> set parts \<and> trim part = n @ CHR ''='' # v \<and> CHR ''='' \<notin> set n \<and> trim n = wanted \<and>
     dec (trim v) = Ok st"
proof (induction parts)
  case (Cons c cs)
  show ?case
  proof (cases "\<exists>n v. split_once (CHR ''='') (trim c) = Some (n, v) \<and> trim n = wanted")
    case True
    then obtain n v where nv: "split_once (CHR ''='') (trim c) = Some (n, v)" "trim n = wanted" by blast
    with Cons.prems have "dec (trim v) = Ok st" by simp
    moreover from nv(1) have "trim c = n @ CHR ''='' # v" "CHR ''='' \<notin> set n"
      unfolding split_once_eq_Some by blast+
    ultimately show ?thesis using nv(2) by (metis list.set_intros(1))
  next
    case False
    with Cons.prems have "extract_loop dec wanted cs = Ok st"
      by (cases "split_once (CHR ''='') (trim c)") (auto split: if_splits)
    from Cons.IH [OF this] show ?thesis by (metis list.set_intros(2))
  qed
qed simp

lemma extract_signed:
  assumes "extract_from_cookie_header C W M self header clock = Ok st"
  shows "signed_transaction C W M self header clock st"
proof -
  from extract_loop_OkD [OF assms [unfolded extract_from_cookie_header_def]] obtain part n v where
    "part \<in> set (split_on (CHR '';'') header)" "trim part = n @ CHR ''='' # v" "CHR ''='' \<notin> set n"
    "trim n = cm_name self" "cookie_decode C W M self (trim v) clock = Ok st" by blast
  then show ?thesis unfolding signed_transaction_def cookie_decode_Ok_iff by blast
qed

lemma decode_encode:
  assumes "mac_laws C" and "base64_laws W" and "serde_laws M"
    and "cookie_encode C W M self st = Ok v" and "unix_now clock < ts_expires_at st"
  shows "cookie_decode C W M self v clock = Ok st"
  using assms unfolding cookie_decode_Ok_iff
  by (fastforce simp: cookie_encode_def mac_laws_def base64_laws_def serde_laws_def)

lemma cookie_encode_chars:
  "cookie_safe W \<Longrightarrow> cookie_encode C W M self st = Ok v \<Longrightarrow> list_all cookie_char v"
  by (auto simp: cookie_encode_def cookie_safe_def)

section \<open>Reading the Cookie header\<close>

lemma trim_id [simp]: "list_all (\<lambda>c. \<not> is_ws c) s \<Longrightarrow> trim s = s"
proof -
  assume s: "list_all (\<lambda>c. \<not> is_ws c) s"
  then have "dropWhile is_ws s = s" by (cases s) auto
  moreover from s have "dropWhile is_ws (rev s) = rev s" by (cases s rule: rev_cases) auto
  ultimately show ?thesis by (simp add: trim_def)
qed

lemma trim_space [simp]: "trim (CHR '' '' # s) = trim s"
  by (simp add: trim_def is_ws_def)

lemma split_on_append: "c \<notin> set s \<Longrightarrow> split_on c (s @ c # r) = s # split_on c r"
  by (induction s) auto

lemma split_on_join:
  "ss \<noteq> [] \<Longrightarrow> \<forall>s \<in> set ss. c \<notin> set s \<Longrightarrow> split_on c (join_str [c] ss) = ss"
  by (induction "[c]" ss rule: join_str.induct) (auto simp: split_on_append split_on_notin)

text \<open>The cookie of a header part, if the part is for another name.\<close>

definition other_cookie :: "string \<Rightarrow> string \<Rightarrow> bool" where
  "other_cookie wanted part \<longleftrightarrow> CHR '';'' \<notin> set part \<and>
     (case split_once (CHR ''='') (trim part) of None \<Rightarrow> True | Some (n, v) \<Rightarrow> trim n \<noteq> wanted)"

lemma extract_loop_skip:
  "list_all (other_cookie wanted) others \<Longrightarrow>
   extract_loop dec wanted (others @ rest) = extract_loop dec wanted rest"
  by (induction others) (auto simp: other_cookie_def split: option.splits)

text \<open>A cookie as the browser sends it, directly or after the customary space.\<close>

definition cookie_part :: "string \<Rightarrow> string \<Rightarrow> string \<Rightarrow> bool" where
  "cookie_part wanted value part \<longleftrightarrow>
     part = wanted @ ''='' @ value \<or> part = '' '' @ wanted @ ''='' @ value"

definition cookie_name_ok :: "string \<Rightarrow> bool" where
  "cookie_name_ok n \<longleftrightarrow> list_all cookie_char n \<and> CHR ''='' \<notin> set n"

lemma cookie_chars_no_ws: "list_all cookie_char s \<Longrightarrow> list_all (\<lambda>c. \<not> is_ws c) s \<and> CHR '';'' \<notin> set s"
  by (auto simp: list_all_iff cookie_char_def)

lemma extract_loop_found:
  assumes part: "cookie_part wanted value part" and "cookie_name_ok wanted" and "list_all cookie_char value"
  shows "extract_loop dec wanted (part # rest) = dec value \<and> CHR '';'' \<notin> set part"
proof -
  have ws: "list_all (\<lambda>c. \<not> is_ws c) wanted" "list_all (\<lambda>c. \<not> is_ws c) value"
      "CHR '';'' \<notin> set (wanted @ value)"
    using assms(2, 3) cookie_chars_no_ws unfolding cookie_name_ok_def by auto
  then have "trim (wanted @ ''='' @ value) = wanted @ ''='' @ value"
    by (intro trim_id) (simp add: is_ws_def)
  then have "trim part = wanted @ ''='' @ value"
    using part by (auto simp: cookie_part_def)
  moreover have "split_once (CHR ''='') (wanted @ CHR ''='' # value) = Some (wanted, value)"
    using assms(2) by (simp add: split_once_eq_Some cookie_name_ok_def)
  ultimately show ?thesis
    using ws part by (auto simp: cookie_part_def)
qed

lemma cookie_extract_roundtrip:
  assumes "mac_laws C" and "base64_laws W" and "cookie_safe W" and "serde_laws M"
    and "cookie_name_ok (cm_name self)" and enc: "cookie_encode C W M self st = Ok value"
    and "unix_now clock < ts_expires_at st"
    and part: "cookie_part (cm_name self) value part"
    and others: "list_all (other_cookie (cm_name self)) others" "list_all (\<lambda>s. CHR '';'' \<notin> set s) later"
  shows "extract_from_cookie_header C W M self (join_str '';'' (others @ part # later)) clock = Ok st"
proof -
  have chars: "list_all cookie_char value" using assms(3) enc by (rule cookie_encode_chars)
  note found = extract_loop_found [OF part assms(5) chars]
  have "split_on (CHR '';'') (join_str '';'' (others @ part # later)) = others @ part # later"
    using others found by (intro split_on_join) (auto simp: list_all_iff other_cookie_def)
  then have "extract_from_cookie_header C W M self (join_str '';'' (others @ part # later)) clock =
      cookie_decode C W M self value clock"
    using others(1) found [THEN conjunct1]
    by (simp add: extract_from_cookie_header_def extract_loop_skip del: extract_loop.simps)
  with decode_encode [OF assms(1, 2, 4) enc assms(7)] show ?thesis by simp
qed

section \<open>Properties\<close>

text \<open>A base64 engine without white space: two letters for each byte.\<close>

definition nibble_chars :: string where
  "nibble_chars = ''ABCDEFGHIJKLMNOP''"

definition nibble_encode :: "bytes \<Rightarrow> string" where
  "nibble_encode bs = concat (map (\<lambda>b. [nibble_chars ! (unat b div 16), nibble_chars ! (unat b mod 16)]) bs)"

fun nibble_decode :: "string \<Rightarrow> (string, bytes) result" where
  "nibble_decode [] = Ok []"
| "nibble_decode [c] = Err ''odd length''"
| "nibble_decode (c # d # s) =
     (case (find_char c nibble_chars, find_char d nibble_chars) of
        (Some i, Some j) \<Rightarrow> bindR (nibble_decode s) (\<lambda>bs. Ok (of_nat (16 * i + j) # bs))
      | _ \<Rightarrow> Err ''invalid byte'')"

definition nibble_base64 :: base64_lib where
  "nibble_base64 = \<lparr>b64_encode = nibble_encode, b64_decode = nibble_decode\<rparr>"

lemma nibble_chars_nth:
  assumes "i < 16"
  shows "find_char (nibble_chars ! i) nibble_chars = Some i" and "cookie_char (nibble_chars ! i)"
proof -
  have "i \<in> set [0, 1, 2, 3, 4, 5, 6, 7, 8, 9, 10, 11, 12, 13, 14, 15]" using assms by (simp, presburger)
  then show "find_char (nibble_chars ! i) nibble_chars = Some i" "cookie_char (nibble_chars ! i)"
    by (auto simp: nibble_chars_def cookie_char_def is_ws_def)
qed

lemma nibble_roundtrip: "nibble_decode (nibble_encode bs) = Ok bs"
proof (induction bs)
  case Nil
  then show ?case by (simp add: nibble_encode_def)
next
  case (Cons b bs)
  have "unat b < 256" using unsigned_less [of b] by simp
  then have "unat b div 16 < 16" by (simp add: div_less_iff_less_mult)
  with Cons show ?case
    by (simp add: nibble_encode_def nibble_chars_nth)
qed

lemma nibble_base64_laws: "base64_laws nibble_base64" "cookie_safe nibble_base64"
proof -
  show "base64_laws nibble_base64" by (simp add: base64_laws_def nibble_base64_def nibble_roundtrip)
  have "list_all cookie_char (nibble_encode bs)" for bs
  proof (induction bs)
    case Nil
    then show ?case by (simp add: nibble_encode_def)
  next
    case (Cons b bs)
    have "unat b < 256" using unsigned_less [of b] by simp
    then have "unat b div 16 < 16" by (simp add: div_less_iff_less_mult)
    with Cons show ?case by (simp add: nibble_encode_def nibble_chars_nth)
  qed
  then show "cookie_safe nibble_base64" by (simp add: cookie_safe_def nibble_base64_def)
qed

text \<open>
  Property C32. Until it expires, a transaction comes back from the \<open>Cookie\<close> header: the state that was
  encoded is what \<open>extract_from_cookie_header\<close> returns, wherever the browser puts the cookie among
  others.
\<close>

theorem cookie_roundtrip:
  assumes "mac_laws C" and "base64_laws W" and "cookie_safe W" and "serde_laws M"
    and "cookie_name_ok (cm_name self)" and "cookie_encode C W M self st = Ok value"
    and "unix_now clock < ts_expires_at st" and "cookie_part (cm_name self) value part"
    and "list_all (other_cookie (cm_name self)) others" and "list_all (\<lambda>s. CHR '';'' \<notin> set s) later"
  shows "extract_from_cookie_header C W M self (join_str '';'' (others @ part # later)) clock = Ok st"
  using assms by (rule cookie_extract_roundtrip)

definition mac32 :: crypto_lib where
  "mac32 = plain_crypto\<lparr>hmac_sha256 := (\<lambda>k m. Ok (take 32 (k @ m @ replicate 32 0)))\<rparr>"

definition sample_transaction :: TransactionState where
  "sample_transaction = with_client_redirect_uri
     (TransactionState_new ''n1'' ''google'' ''https://sso/google/callback'' 3600 (Some 100)) ''https://app/''"

definition one_state_serde :: "TransactionState \<Rightarrow> TransactionState serde_lib" where
  "one_state_serde s = \<lparr>ser = (\<lambda>t. if t = s then Ok [1, 2] else Err ''unsupported''),
     de = (\<lambda>b. if b = [1, 2] then Ok s else Err ''invalid'')\<rparr>"

definition sample_manager :: CookieManager where
  "sample_manager = CookieManager_new mac32 (CookieConfig_default\<lparr>ck_secret_key := ''k''\<rparr>)"

lemma mac32_laws: "mac_laws mac32" "box_laws mac32"
  using plain_crypto_laws by (auto simp: mac_laws_def mac32_def box_laws_def)

lemma one_state_serde_laws: "serde_laws (one_state_serde s)"
  by (simp add: serde_laws_def one_state_serde_def)

lemma sample_manager_name: "cookie_name_ok (cm_name sample_manager)"
  by (simp add: sample_manager_def CookieManager_new_def CookieConfig_default_def default_cookie_name_def
      cookie_name_ok_def cookie_char_def is_ws_def)

theorem cookie_roundtrip_witness:
  "\<exists>value. cookie_encode mac32 nibble_base64 (one_state_serde sample_transaction) sample_manager
       sample_transaction = Ok value \<and>
     extract_from_cookie_header mac32 nibble_base64 (one_state_serde sample_transaction) sample_manager
       (join_str '';'' ([''a=b''] @ ('' icebreaker_sso='' @ value) # ['' c=d''])) (Some 200) = Ok sample_transaction"
proof -
  let ?M = "one_state_serde sample_transaction"
  obtain v where v: "cookie_encode mac32 nibble_base64 ?M sample_manager sample_transaction = Ok v"
    by (simp add: cookie_encode_def one_state_serde_def mac32_def)
  have "unix_now (Some 200) < ts_expires_at sample_transaction"
    by (simp add: sample_transaction_def TransactionState_new_def with_client_redirect_uri_def unix_now_def)
  moreover have "cookie_part (cm_name sample_manager) v ('' icebreaker_sso='' @ v)"
    "list_all (other_cookie (cm_name sample_manager)) [''a=b'']"
    by (simp_all add: cookie_part_def sample_manager_def CookieManager_new_def CookieConfig_default_def
        default_cookie_name_def other_cookie_def trim_def is_ws_def)
  ultimately have "extract_from_cookie_header mac32 nibble_base64 ?M sample_manager
      (join_str '';'' ([''a=b''] @ ('' icebreaker_sso='' @ v) # ['' c=d''])) (Some 200) = Ok sample_transaction"
    by (intro cookie_roundtrip [OF mac32_laws(1) nibble_base64_laws one_state_serde_laws sample_manager_name v]) auto
  with v show ?thesis by blast
qed

text \<open>
  Note. A cookie that decodes carries the service's own signature over its data, and its state
  has not expired; a value whose signature does not match the data is reported as tampered with,
  whatever the data is.
\<close>

theorem cookie_integrity:
  "(cookie_decode C W M self v clock = Ok st \<longleftrightarrow>
      (\<exists>mac data. b64_decode W v = Ok (mac @ data) \<and> length mac = 32 \<and>
         hmac_sha256 C (cm_hmac_key self) data = Ok mac \<and> de M data = Ok st \<and>
         unix_now clock < ts_expires_at st)) \<and>
   ((\<exists>mac data good. b64_decode W v = Ok (mac @ data) \<and> length mac = 32 \<and>
       hmac_sha256 C (cm_hmac_key self) data = Ok good \<and> good \<noteq> mac) \<longrightarrow>
     cookie_decode C W M self v clock = Err TransactionTampered)"
  by (auto simp: cookie_decode_Ok_iff) (auto simp: cookie_decode_def Let_def)

text \<open>
  Note. A configuration without a cookie section signs its transactions with a key anyone can
  compute: the hash of the empty secret.
\<close>

theorem default_cookie_key_is_public:
  "cm_hmac_key (CookieManager_new C CookieConfig_default) = sha256 C []"
  by (simp add: CookieManager_new_def CookieConfig_default_def as_bytes_def)

end
