(* ===== verification/Sso_Endpoints.thy ===== *)
theory Sso_Endpoints
  imports Sso_Transaction Http
begin

text \<open>
  The SSO service and its endpoints, \<open>crates/icebreaker-sso/src/lib.rs\<close>, \<open>serve.rs\<close> and
  \<open>endpoints/\<close>: starting an OAuth flow, its callback, the refresh of a token, and the routing of
  requests to them.

  Parameters: \<open>L\<close> bundles the libraries (cryptography, base64, the serialisers, URLs, cookies, header
  values, JSON), \<open>net\<close> is the HTTP client's \<open>post\<close> of a form to a token endpoint. A clock gives the
  readings of one request, a random source its draws. The theory shows what a successful callback
  has checked and what the token it hands out contains, that a flow that was started completes, and
  how refresh and the error responses behave.
\<close>

section \<open>Libraries and state\<close>

record ('h, 'u) sso_libs =
  sl_crypto :: crypto_lib
  sl_base64 :: base64_lib
  sl_base64_url :: base64_lib
  sl_payload_serde :: "TokenPayload serde_lib"
  sl_token_serde :: "SealedToken serde_lib"
  sl_state_serde :: "TransactionState serde_lib"
  sl_headers :: "'h header_lib"
  sl_url :: "'u url_lib"
  sl_cookie_string :: "cookie \<Rightarrow> string"
  sl_urldecode :: "string \<Rightarrow> string option"
  sl_show_status :: "u16 \<Rightarrow> string"
  sl_parse_oauth_error :: "string \<Rightarrow> (string, OAuthErrorResponse) result"
  sl_json_object :: "string \<Rightarrow> string \<Rightarrow> string"

text \<open>
  An answer of a token endpoint: its status, the body as text, and the body parsed as a
  \<open>TokenResponse\<close>.
\<close>

record token_reply =
  ht_status :: u16
  ht_text :: "(string, string) result"
  ht_json :: "(string, TokenResponse) result"

type_synonym token_net = "string \<Rightarrow> (string \<times> string) list \<Rightarrow> (string, token_reply) result"

record sso_clock =
  sk_state :: "u64 option"
  sk_cookie :: "u64 option"
  sk_seal :: "u64 option"
  sk_oauth :: "u64 option"

record start_rng =
  sr_nonce :: bytes
  sr_pkce :: bytes

record SsoService =
  sv_config :: SsoConfig
  sv_crypto :: TokenCrypto
  sv_cookie_manager :: CookieManager

text \<open>\<open>client\<close> is the outcome of building the HTTP client.\<close>

definition SsoService_new :: "('h, 'u) sso_libs \<Rightarrow> (string, unit) result \<Rightarrow> SsoConfig \<Rightarrow> SsoService sresult" where
  "SsoService_new L client config =
     bindR (map_err (\<lambda>e. SsoConfigError (''invalid secret key: '' @ to_string e))
              (keypair_from_base64 (sl_crypto L) (sl_base64 L) (cc_secret_key (sc_crypto config)))) (\<lambda>keypair.
       let versioned = VersionedKeypair_new (cc_key_id (sc_crypto config)) keypair 1;
           key_store = with_primary versioned;
           crypto = TokenCrypto_new key_store;
           cookie_manager = CookieManager_new (sl_crypto L) (sc_cookie config)
       in bindR (map_err (\<lambda>e. SsoConfigError (''failed to create http client: '' @ e)) client) (\<lambda>_.
            Ok \<lparr>sv_config = config, sv_crypto = crypto, sv_cookie_manager = cookie_manager\<rparr>))"

section \<open>Query parameters\<close>

definition url_decode :: "('h, 'u) sso_libs \<Rightarrow> string \<Rightarrow> string" where
  "url_decode L s = (case sl_urldecode L s of Some t \<Rightarrow> t | None \<Rightarrow> [])"

record StartParams =
  stp_redirect_uri :: "string option"
  stp_state :: "string option"
  stp_extra :: "string \<rightharpoonup> string"

fun start_params_loop :: "('h, 'u) sso_libs \<Rightarrow> StartParams \<Rightarrow> string list \<Rightarrow> StartParams" where
  "start_params_loop L p [] = p"
| "start_params_loop L p (pair # ps) =
     (case split_once (CHR ''='') pair of
        Some (k, v) \<Rightarrow>
          (let key = url_decode L k; value = url_decode L v in
           start_params_loop L
             (if key = ''redirect_uri'' then p\<lparr>stp_redirect_uri := Some value\<rparr>
              else if key = ''state'' then p\<lparr>stp_state := Some value\<rparr>
              else p\<lparr>stp_extra := (stp_extra p)(key \<mapsto> value)\<rparr>) ps)
      | None \<Rightarrow> start_params_loop L p ps)"

definition start_from_query :: "('h, 'u) sso_libs \<Rightarrow> string option \<Rightarrow> StartParams" where
  "start_from_query L query =
     (let p = \<lparr>stp_redirect_uri = None, stp_state = None, stp_extra = Map.empty\<rparr> in
      case query of Some q \<Rightarrow> start_params_loop L p (split_on (CHR ''&'') q) | None \<Rightarrow> p)"

record CallbackParams =
  cbp_code :: "string option"
  cbp_state :: "string option"
  cbp_error :: "string option"
  cbp_error_description :: "string option"

fun callback_params_loop :: "('h, 'u) sso_libs \<Rightarrow> CallbackParams \<Rightarrow> string list \<Rightarrow> CallbackParams" where
  "callback_params_loop L p [] = p"
| "callback_params_loop L p (pair # ps) =
     (case split_once (CHR ''='') pair of
        Some (k, v) \<Rightarrow>
          (let key = url_decode L k; value = url_decode L v in
           callback_params_loop L
             (if key = ''code'' then p\<lparr>cbp_code := Some value\<rparr>
              else if key = ''state'' then p\<lparr>cbp_state := Some value\<rparr>
              else if key = ''error'' then p\<lparr>cbp_error := Some value\<rparr>
              else if key = ''error_description'' then p\<lparr>cbp_error_description := Some value\<rparr>
              else p) ps)
      | None \<Rightarrow> callback_params_loop L p ps)"

definition callback_from_query :: "('h, 'u) sso_libs \<Rightarrow> string option \<Rightarrow> CallbackParams" where
  "callback_from_query L query =
     (let p = \<lparr>cbp_code = None, cbp_state = None, cbp_error = None, cbp_error_description = None\<rparr> in
      case query of Some q \<Rightarrow> callback_params_loop L p (split_on (CHR ''&'') q) | None \<Rightarrow> p)"

section \<open>Responses\<close>

text \<open>
  A response is its status, its headers (names in lower case) and its body. The builder fails when a
  header value has a character that is not allowed, and \<open>unwrap_or_else\<close> then gives the fallback.
\<close>

type_synonym reply = "u16 \<times> (string \<times> string) list \<times> string"

definition build_response :: "'h header_lib \<Rightarrow> u16 \<Rightarrow> (string \<times> string) list \<Rightarrow> string \<Rightarrow> reply option" where
  "build_response H status headers body =
     (if list_all (\<lambda>(n, v). is_ok (h_value H v)) headers then Some (status, headers, body) else None)"

definition or_internal_error :: "reply option \<Rightarrow> reply" where
  "or_internal_error r = (case r of Some x \<Rightarrow> x | None \<Rightarrow> (500, [], ''Internal error''))"

definition or_default_response :: "reply option \<Rightarrow> reply" where
  "or_default_response r = (case r of Some x \<Rightarrow> x | None \<Rightarrow> (200, [], []))"

section \<open>Start\<close>

record StartResponse =
  sta_status :: u16
  sta_location :: string
  sta_set_cookie :: string

definition handle_start :: "('h, 'u) sso_libs \<Rightarrow> SsoService \<Rightarrow> string \<Rightarrow> StartParams \<Rightarrow> start_rng \<Rightarrow> sso_clock \<Rightarrow>
    StartResponse sresult" where
  "handle_start L service provider_id params rng clock =
     bindR (ok_or (get_provider (sv_config service) provider_id) (ProviderNotFound provider_id)) (\<lambda>provider_config.
     bindR (ok_or (registry_get (pv_profile provider_config))
              (SsoConfigError (''unknown profile: '' @ pv_profile provider_config))) (\<lambda>profile.
     let callback_url = callback_url provider_config (sc_base_url (sv_config service)) provider_id;
         nonce = generate_nonce (sl_base64_url L) (sr_nonce rng);
         (code_verifier, code_challenge) =
           (if pv_pkce provider_config \<and> supports_pkce profile
            then (let (verifier, challenge) = generate_pkce (sl_crypto L) (sl_base64_url L) (sr_pkce rng)
                  in (Some verifier, Some challenge))
            else (None, None));
         state = TransactionState_new nonce provider_id callback_url
                   (ck_ttl_seconds (sc_cookie (sv_config service))) (sk_state clock);
         state = (case code_verifier of Some v \<Rightarrow> with_code_verifier state v | None \<Rightarrow> state);
         state = (case stp_state params of Some s \<Rightarrow> with_return_state state s | None \<Rightarrow> state);
         state = (case stp_redirect_uri params of Some u \<Rightarrow> with_client_redirect_uri state u | None \<Rightarrow> state)
     in bindR (build_auth_url (sl_url L) profile provider_config callback_url nonce code_challenge (stp_extra params))
          (\<lambda>auth_url.
        bindR (build_set_cookie (sl_crypto L) (sl_base64_url L) (sl_state_serde L) (sl_cookie_string L)
                 (sv_cookie_manager service) state (sk_cookie clock)) (\<lambda>set_cookie.
        Ok \<lparr>sta_status = 302, sta_location = auth_url, sta_set_cookie = set_cookie\<rparr>))))"

definition start_into_response :: "'h header_lib \<Rightarrow> StartResponse \<Rightarrow> reply" where
  "start_into_response H r = or_internal_error (build_response H (sta_status r)
     [(''location'', sta_location r), (''set-cookie'', sta_set_cookie r), (''cache-control'', ''no-store'')] [])"

section \<open>Tokens from the provider\<close>

definition is_success :: "u16 \<Rightarrow> bool" where
  "is_success s \<longleftrightarrow> 200 \<le> s \<and> s < 300"

definition exchange_code :: "('h, 'u) sso_libs \<Rightarrow> token_net \<Rightarrow> string \<Rightarrow> (string \<times> string) list \<Rightarrow> string \<Rightarrow>
    TokenResponse sresult" where
  "exchange_code L net endpoint params client_secret =
     (let params = params @ [(''client_secret'', client_secret)] in
      bindR (map_err from_reqwest (net endpoint params)) (\<lambda>response.
      if \<not> is_success (ht_status response)
      then (let body = (case ht_text response of Inr b \<Rightarrow> b | Inl _ \<Rightarrow> []) in
            case sl_parse_oauth_error L body of
              Inr error \<Rightarrow> Err (OAuthProviderError (oe_error error)
                              (case oe_error_description error of Some d \<Rightarrow> d | None \<Rightarrow> []))
            | Inl _ \<Rightarrow> Err (TokenExchangeFailed
                 (''status '' @ sl_show_status L (ht_status response) @ '': '' @ body)))
      else map_err (\<lambda>e. TokenExchangeFailed (''failed to parse response: '' @ e)) (ht_json response)))"

definition refresh_tokens :: "('h, 'u) sso_libs \<Rightarrow> token_net \<Rightarrow> string \<Rightarrow> (string \<times> string) list \<Rightarrow> string \<Rightarrow>
    TokenResponse sresult" where
  "refresh_tokens L net endpoint params client_secret =
     (let params = params @ [(''client_secret'', client_secret)] in
      bindR (map_err from_reqwest (net endpoint params)) (\<lambda>response.
      if \<not> is_success (ht_status response)
      then (let body = (case ht_text response of Inr b \<Rightarrow> b | Inl _ \<Rightarrow> []) in
            case sl_parse_oauth_error L body of
              Inr error \<Rightarrow> Err (OAuthProviderError (oe_error error)
                              (case oe_error_description error of Some d \<Rightarrow> d | None \<Rightarrow> []))
            | Inl _ \<Rightarrow> Err (TokenRefreshFailed
                 (''status '' @ sl_show_status L (ht_status response) @ '': '' @ body)))
      else map_err (\<lambda>e. TokenRefreshFailed (''failed to parse response: '' @ e)) (ht_json response)))"

text \<open>
  The builder calls that \<open>seal_oauth_token\<close> and \<open>seal_refreshed_token\<close> share; they differ in the
  token id of the audit metadata only.
\<close>

definition expiry_from :: "u64 option \<Rightarrow> u64 \<Rightarrow> u64" where
  "expiry_from clock expires_in = (case clock of Some s \<Rightarrow> s + expires_in | None \<Rightarrow> 0)"

definition oauth_metadata :: "string \<Rightarrow> TokenResponse \<Rightarrow> u64 option \<Rightarrow> OAuthMetadata" where
  "oauth_metadata provider_id tr clock =
     (let m = om_with_token_type (OAuthMetadata_new provider_id) (tr_token_type tr);
          m = (case tr_refresh_token tr of Some t \<Rightarrow> om_with_refresh_token m t | None \<Rightarrow> m);
          m = (case tr_expires_in tr of Some e \<Rightarrow> om_with_expires_at m (expiry_from clock e) | None \<Rightarrow> m)
      in case tr_scope tr of Some s \<Rightarrow> om_with_scopes m (split_whitespace s) | None \<Rightarrow> m)"

definition oauth_builder :: "string \<Rightarrow> string \<Rightarrow> TokenResponse \<Rightarrow> string list \<Rightarrow> string option \<Rightarrow> u64 option \<Rightarrow>
    sso_clock \<Rightarrow> TokenPayloadBuilder" where
  "oauth_builder token_id provider_id tr allowed_hosts allowed_host_pattern expires_in clock =
     (let b = b_allowed_hosts (payload_builder (tr_access_token tr)
                (PcInject (InjectConfig_bearer ''Authorization''))) allowed_hosts;
          b = (case allowed_host_pattern of Some p \<Rightarrow> b_allowed_host_pattern b p | None \<Rightarrow> b);
          b = (case expires_in of Some e \<Rightarrow> b_expires_at b (expiry_from (sk_seal clock) e) | None \<Rightarrow> b);
          b = b_metadata b (TokenMetadata_new token_id)
      in b_oauth b (oauth_metadata provider_id tr (sk_oauth clock)))"

definition seal_payload_header :: "('h, 'u) sso_libs \<Rightarrow> SsoService \<Rightarrow> seal_rng \<Rightarrow> TokenPayloadBuilder \<Rightarrow> string sresult" where
  "seal_payload_header L service rng builder =
     bindR (map_err from_tokenizer_error (build_payload builder)) (\<lambda>payload.
     bindR (map_err (\<lambda>e. SealingError (to_string e))
              (tc_seal (sl_crypto L) (sl_base64 L) (sl_payload_serde L) rng (sv_crypto service) payload)) (\<lambda>sealed.
     map_err (\<lambda>e. SealingError (to_string e)) (to_header (sl_base64 L) (sl_token_serde L) sealed)))"

definition seal_oauth_token :: "('h, 'u) sso_libs \<Rightarrow> SsoService \<Rightarrow> seal_rng \<Rightarrow> string \<Rightarrow> TokenResponse \<Rightarrow>
    string list \<Rightarrow> string option \<Rightarrow> u64 option \<Rightarrow> sso_clock \<Rightarrow> string sresult" where
  "seal_oauth_token L service rng provider_id tr allowed_hosts allowed_host_pattern expires_in clock =
     seal_payload_header L service rng
       (oauth_builder (''sso-'' @ provider_id) provider_id tr allowed_hosts allowed_host_pattern expires_in clock)"

definition seal_refreshed_token :: "('h, 'u) sso_libs \<Rightarrow> SsoService \<Rightarrow> seal_rng \<Rightarrow> string \<Rightarrow> TokenResponse \<Rightarrow>
    string list \<Rightarrow> string option \<Rightarrow> u64 option \<Rightarrow> sso_clock \<Rightarrow> string sresult" where
  "seal_refreshed_token L service rng provider_id tr allowed_hosts allowed_host_pattern expires_in clock =
     seal_payload_header L service rng
       (oauth_builder (''sso-'' @ provider_id @ ''-refresh'') provider_id tr allowed_hosts
          allowed_host_pattern expires_in clock)"

section \<open>Callback\<close>

record CallbackResponse =
  cbr_status :: u16
  cbr_location :: "string option"
  cbr_set_cookie :: string
  cbr_body :: "string option"

definition build_redirect_url :: "'u url_lib \<Rightarrow> string option \<Rightarrow> string \<Rightarrow> string option \<Rightarrow> string sresult" where
  "build_redirect_url U client_redirect sealed_token return_state =
     (case client_redirect of
        None \<Rightarrow> Err (MissingParameter ''redirect_uri'')
      | Some redirect \<Rightarrow>
          bindR (map_err (\<lambda>e. InvalidRedirectUri (redirect @ '': '' @ e)) (url_parse U redirect)) (\<lambda>url.
            let url = append_pair U url ''token'' sealed_token;
                url = (case return_state of Some s \<Rightarrow> append_pair U url ''state'' s | None \<Rightarrow> url)
            in Ok (url_to_string U url)))"

definition handle_callback :: "('h, 'u) sso_libs \<Rightarrow> token_net \<Rightarrow> SsoService \<Rightarrow> string \<Rightarrow> CallbackParams \<Rightarrow>
    string option \<Rightarrow> seal_rng \<Rightarrow> sso_clock \<Rightarrow> CallbackResponse sresult" where
  "handle_callback L net service provider_id params cookie_header rng clock =
     (let clear_cookie = build_clear_cookie (sl_cookie_string L) (sv_cookie_manager service) in
      case cbp_error params of
        Some error \<Rightarrow> Err (OAuthProviderError error
          (case cbp_error_description params of Some d \<Rightarrow> d | None \<Rightarrow> []))
      | None \<Rightarrow>
      bindR (ok_or cookie_header TransactionExpired) (\<lambda>cookie_header.
      bindR (extract_from_cookie_header (sl_crypto L) (sl_base64_url L) (sl_state_serde L)
               (sv_cookie_manager service) cookie_header (sk_state clock)) (\<lambda>transaction.
      if ts_provider_id transaction \<noteq> provider_id then Err (InvalidState ''provider mismatch'')
      else
      bindR (ok_or (cbp_state params) (MissingParameter ''state'')) (\<lambda>state.
      if \<not> verify_nonce transaction state then Err (InvalidState ''nonce mismatch'')
      else
      bindR (ok_or (cbp_code params) (MissingParameter ''code'')) (\<lambda>code.
      bindR (ok_or (get_provider (sv_config service) provider_id) (ProviderNotFound provider_id)) (\<lambda>provider_config.
      bindR (ok_or (registry_get (pv_profile provider_config))
               (SsoConfigError (''unknown profile: '' @ pv_profile provider_config))) (\<lambda>profile.
      bindR (token_url profile provider_config) (\<lambda>token_url.
      let token_params = token_exchange_params provider_config code (ts_redirect_uri transaction)
                           (ts_code_verifier transaction) in
      bindR (exchange_code L net token_url token_params (pv_client_secret provider_config)) (\<lambda>token_response.
      bindR (seal_oauth_token L service rng provider_id token_response (pv_allowed_hosts provider_config)
               (pv_allowed_host_pattern provider_config) (pv_token_expires_in provider_config) clock) (\<lambda>sealed_token.
      bindR (build_redirect_url (sl_url L) (ts_client_redirect_uri transaction) sealed_token
               (ts_return_state transaction)) (\<lambda>redirect_url.
      Ok \<lparr>cbr_status = 302, cbr_location = Some redirect_url, cbr_set_cookie = clear_cookie,
          cbr_body = None\<rparr>)))))))))))"

definition CallbackResponse_error :: "SsoError \<Rightarrow> string \<Rightarrow> CallbackResponse" where
  "CallbackResponse_error e clear_cookie =
     \<lparr>cbr_status = sso_status_code e, cbr_location = None, cbr_set_cookie = clear_cookie,
      cbr_body = Some (sso_client_message e)\<rparr>"

definition callback_into_response :: "'h header_lib \<Rightarrow> CallbackResponse \<Rightarrow> reply" where
  "callback_into_response H r = or_internal_error (build_response H (cbr_status r)
     ([(''set-cookie'', cbr_set_cookie r), (''cache-control'', ''no-store'')] @
      (case cbr_location r of Some l \<Rightarrow> [(''location'', l)] | None \<Rightarrow> []))
     (case cbr_body r of Some b \<Rightarrow> b | None \<Rightarrow> []))"

section \<open>Refresh\<close>

record RefreshResponse =
  rf_status :: u16
  rf_token :: "string option"
  rf_cache_control :: string
  rf_error :: "string option"

definition extract_refresh_token :: "TokenPayload \<Rightarrow> string sresult" where
  "extract_refresh_token payload =
     bindR (ok_or (tp_oauth payload) (TokenRefreshFailed ''token does not contain OAuth metadata'')) (\<lambda>oauth.
     bindR (ok_or (om_refresh_token oauth) (TokenRefreshFailed ''token does not contain a refresh token''))
       (\<lambda>refresh_token. Ok refresh_token))"

definition refresh_cache_control :: "TokenResponse \<Rightarrow> string" where
  "refresh_cache_control tr =
     (case tr_expires_in tr of
        Some expires_in \<Rightarrow> ''private, max-age='' @ nat_to_string (unat (saturating_sub expires_in 60))
      | None \<Rightarrow> ''no-store'')"

definition handle_refresh :: "('h, 'u) sso_libs \<Rightarrow> token_net \<Rightarrow> SsoService \<Rightarrow> string \<Rightarrow> string option \<Rightarrow>
    seal_rng \<Rightarrow> sso_clock \<Rightarrow> RefreshResponse sresult" where
  "handle_refresh L net service provider_id authorization rng clock =
     bindR (ok_or authorization (MissingParameter ''Proxy-Authorization'')) (\<lambda>auth_header.
     bindR (map_err (\<lambda>e. UnsealingError (''invalid token format: '' @ to_string e))
              (from_header (sl_base64 L) (sl_token_serde L) auth_header)) (\<lambda>sealed_token.
     bindR (map_err (\<lambda>e. UnsealingError (to_string e))
              (tc_unseal (sl_crypto L) (sl_base64 L) (sl_payload_serde L) (sv_crypto service) sealed_token
                 (unix_now (sk_state clock)))) (\<lambda>payload.
     bindR (ok_or (get_provider (sv_config service) provider_id) (ProviderNotFound provider_id)) (\<lambda>provider_config.
     bindR (ok_or (registry_get (pv_profile provider_config))
              (SsoConfigError (''unknown profile: '' @ pv_profile provider_config))) (\<lambda>profile.
     bindR (extract_refresh_token payload) (\<lambda>refresh_token.
     bindR (token_url profile provider_config) (\<lambda>token_url.
     bindR (refresh_tokens L net token_url (token_refresh_params provider_config refresh_token)
              (pv_client_secret provider_config)) (\<lambda>token_response.
     bindR (seal_refreshed_token L service rng provider_id token_response (pv_allowed_hosts provider_config)
              (pv_allowed_host_pattern provider_config) (pv_token_expires_in provider_config) clock) (\<lambda>sealed.
     Ok \<lparr>rf_status = 200, rf_token = Some sealed, rf_cache_control = refresh_cache_control token_response,
         rf_error = None\<rparr>)))))))))"

definition RefreshResponse_error :: "SsoError \<Rightarrow> RefreshResponse" where
  "RefreshResponse_error e =
     \<lparr>rf_status = sso_status_code e, rf_token = None, rf_cache_control = ''no-store'',
      rf_error = Some (sso_client_message e)\<rparr>"

definition refresh_into_response :: "('h, 'u) sso_libs \<Rightarrow> RefreshResponse \<Rightarrow> reply" where
  "refresh_into_response L r =
     (let body = (case rf_token r of
                    Some token \<Rightarrow> sl_json_object L ''token'' token
                  | None \<Rightarrow> (case rf_error r of Some error \<Rightarrow> sl_json_object L ''error'' error | None \<Rightarrow> ''{}''))
      in or_internal_error (build_response (sl_headers L) (rf_status r)
           [(''content-type'', ''application/json''), (''cache-control'', rf_cache_control r)] body))"

section \<open>Health and routing\<close>

record HealthResponse =
  hlr_status :: u16
  hlr_body :: string

definition handle_health :: HealthResponse where
  "handle_health = \<lparr>hlr_status = 200, hlr_body = ''OK''\<rparr>"

definition health_into_response :: "'h header_lib \<Rightarrow> HealthResponse \<Rightarrow> reply" where
  "health_into_response H r =
     or_internal_error (build_response H (hlr_status r) [(''content-type'', ''text/plain'')] (hlr_body r))"

definition header_str_or :: "'h header_lib \<Rightarrow> string option \<Rightarrow> string \<Rightarrow> string" where
  "header_str_or H v dflt =
     (case v of Some h \<Rightarrow> (case h_to_str H h of Inr s \<Rightarrow> s | Inl _ \<Rightarrow> dflt) | None \<Rightarrow> dflt)"

definition sso_header_str :: "'h header_lib \<Rightarrow> string option \<Rightarrow> string" where
  "sso_header_str H v =
     (case v of Some h \<Rightarrow> (case h_to_str H h of Inr s \<Rightarrow> s | Inl _ \<Rightarrow> []) | None \<Rightarrow> [])"

definition parse_provider_path :: "string \<Rightarrow> (string \<times> string) option" where
  "parse_provider_path path =
     (case strip_prefix ''/'' path of
        None \<Rightarrow> None
      | Some p \<Rightarrow>
          (case split_once (CHR ''/'') p of
             Some (a, b) \<Rightarrow> if a \<noteq> [] \<and> b \<noteq> [] then Some (a, b) else None
           | None \<Rightarrow> None))"

definition sso_error_response :: "('h, 'u) sso_libs \<Rightarrow> SsoError \<Rightarrow> reply" where
  "sso_error_response L e =
     or_default_response (build_response (sl_headers L) (sso_status_code e)
       [(''content-type'', ''application/json'')] (sl_json_object L ''error'' (sso_client_message e)))"

definition not_found_response :: "('h, 'u) sso_libs \<Rightarrow> reply" where
  "not_found_response L =
     or_default_response (build_response (sl_headers L) 404 [(''content-type'', ''application/json'')]
       ([CHR ''{'', CHR 0x22] @ ''error'' @ [CHR 0x22, CHR '':'', CHR 0x22] @ ''not found'' @ [CHR 0x22, CHR ''}'']))"

record sso_rng =
  rg_start :: start_rng
  rg_seal :: seal_rng

definition route_request :: "('h, 'u) sso_libs \<Rightarrow> token_net \<Rightarrow> SsoService \<Rightarrow> sso_rng \<Rightarrow> sso_clock \<Rightarrow>
    ('h, 'b) request \<Rightarrow> reply" where
  "route_request L net service rng clock req =
     (let H = sl_headers L;
          path = u_path (rq_uri req); query = u_query (rq_uri req);
          read = (\<lambda>n. case h_get H (rq_headers req) n of Some h \<Rightarrow> ok (h_to_str H h) | None \<Rightarrow> None);
          cookie_header = read ''cookie''; auth_header = read ''Proxy-Authorization''
      in
      if path = ''/health'' \<or> path = ''/healthz''
      then or_default_response (build_response H (hlr_status handle_health)
             [(''content-type'', ''text/plain'')] (hlr_body handle_health))
      else case parse_provider_path path of
        None \<Rightarrow> not_found_response L
      | Some (provider_id, action) \<Rightarrow>
          if rq_method req = ''GET'' \<and> action = ''start''
          then (case handle_start L service provider_id (start_from_query L query) (rg_start rng) clock of
                  Inr resp \<Rightarrow>
                    (case start_into_response H resp of (status, headers, body) \<Rightarrow>
                       or_default_response (build_response H status
                         [(''location'', sso_header_str H (map_of headers ''location'')),
                          (''set-cookie'', sso_header_str H (map_of headers ''set-cookie'')),
                          (''cache-control'', ''no-store'')] []))
                | Inl e \<Rightarrow> sso_error_response L e)
          else if rq_method req = ''GET'' \<and> action = ''callback''
          then (case handle_callback L net service provider_id (callback_from_query L query) cookie_header
                       (rg_seal rng) clock of
                  Inr resp \<Rightarrow>
                    (case callback_into_response H resp of (status, headers, body) \<Rightarrow>
                       or_default_response (build_response H status
                         ([(''set-cookie'', sso_header_str H (map_of headers ''set-cookie'')),
                           (''cache-control'', ''no-store'')] @
                          (case map_of headers ''location'' of Some l \<Rightarrow> [(''location'', l)] | None \<Rightarrow> [])) body))
                | Inl e \<Rightarrow> sso_error_response L e)
          else if rq_method req = ''POST'' \<and> action = ''refresh''
          then (case handle_refresh L net service provider_id auth_header (rg_seal rng) clock of
                  Inr resp \<Rightarrow>
                    (case refresh_into_response L resp of (status, headers, body) \<Rightarrow>
                       or_default_response (build_response H status
                         [(''content-type'', ''application/json''),
                          (''cache-control'', header_str_or H (map_of headers ''cache-control'') ''no-store'')] body))
                | Inl e \<Rightarrow> sso_error_response L e)
          else not_found_response L)"

section \<open>What a sealed token contains\<close>

text \<open>
  The laws of the libraries, as far as the service relies on them: what is serialised or encoded reads
  back, boxes open with the matching key, a MAC has 32 bytes, and URL-safe base64 fits in a cookie.
\<close>

definition sso_laws :: "('h, 'u) sso_libs \<Rightarrow> bool" where
  "sso_laws L \<longleftrightarrow> box_laws (sl_crypto L) \<and> mac_laws (sl_crypto L) \<and>
     base64_laws (sl_base64 L) \<and> base64_laws (sl_base64_url L) \<and> cookie_safe (sl_base64_url L) \<and>
     serde_laws (sl_payload_serde L) \<and> serde_laws (sl_token_serde L) \<and> serde_laws (sl_state_serde L)"

text \<open>The key a service seals with.\<close>

definition seals_with :: "('h, 'u) sso_libs \<Rightarrow> SsoService \<Rightarrow> VersionedKeypair \<Rightarrow> bool" where
  "seals_with L service vk \<longleftrightarrow> ks_primary (tc_key_store (sv_crypto service)) = Some vk \<and>
     kp_public_key (vk_keypair vk) = public_of (sl_crypto L) (kp_secret_key (vk_keypair vk))"

lemma SsoService_new_Ok:
  assumes "SsoService_new L client config = Ok service"
  shows "sv_config service = config \<and> sv_cookie_manager service = CookieManager_new (sl_crypto L) (sc_cookie config) \<and>
    (\<exists>vk. seals_with L service vk \<and> vk_key_id vk = cc_key_id (sc_crypto config))"
  using assms
  by (auto simp: SsoService_new_def Let_def keypair_from_base64_def from_secret_bytes_def seals_with_def
      TokenCrypto_new_def with_primary_def VersionedKeypair_new_def split: if_splits)

text \<open>Every holder of the key reads the payload from the header text, while its lifetime lasts.\<close>

definition token_opens :: "('h, 'u) sso_libs \<Rightarrow> VersionedKeypair \<Rightarrow> string \<Rightarrow> TokenPayload \<Rightarrow> bool" where
  "token_opens L vk header p \<longleftrightarrow>
     (\<exists>token. from_header (sl_base64 L) (sl_token_serde L) header = Ok token \<and>
        (\<forall>tc now. find_by_id (tc_key_store tc) (vk_key_id vk) = Some vk \<and>
           lifetime_ok (tc_decrypt_config tc) p now \<longrightarrow>
           tc_unseal (sl_crypto L) (sl_base64 L) (sl_payload_serde L) tc token now = Ok p))"

lemma seal_payload_token:
  assumes L: "sso_laws L" and vk: "seals_with L service vk" and rng: "length (rng_nonce rng) = 24"
    and ok: "seal_payload_header L service rng p = Ok header"
  obtains token where "from_header (sl_base64 L) (sl_token_serde L) header = Ok token"
    and "\<And>tc now. find_by_id (tc_key_store tc) (vk_key_id vk) = Some vk \<Longrightarrow>
      tc_unseal (sl_crypto L) (sl_base64 L) (sl_payload_serde L) tc token now =
      expiration_gate (tc_decrypt_config tc) p now"
proof -
  from ok vk obtain sealed token where s: "seal (sl_crypto L) (sl_payload_serde L) rng p
        (kp_public_key (vk_keypair vk)) = Ok sealed"
      "token = SealedToken_new (vk_key_id vk) (b64_encode (sl_base64 L) sealed)"
      "to_header (sl_base64 L) (sl_token_serde L) token = Ok header"
    by (auto simp: seal_payload_header_def build_payload_def tc_seal_def create_sealed_token_def
        seals_with_def split: if_splits)
  have "unseal (sl_crypto L) (sl_payload_serde L) sealed (vk_keypair vk) = Ok p"
    using L vk rng s(1) by (intro seal_unseal) (simp_all add: sso_laws_def seals_with_def)
  with L s(2) have "tc_unseal (sl_crypto L) (sl_base64 L) (sl_payload_serde L) tc token now =
      expiration_gate (tc_decrypt_config tc) p now"
    if "find_by_id (tc_key_store tc) (vk_key_id vk) = Some vk" for tc now
    using that by (simp add: tc_unseal_def decrypt_sealed_token_with_config_def SealedToken_new_def
        sso_laws_def base64_laws_def)
  moreover have "from_header (sl_base64 L) (sl_token_serde L) header = Ok token"
    using L s(3) by (intro to_header_from_header) (simp_all add: sso_laws_def)
  ultimately show thesis using that by blast
qed

lemma seal_payload_opens:
  assumes "sso_laws L" and "seals_with L service vk" and "length (rng_nonce rng) = 24"
    and "seal_payload_header L service rng p = Ok header"
  shows "token_opens L vk header p"
  using seal_payload_token [OF assms] unfolding token_opens_def
  by (metis expiration_gate_Ok_iff)

text \<open>What the two callers put into the payload.\<close>

lemma oauth_builder_fields:
  "tp_secret (oauth_builder i provider tr hosts pattern lifetime clock) = tr_access_token tr"
  "tp_allowed_hosts (oauth_builder i provider tr hosts pattern lifetime clock) = hosts"
  "tp_allowed_host_pattern (oauth_builder i provider tr hosts pattern lifetime clock) = pattern"
  "tp_processor (oauth_builder i provider tr hosts pattern lifetime clock) =
     PcInject (InjectConfig_bearer ''Authorization'')"
  "tp_expires_at (oauth_builder i provider tr hosts pattern lifetime clock) =
     map_option (expiry_from (sk_seal clock)) lifetime"
  "map_option om_refresh_token (tp_oauth (oauth_builder i provider tr hosts pattern lifetime clock)) =
     Some (tr_refresh_token tr)"
  "map_option om_provider_id (tp_oauth (oauth_builder i provider tr hosts pattern lifetime clock)) =
     Some provider"
  by (auto simp: oauth_builder_def oauth_metadata_def Let_def b_allowed_hosts_def payload_builder_def
      b_allowed_host_pattern_def b_expires_at_def b_metadata_def b_oauth_def OAuthMetadata_new_def
      om_with_token_type_def om_with_refresh_token_def om_with_expires_at_def om_with_scopes_def
      split: option.splits)

section \<open>The callback\<close>

lemma build_redirect_url_query:
  assumes "url_laws U pairs base" and "build_redirect_url U redirect token state = Ok location"
  shows "\<exists>r u0 u. redirect = Some r \<and> url_parse U r = Ok u0 \<and> url_parse U location = Ok u \<and> base u = base u0 \<and>
    pairs u = pairs u0 @ (''token'', token) # (case state of None \<Rightarrow> [] | Some s \<Rightarrow> [(''state'', s)])"
  using assms
  by (cases redirect; cases state) (auto simp: build_redirect_url_def url_laws_def Let_def)

text \<open>What a callback that succeeds has checked, and the steps it took.\<close>

definition callback_checks :: "('h, 'u) sso_libs \<Rightarrow> token_net \<Rightarrow> SsoService \<Rightarrow> string \<Rightarrow> CallbackParams \<Rightarrow>
    string option \<Rightarrow> sso_clock \<Rightarrow> TransactionState \<Rightarrow> ProviderConfig \<Rightarrow> TokenResponse \<Rightarrow> bool" where
  "callback_checks L net service provider params cookie_header clock st cfg tr \<longleftrightarrow>
     (\<exists>header code profile url.
        cookie_header = Some header \<and>
        extract_from_cookie_header (sl_crypto L) (sl_base64_url L) (sl_state_serde L)
          (sv_cookie_manager service) header (sk_state clock) = Ok st \<and>
        cbp_error params = None \<and> ts_provider_id st = provider \<and>
        cbp_state params = Some (ts_nonce st) \<and> cbp_code params = Some code \<and>
        get_provider (sv_config service) provider = Some cfg \<and>
        registry_get (pv_profile cfg) = Some profile \<and> token_url profile cfg = Ok url \<and>
        exchange_code L net url (token_exchange_params cfg code (ts_redirect_uri st) (ts_code_verifier st))
          (pv_client_secret cfg) = Ok tr)"

lemma handle_callback_Ok_iff:
  "handle_callback L net service provider params cookie_header rng clock = Ok resp \<longleftrightarrow>
     (\<exists>st cfg tr header location.
        callback_checks L net service provider params cookie_header clock st cfg tr \<and>
        seal_oauth_token L service rng provider tr (pv_allowed_hosts cfg) (pv_allowed_host_pattern cfg)
          (pv_token_expires_in cfg) clock = Ok header \<and>
        build_redirect_url (sl_url L) (ts_client_redirect_uri st) header (ts_return_state st) = Ok location \<and>
        resp = \<lparr>cbr_status = 302, cbr_location = Some location,
          cbr_set_cookie = build_clear_cookie (sl_cookie_string L) (sv_cookie_manager service), cbr_body = None\<rparr>)"
  (is "?l \<longleftrightarrow> ?r")
proof
  show "?l \<Longrightarrow> ?r"
    unfolding handle_callback_def callback_checks_def Let_def
    by (cases "cbp_error params") (auto simp: verify_nonce_def split: if_splits)
  show "?r \<Longrightarrow> ?l"
    unfolding handle_callback_def callback_checks_def
    by (auto simp: verify_nonce_def simp del: bindR_eq_Inr)
qed

text \<open>
  The code was redeemed at the provider's token endpoint, under the client's credentials, with the
  redirect URI of the transaction and its PKCE verifier when it has one, and the answer was a success.
\<close>

definition code_redeemed :: "token_net \<Rightarrow> ProviderConfig \<Rightarrow> CallbackParams \<Rightarrow> TransactionState \<Rightarrow>
    TokenResponse \<Rightarrow> bool" where
  "code_redeemed net cfg params st tr \<longleftrightarrow>
     (\<exists>profile url ps code reply. registry_get (pv_profile cfg) = Some profile \<and> token_url profile cfg = Ok url \<and>
        cbp_code params = Some code \<and> net url ps = Ok reply \<and> is_success (ht_status reply) \<and>
        ht_json reply = Ok tr \<and>
        set ps = {(''grant_type'', ''authorization_code''), (''code'', code), (''redirect_uri'', ts_redirect_uri st),
          (''client_id'', pv_client_id cfg), (''client_secret'', pv_client_secret cfg)} \<union>
          Pair ''code_verifier'' ` set_option (ts_code_verifier st))"

lemma exchange_code_OkD:
  assumes "exchange_code L net url params secret = Ok tr"
  shows "\<exists>reply. net url (params @ [(''client_secret'', secret)]) = Ok reply \<and> is_success (ht_status reply) \<and>
    ht_json reply = Ok tr"
  using assms by (auto simp: exchange_code_def split: if_splits sum.splits option.splits)

lemma callback_checks_redeemed:
  assumes "callback_checks L net service provider params cookie_header clock st cfg tr"
  shows "code_redeemed net cfg params st tr"
proof -
  from assms obtain code profile url where c: "cbp_code params = Some code"
    "registry_get (pv_profile cfg) = Some profile" "token_url profile cfg = Ok url"
    "exchange_code L net url (token_exchange_params cfg code (ts_redirect_uri st) (ts_code_verifier st))
       (pv_client_secret cfg) = Ok tr"
    by (auto simp: callback_checks_def)
  let ?ps = "token_exchange_params cfg code (ts_redirect_uri st) (ts_code_verifier st) @
    [(''client_secret'', pv_client_secret cfg)]"
  have "set ?ps = {(''grant_type'', ''authorization_code''), (''code'', code),
      (''redirect_uri'', ts_redirect_uri st), (''client_id'', pv_client_id cfg),
      (''client_secret'', pv_client_secret cfg)} \<union> Pair ''code_verifier'' ` set_option (ts_code_verifier st)"
    by (cases "ts_code_verifier st") (simp_all add: token_exchange_params_def insert_commute)
  with c exchange_code_OkD [OF c(4)] show ?thesis unfolding code_redeemed_def by blast
qed

lemma callback_checks_signed:
  assumes "callback_checks L net service provider params cookie_header clock st cfg tr"
  shows "\<exists>cookies. cookie_header = Some cookies \<and>
    signed_transaction (sl_crypto L) (sl_base64_url L) (sl_state_serde L) (sv_cookie_manager service) cookies
      (sk_state clock) st"
  using assms extract_signed by (fastforce simp: callback_checks_def)

text \<open>
  Property C6. A callback that redirects the client read, from a cookie of this service, an unexpired
  transaction with the service's HMAC on it: the MAC in the cookie is the HMAC-SHA256 of the transaction
  under the cookie key, and the clock is before its expiry. The transaction is for this provider and its
  nonce is the \<open>state\<close> parameter; the code was redeemed with the transaction's redirect URI and PKCE
  verifier, and what is appended to the transaction's own redirect URI is a token that opens to the
  provider's access token, confined to the provider's hosts.
\<close>

theorem callback_sound:
  assumes L: "sso_laws L" and U: "url_laws (sl_url L) pairs base" and vk: "seals_with L service vk"
    and rng: "length (rng_nonce rng) = 24"
    and ok: "handle_callback L net service provider params cookie_header rng clock = Ok resp"
  shows "\<exists>cookies st cfg tr header p location r u0 u.
    cookie_header = Some cookies \<and>
    signed_transaction (sl_crypto L) (sl_base64_url L) (sl_state_serde L) (sv_cookie_manager service) cookies
      (sk_state clock) st \<and>
    cbp_error params = None \<and> ts_provider_id st = provider \<and> cbp_state params = Some (ts_nonce st) \<and>
    get_provider (sv_config service) provider = Some cfg \<and> code_redeemed net cfg params st tr \<and>
    token_opens L vk header p \<and> tp_secret p = tr_access_token tr \<and>
    tp_allowed_hosts p = pv_allowed_hosts cfg \<and> tp_allowed_host_pattern p = pv_allowed_host_pattern cfg \<and>
    cbr_location resp = Some location \<and> ts_client_redirect_uri st = Some r \<and>
    url_parse (sl_url L) r = Ok u0 \<and> url_parse (sl_url L) location = Ok u \<and> base u = base u0 \<and>
    pairs u = pairs u0 @ (''token'', header) # (case ts_return_state st of None \<Rightarrow> [] | Some s \<Rightarrow> [(''state'', s)])"
proof -
  from ok obtain st cfg tr header location where *:
      "callback_checks L net service provider params cookie_header clock st cfg tr"
      "seal_oauth_token L service rng provider tr (pv_allowed_hosts cfg) (pv_allowed_host_pattern cfg)
          (pv_token_expires_in cfg) clock = Ok header"
      "build_redirect_url (sl_url L) (ts_client_redirect_uri st) header (ts_return_state st) = Ok location"
      "cbr_location resp = Some location"
    unfolding handle_callback_Ok_iff by auto
  from *(1) have c: "cbp_error params = None" "ts_provider_id st = provider" "cbp_state params = Some (ts_nonce st)"
    "get_provider (sv_config service) provider = Some cfg"
    by (auto simp: callback_checks_def)
  obtain p where p: "token_opens L vk header p" "tp_secret p = tr_access_token tr"
      "tp_allowed_hosts p = pv_allowed_hosts cfg" "tp_allowed_host_pattern p = pv_allowed_host_pattern cfg"
    using that [OF seal_payload_opens [OF L vk rng *(2) [unfolded seal_oauth_token_def]]]
    by (simp add: oauth_builder_fields)
  from build_redirect_url_query [OF U *(3)] obtain r u0 u where
      "ts_client_redirect_uri st = Some r" "url_parse (sl_url L) r = Ok u0"
      "url_parse (sl_url L) location = Ok u" "base u = base u0"
      "pairs u = pairs u0 @ (''token'', header) # (case ts_return_state st of None \<Rightarrow> [] | Some s \<Rightarrow> [(''state'', s)])"
    by blast
  with *(4) c p callback_checks_signed [OF *(1)] callback_checks_redeemed [OF *(1)] show ?thesis by blast
qed

section \<open>The start of a flow\<close>

text \<open>The transaction a start puts into the cookie.\<close>

definition start_transaction :: "('h, 'u) sso_libs \<Rightarrow> SsoService \<Rightarrow> string \<Rightarrow> ProviderConfig \<Rightarrow> BuiltinProfile \<Rightarrow>
    StartParams \<Rightarrow> start_rng \<Rightarrow> sso_clock \<Rightarrow> TransactionState" where
  "start_transaction L service provider cfg profile params rng clock =
     \<lparr>ts_nonce = generate_nonce (sl_base64_url L) (sr_nonce rng), ts_provider_id = provider,
      ts_redirect_uri = callback_url cfg (sc_base_url (sv_config service)) provider,
      ts_code_verifier = (if pv_pkce cfg \<and> supports_pkce profile
        then Some (fst (generate_pkce (sl_crypto L) (sl_base64_url L) (sr_pkce rng))) else None),
      ts_return_state = stp_state params, ts_client_redirect_uri = stp_redirect_uri params,
      ts_expires_at = unix_now (sk_state clock) + ck_ttl_seconds (sc_cookie (sv_config service))\<rparr>"

definition start_challenge :: "('h, 'u) sso_libs \<Rightarrow> TransactionState \<Rightarrow> string option" where
  "start_challenge L st =
     map_option (\<lambda>v. b64_encode (sl_base64_url L) (sha256 (sl_crypto L) (as_bytes v))) (ts_code_verifier st)"

lemma handle_start_OkD:
  assumes "handle_start L service provider params rng clock = Ok resp"
  obtains cfg profile st where "get_provider (sv_config service) provider = Some cfg"
    and "registry_get (pv_profile cfg) = Some profile"
    and "st = start_transaction L service provider cfg profile params rng clock"
    and "build_auth_url (sl_url L) profile cfg (ts_redirect_uri st) (ts_nonce st) (start_challenge L st)
      (stp_extra params) = Ok (sta_location resp)"
    and "build_set_cookie (sl_crypto L) (sl_base64_url L) (sl_state_serde L) (sl_cookie_string L)
      (sv_cookie_manager service) st (sk_cookie clock) = Ok (sta_set_cookie resp)"
proof -
  from assms obtain cfg profile where cp: "get_provider (sv_config service) provider = Some cfg"
    "registry_get (pv_profile cfg) = Some profile"
    by (auto simp: handle_start_def)
  let ?st = "start_transaction L service provider cfg profile params rng clock"
  have "build_auth_url (sl_url L) profile cfg (ts_redirect_uri ?st) (ts_nonce ?st) (start_challenge L ?st)
      (stp_extra params) = Ok (sta_location resp) \<and>
    build_set_cookie (sl_crypto L) (sl_base64_url L) (sl_state_serde L) (sl_cookie_string L)
      (sv_cookie_manager service) ?st (sk_cookie clock) = Ok (sta_set_cookie resp)"
    using assms cp
    by (auto simp: handle_start_def Let_def start_transaction_def start_challenge_def generate_pkce_def
        TransactionState_new_def with_code_verifier_def with_return_state_def with_client_redirect_uri_def
        split: option.splits if_splits)
  with cp that show thesis by blast
qed

lemma build_set_cookie_OkD:
  assumes "build_set_cookie C W M F self st clock = Ok text"
  obtains c where "text = F c" and "co_name c = cm_name self" and "cookie_encode C W M self st = Ok (co_value c)"
    and "co_http_only c"
proof -
  let ?c = "\<lambda>v. if ts_expires_at st > unix_now clock
     then (transaction_cookie self v)\<lparr>co_max_age := Some (sint (ts_expires_at st - unix_now clock))\<rparr>
     else transaction_cookie self v"
  from assms obtain v where "cookie_encode C W M self st = Ok v" "text = F (?c v)"
    unfolding build_set_cookie_def Let_def by auto
  then show thesis using that [of "?c v"] by (simp add: transaction_cookie_def)
qed

lemma challenge_in_pairs:
  assumes "ts_code_verifier st \<noteq> None \<longleftrightarrow> pv_pkce cfg \<and> supports_pkce profile"
  shows "set_option (map_option (Pair ''code_challenge'') (start_challenge L st)) \<subseteq>
    set (pkce_pairs profile cfg (start_challenge L st))"
proof (cases "ts_code_verifier st")
  case None
  then show ?thesis by (simp add: start_challenge_def)
next
  case (Some v)
  with assms show ?thesis by (simp add: start_challenge_def pkce_pairs_def)
qed

text \<open>
  Property C31. The redirect that starts a flow is bound to the cookie set with it: the authorization
  URL carries the nonce of the cookie's transaction as its \<open>state\<close>, its callback URL, and, when PKCE is
  on, the hash of its verifier as challenge.
\<close>

theorem start_binds_transaction:
  assumes U: "url_laws (sl_url L) pairs base"
    and ok: "handle_start L service provider params rng clock = Ok resp"
  shows "\<exists>cfg profile st c u.
    get_provider (sv_config service) provider = Some cfg \<and> registry_get (pv_profile cfg) = Some profile \<and>
    sta_set_cookie resp = sl_cookie_string L c \<and> co_name c = cm_name (sv_cookie_manager service) \<and>
    cookie_encode (sl_crypto L) (sl_base64_url L) (sl_state_serde L) (sv_cookie_manager service) st =
      Ok (co_value c) \<and>
    ts_provider_id st = provider \<and> ts_client_redirect_uri st = stp_redirect_uri params \<and>
    url_parse (sl_url L) (sta_location resp) = Ok u \<and>
    {(''state'', ts_nonce st), (''redirect_uri'', ts_redirect_uri st), (''client_id'', pv_client_id cfg)}
      \<subseteq> set (pairs u) \<and>
    (ts_code_verifier st \<noteq> None \<longleftrightarrow> pv_pkce cfg \<and> supports_pkce profile) \<and>
    set_option (map_option (Pair ''code_challenge'') (start_challenge L st)) \<subseteq> set (pairs u)"
proof -
  from handle_start_OkD [OF ok] obtain cfg profile st where *:
      "get_provider (sv_config service) provider = Some cfg" "registry_get (pv_profile cfg) = Some profile"
      "st = start_transaction L service provider cfg profile params rng clock"
      "build_auth_url (sl_url L) profile cfg (ts_redirect_uri st) (ts_nonce st) (start_challenge L st)
        (stp_extra params) = Ok (sta_location resp)"
      "build_set_cookie (sl_crypto L) (sl_base64_url L) (sl_state_serde L) (sl_cookie_string L)
        (sv_cookie_manager service) st (sk_cookie clock) = Ok (sta_set_cookie resp)" .
  from build_auth_url_query [OF U *(4)] obtain u0 u where u:
      "url_parse (sl_url L) (sta_location resp) = Ok u"
      "pairs u = pairs u0 @
        [(''client_id'', pv_client_id cfg), (''redirect_uri'', ts_redirect_uri st),
         (''response_type'', ''code''), (''state'', ts_nonce st)] @
        scope_pairs profile cfg @ pkce_pairs profile cfg (start_challenge L st) @
        forwarded_pairs profile cfg (stp_extra params)" by blast
  have pkce: "ts_code_verifier st \<noteq> None \<longleftrightarrow> pv_pkce cfg \<and> supports_pkce profile"
    by (simp add: *(3) start_transaction_def)
  have sub: "set_option (map_option (Pair ''code_challenge'') (start_challenge L st)) \<subseteq> set (pairs u)"
    using challenge_in_pairs [OF pkce, of L] unfolding u(2) set_append by blast
  have sub': "{(''state'', ts_nonce st), (''redirect_uri'', ts_redirect_uri st), (''client_id'', pv_client_id cfg)}
      \<subseteq> set (pairs u)"
    unfolding u(2) by simp
  have st: "ts_provider_id st = provider" "ts_client_redirect_uri st = stp_redirect_uri params"
    by (simp_all add: *(3) start_transaction_def)
  from build_set_cookie_OkD [OF *(5)] obtain c where c: "sta_set_cookie resp = sl_cookie_string L c"
    "co_name c = cm_name (sv_cookie_manager service)"
    "cookie_encode (sl_crypto L) (sl_base64_url L) (sl_state_serde L) (sv_cookie_manager service) st =
      Ok (co_value c)" by blast
  from *(1, 2) c st u(1) sub sub' pkce show ?thesis by blast
qed

section \<open>A whole flow\<close>

text \<open>
  The browser returns a cookie by its name and value, whatever attributes were set with it.
\<close>

definition returns_cookies :: "('h, 'u) sso_libs \<Rightarrow> (string \<Rightarrow> string) \<Rightarrow> bool" where
  "returns_cookies L browser \<longleftrightarrow> (\<forall>c. browser (sl_cookie_string L c) = co_name c @ ''='' @ co_value c)"

lemma start_cookie_extracts:
  assumes L: "sso_laws L" and browser: "returns_cookies L browser"
    and name: "cookie_name_ok (cm_name (sv_cookie_manager service))"
    and set: "build_set_cookie (sl_crypto L) (sl_base64_url L) (sl_state_serde L) (sl_cookie_string L)
      (sv_cookie_manager service) st clock = Ok set_cookie"
    and time: "unix_now clock' < ts_expires_at st"
    and others: "list_all (other_cookie (cm_name (sv_cookie_manager service))) others"
      "list_all (\<lambda>s. CHR '';'' \<notin> set s) later"
  shows "extract_from_cookie_header (sl_crypto L) (sl_base64_url L) (sl_state_serde L)
    (sv_cookie_manager service) (join_str '';'' (others @ ('' '' @ browser set_cookie) # later)) clock' = Ok st"
proof -
  from build_set_cookie_OkD [OF set] obtain c where c: "set_cookie = sl_cookie_string L c"
    "co_name c = cm_name (sv_cookie_manager service)"
    "cookie_encode (sl_crypto L) (sl_base64_url L) (sl_state_serde L) (sv_cookie_manager service) st =
      Ok (co_value c)" by blast
  then have "cookie_part (cm_name (sv_cookie_manager service)) (co_value c) ('' '' @ browser set_cookie)"
    using browser by (simp add: cookie_part_def returns_cookies_def)
  with L name time others c(3) show ?thesis
    by (intro cookie_extract_roundtrip) (simp_all add: sso_laws_def)
qed

text \<open>
  The libraries that sealing calls do not fail on a payload: both serialisers and the box encryption
  return a value.
\<close>

definition sealing_works :: "('h, 'u) sso_libs \<Rightarrow> VersionedKeypair \<Rightarrow> seal_rng \<Rightarrow> TokenPayload \<Rightarrow> bool" where
  "sealing_works L vk rng p \<longleftrightarrow> is_ok (ser (sl_payload_serde L) p) \<and>
     (\<forall>m. is_ok (box_encrypt (sl_crypto L) (kp_public_key (vk_keypair vk)) (rng_ephemeral rng) (rng_nonce rng) m)) \<and>
     (\<forall>t. is_ok (ser (sl_token_serde L) t))"

lemma seal_oauth_token_works:
  assumes "seals_with L service vk"
    and "sealing_works L vk rng (oauth_builder (''sso-'' @ provider) provider tr hosts pattern lifetime clock)"
  shows "\<exists>header. seal_oauth_token L service rng provider tr hosts pattern lifetime clock = Ok header"
proof -
  let ?p = "oauth_builder (''sso-'' @ provider) provider tr hosts pattern lifetime clock"
  have built: "build_payload ?p = Ok ?p"
    by (auto simp: build_payload_def oauth_builder_def Let_def b_allowed_hosts_def payload_builder_def
        b_allowed_host_pattern_def b_expires_at_def b_metadata_def b_oauth_def split: option.splits)
  obtain x where "ser (sl_payload_serde L) ?p = Ok x"
    using assms(2) by (auto simp: sealing_works_def is_ok_iff)
  moreover obtain c where "box_encrypt (sl_crypto L) (kp_public_key (vk_keypair vk)) (rng_ephemeral rng)
      (rng_nonce rng) x = Ok c"
    using assms(2) by (auto simp: sealing_works_def is_ok_iff)
  ultimately obtain token where "tc_seal (sl_crypto L) (sl_base64 L) (sl_payload_serde L) rng
      (sv_crypto service) ?p = Ok token"
    using assms(1) by (simp add: tc_seal_def create_sealed_token_def seal_def seals_with_def)
  moreover obtain j where "ser (sl_token_serde L) token = Ok j"
    using assms(2) by (auto simp: sealing_works_def is_ok_iff)
  ultimately show ?thesis
    using built by (simp add: seal_oauth_token_def seal_payload_header_def to_header_def)
qed

text \<open>
  Property C30. A flow that was started with a redirect URI the URL library parses completes: when the
  browser comes back with the cookie and the provider with the nonce and a code, before the
  transaction expires, the provider then answers the token request, and the serialisers and the
  encryption do not fail, the token is sealed and the callback redirects to the redirect URI with it.
\<close>

theorem flow_completes:
  assumes L: "sso_laws L" and browser: "returns_cookies L browser"
    and name: "cookie_name_ok (cm_name (sv_cookie_manager service))" and vk: "seals_with L service vk"
    and start: "handle_start L service provider params rng clock = Ok resp"
    and client: "stp_redirect_uri params = Some r" "url_parse (sl_url L) r = Ok u0"
    and provider: "get_provider (sv_config service) provider = Some cfg"
      "registry_get (pv_profile cfg) = Some profile" "token_url profile cfg = Ok url"
    and time: "unix_now (sk_state clock') < unix_now (sk_state clock) + ck_ttl_seconds (sc_cookie (sv_config service))"
    and others: "list_all (other_cookie (cm_name (sv_cookie_manager service))) others"
      "list_all (\<lambda>s. CHR '';'' \<notin> set s) later"
    and answer: "\<And>ps. net url ps = Ok reply" "is_success (ht_status reply)" "ht_json reply = Ok tr"
    and works: "sealing_works L vk rng' (oauth_builder (''sso-'' @ provider) provider tr (pv_allowed_hosts cfg)
      (pv_allowed_host_pattern cfg) (pv_token_expires_in cfg) clock')"
    and ret: "cbp_error back = None" "cbp_code back = Some code"
      "cbp_state back = Some (generate_nonce (sl_base64_url L) (sr_nonce rng))"
  shows "\<exists>header out location. seal_oauth_token L service rng' provider tr (pv_allowed_hosts cfg)
      (pv_allowed_host_pattern cfg) (pv_token_expires_in cfg) clock' = Ok header \<and>
    handle_callback L net service provider back
      (Some (join_str '';'' (others @ ('' '' @ browser (sta_set_cookie resp)) # later))) rng' clock' = Ok out \<and>
    cbr_status out = 302 \<and> cbr_location out = Some location \<and>
    build_redirect_url (sl_url L) (Some r) header (stp_state params) = Ok location"
proof -
  let ?st = "start_transaction L service provider cfg profile params rng clock"
  let ?cookies = "join_str '';'' (others @ ('' '' @ browser (sta_set_cookie resp)) # later)"
  have set: "build_set_cookie (sl_crypto L) (sl_base64_url L) (sl_state_serde L) (sl_cookie_string L)
        (sv_cookie_manager service) ?st (sk_cookie clock) = Ok (sta_set_cookie resp)"
    using handle_start_OkD [OF start] provider(1, 2) by (metis option.inject)
  have "unix_now (sk_state clock') < ts_expires_at ?st"
    using time by (simp add: start_transaction_def)
  note extracts = start_cookie_extracts [OF L browser name set this others]
  have "exchange_code L net url (token_exchange_params cfg code (ts_redirect_uri ?st) (ts_code_verifier ?st))
      (pv_client_secret cfg) = Ok tr"
    using answer by (simp add: exchange_code_def)
  with extracts ret provider have checks:
    "callback_checks L net service provider back (Some ?cookies) clock' ?st cfg tr"
    by (auto simp: callback_checks_def start_transaction_def)
  obtain header where sealed: "seal_oauth_token L service rng' provider tr (pv_allowed_hosts cfg)
      (pv_allowed_host_pattern cfg) (pv_token_expires_in cfg) clock' = Ok header"
    using seal_oauth_token_works [OF vk works] by blast
  obtain location where "build_redirect_url (sl_url L) (Some r) header (stp_state params) = Ok location"
    using client(2) by (simp add: build_redirect_url_def Let_def)
  moreover from this checks sealed client(1) have "\<exists>out. handle_callback L net service provider back
      (Some ?cookies) rng' clock' = Ok out \<and> cbr_status out = 302 \<and> cbr_location out = Some location"
    unfolding handle_callback_Ok_iff by (fastforce simp: start_transaction_def)
  ultimately show ?thesis using sealed by blast
qed

text \<open>
  Note. The start of a flow accepts a request without a redirect URI, and the callback of such a flow
  never completes, whatever the provider answers.
\<close>

theorem flow_needs_redirect_uri:
  assumes L: "sso_laws L" and browser: "returns_cookies L browser"
    and name: "cookie_name_ok (cm_name (sv_cookie_manager service))"
    and start: "handle_start L service provider params rng clock = Ok resp"
    and client: "stp_redirect_uri params = None"
    and time: "unix_now (sk_state clock') < unix_now (sk_state clock) + ck_ttl_seconds (sc_cookie (sv_config service))"
  shows "handle_callback L net service provider' back (Some ('' '' @ browser (sta_set_cookie resp))) rng' clock' \<noteq> Ok out"
proof
  assume ok: "handle_callback L net service provider' back (Some ('' '' @ browser (sta_set_cookie resp))) rng' clock'
    = Ok out"
  from handle_start_OkD [OF start] obtain cfg profile where
    set: "build_set_cookie (sl_crypto L) (sl_base64_url L) (sl_state_serde L) (sl_cookie_string L)
        (sv_cookie_manager service) (start_transaction L service provider cfg profile params rng clock)
        (sk_cookie clock) = Ok (sta_set_cookie resp)" by metis
  have time': "unix_now (sk_state clock') < ts_expires_at (start_transaction L service provider cfg profile params
      rng clock)" using time by (simp add: start_transaction_def)
  from ok start_cookie_extracts [OF L browser name set time', of "[]" "[]"] client show False
    unfolding handle_callback_Ok_iff
    by (auto simp: callback_checks_def start_transaction_def build_redirect_url_def)
qed

section \<open>Refresh\<close>

text \<open>
  Property C33. A refresh that succeeds was given a token this service can open, with a refresh token in
  it, and answers with a token that opens to the new access token, confined to the hosts of the provider
  the request names; the new refresh token is the one of the answer, and is absent when that has none.
\<close>

theorem refresh_sound:
  assumes L: "sso_laws L" and vk: "seals_with L service vk" and rng: "length (rng_nonce rng) = 24"
    and ok: "handle_refresh L net service provider authorization rng clock = Ok resp"
  shows "\<exists>sealed old oauth refresh_token cfg profile url tr header p.
    Option.bind authorization (ok \<circ> from_header (sl_base64 L) (sl_token_serde L)) = Some sealed \<and>
    tc_unseal (sl_crypto L) (sl_base64 L) (sl_payload_serde L) (sv_crypto service) sealed
      (unix_now (sk_state clock)) = Ok old \<and>
    tp_oauth old = Some oauth \<and> om_refresh_token oauth = Some refresh_token \<and>
    get_provider (sv_config service) provider = Some cfg \<and> registry_get (pv_profile cfg) = Some profile \<and>
    token_url profile cfg = Ok url \<and>
    refresh_tokens L net url (token_refresh_params cfg refresh_token) (pv_client_secret cfg) = Ok tr \<and>
    rf_token resp = Some header \<and> token_opens L vk header p \<and> tp_secret p = tr_access_token tr \<and>
    tp_allowed_hosts p = pv_allowed_hosts cfg \<and> tp_allowed_host_pattern p = pv_allowed_host_pattern cfg \<and>
    map_option om_refresh_token (tp_oauth p) = Some (tr_refresh_token tr)"
proof -
  from ok obtain sealed old oauth refresh_token cfg profile url tr header where *:
    "Option.bind authorization (ok \<circ> from_header (sl_base64 L) (sl_token_serde L)) = Some sealed"
    "tc_unseal (sl_crypto L) (sl_base64 L) (sl_payload_serde L) (sv_crypto service) sealed
      (unix_now (sk_state clock)) = Ok old"
    "tp_oauth old = Some oauth" "om_refresh_token oauth = Some refresh_token"
    "get_provider (sv_config service) provider = Some cfg" "registry_get (pv_profile cfg) = Some profile"
    "token_url profile cfg = Ok url"
    "refresh_tokens L net url (token_refresh_params cfg refresh_token) (pv_client_secret cfg) = Ok tr"
    "rf_token resp = Some header"
    and seal: "seal_refreshed_token L service rng provider tr (pv_allowed_hosts cfg) (pv_allowed_host_pattern cfg)
      (pv_token_expires_in cfg) clock = Ok header"
    by (auto simp: handle_refresh_def extract_refresh_token_def)
  obtain p where "token_opens L vk header p" "tp_secret p = tr_access_token tr"
      "tp_allowed_hosts p = pv_allowed_hosts cfg" "tp_allowed_host_pattern p = pv_allowed_host_pattern cfg"
      "map_option om_refresh_token (tp_oauth p) = Some (tr_refresh_token tr)"
    using that [OF seal_payload_opens [OF L vk rng seal [unfolded seal_refreshed_token_def]]]
    by (simp add: oauth_builder_fields)
  with * show ?thesis by blast
qed

text \<open>
  Note. The provider a token was issued for plays no role in its refresh: the refresh token goes to the
  token endpoint of the provider that the request path names.
\<close>

lemma refresh_ignores_issuer:
  assumes "from_header (sl_base64 L) (sl_token_serde L) auth = Ok sealed"
    and "tc_unseal (sl_crypto L) (sl_base64 L) (sl_payload_serde L) (sv_crypto service) sealed
      (unix_now (sk_state clock)) = Ok old"
    and "tp_oauth old = Some \<lparr>om_provider_id = issuer, om_refresh_token = Some refresh_token,
      om_token_type = ty, om_scopes = scopes, om_access_token_expires_at = expires\<rparr>"
    and "get_provider (sv_config service) other = Some cfg" and "registry_get (pv_profile cfg) = Some profile"
    and "token_url profile cfg = Ok url"
    and "net url ([(''grant_type'', ''refresh_token''), (''refresh_token'', refresh_token),
      (''client_id'', pv_client_id cfg), (''client_secret'', pv_client_secret cfg)]) = Err e"
  shows "handle_refresh L net service other (Some auth) rng clock = Err (SsoHttpError e)"
  using assms
  by (simp add: handle_refresh_def extract_refresh_token_def refresh_tokens_def token_refresh_params_def
      from_reqwest_def)

section \<open>Sample libraries\<close>

text \<open>A URL is its text; appended pairs stand in front of it, each character after a dot.\<close>

definition esc :: "string \<Rightarrow> string" where
  "esc s = concat (map (\<lambda>c. [CHR ''.'', c]) s)"

fun unesc :: "string \<Rightarrow> string \<times> string" where
  "unesc (c # d # s) =
     (if c = CHR ''.'' then (case unesc s of (a, r) \<Rightarrow> (d # a, r)) else ([], c # d # s))"
| "unesc s = ([], s)"

fun split_url :: "string \<Rightarrow> (string \<times> string) list \<times> string" where
  "split_url [] = ([], [])"
| "split_url (c # s1) =
     (if c = CHR ''&''
      then (case unesc s1 of (k, s2) \<Rightarrow> case unesc (tl s2) of (v, s3) \<Rightarrow>
              if length (tl s3) \<le> length s1
              then (case split_url (tl s3) of (ps, b) \<Rightarrow> (ps @ [(k, v)], b))
              else ([], c # s1))
      else ([], c # s1))"

definition text_urls :: "string url_lib" where
  "text_urls = \<lparr>url_parse = Ok, append_pair = (\<lambda>u k v. ''&'' @ esc k @ ''='' @ esc v @ ''&'' @ u), url_to_string = id\<rparr>"

lemma unesc_esc: "c \<noteq> CHR ''.'' \<Longrightarrow> unesc (esc k @ c # s) = (k, c # s)"
proof (induction k)
  case Nil
  then show ?case by (cases s) (simp_all add: esc_def)
next
  case (Cons a k)
  then show ?case by (simp add: esc_def)
qed

lemma text_urls_laws: "url_laws text_urls (fst \<circ> split_url) (snd \<circ> split_url)"
  by (simp add: url_laws_def text_urls_def unesc_esc split: prod.split)

definition sso_sample :: "TokenPayload \<Rightarrow> TransactionState \<Rightarrow> ((string \<times> string) list, string) sso_libs" where
  "sso_sample p st =
     \<lparr>sl_crypto = mac32, sl_base64 = plain_base64, sl_base64_url = nibble_base64,
      sl_payload_serde = one_payload_serde p, sl_token_serde = plain_token_serde,
      sl_state_serde = one_state_serde st, sl_headers = assoc_headers, sl_url = text_urls,
      sl_cookie_string = (\<lambda>c. co_name c @ ''='' @ co_value c), sl_urldecode = Some,
      sl_show_status = (\<lambda>s. nat_to_string (unat s)), sl_parse_oauth_error = (\<lambda>_. Err ''not json''),
      sl_json_object = (\<lambda>k v. k @ '':'' @ v)\<rparr>"

lemma sso_sample_laws:
  "sso_laws (sso_sample p st)" "url_laws (sl_url (sso_sample p st)) (fst \<circ> split_url) (snd \<circ> split_url)"
  "returns_cookies (sso_sample p st) id"
  using mac32_laws plain_base64_laws nibble_base64_laws one_payload_serde_laws plain_token_serde_laws
    one_state_serde_laws text_urls_laws
  by (simp_all add: sso_laws_def sso_sample_def returns_cookies_def)

definition idp_config :: ProviderConfig where
  "idp_config = \<lparr>pv_profile = ''generic'', pv_client_id = ''id'', pv_client_secret = ''cs'',
     pv_callback_url = None, pv_scopes = [], pv_auth_url = Some ''https://idp/auth'',
     pv_token_url = Some ''https://idp/token'', pv_pkce = False, pv_allowed_hosts = [''api.idp''],
     pv_allowed_host_pattern = None, pv_forwarded_params = [], pv_token_expires_in = Some 200\<rparr>"

definition idp_service :: SsoService where
  "idp_service =
     \<lparr>sv_config = \<lparr>sc_bind_address = default_bind_address, sc_port = sso_default_port, sc_base_url = ''https://sso'',
        sc_cookie = CookieConfig_default\<lparr>ck_secret_key := ''k''\<rparr>,
        sc_crypto = \<lparr>cc_secret_key = [], cc_key_id = default_key_id\<rparr>, sc_providers = [''idp'' \<mapsto> idp_config]\<rparr>,
      sv_crypto = TokenCrypto_new (with_primary (sample_key ''primary'')), sv_cookie_manager = sample_manager\<rparr>"

definition idp_params :: StartParams where
  "idp_params = \<lparr>stp_redirect_uri = Some ''https://app/'', stp_state = None, stp_extra = Map.empty\<rparr>"

definition idp_clock :: "u64 \<Rightarrow> sso_clock" where
  "idp_clock t = \<lparr>sk_state = Some t, sk_cookie = Some t, sk_seal = Some t, sk_oauth = Some t\<rparr>"

definition idp_transaction :: TransactionState where
  "idp_transaction = \<lparr>ts_nonce = ''AH'', ts_provider_id = ''idp'', ts_redirect_uri = ''https://sso/idp/callback'',
     ts_code_verifier = None, ts_return_state = None, ts_client_redirect_uri = Some ''https://app/'',
     ts_expires_at = 3700\<rparr>"

definition idp_tokens :: TokenResponse where
  "idp_tokens = \<lparr>tr_access_token = ''at'', tr_token_type = ''Bearer'', tr_expires_in = Some 300,
     tr_refresh_token = Some ''rt'', tr_scope = None, tr_id_token = None\<rparr>"

definition idp_net :: token_net where
  "idp_net url ps = Ok \<lparr>ht_status = 200, ht_text = Ok [], ht_json = Ok idp_tokens\<rparr>"

definition idp_payload :: "string \<Rightarrow> TokenPayload" where
  "idp_payload i = oauth_builder i ''idp'' idp_tokens [''api.idp''] None (Some 200) (idp_clock 200)"

definition idp_libs :: "string \<Rightarrow> ((string \<times> string) list, string) sso_libs" where
  "idp_libs i = sso_sample (idp_payload i) idp_transaction"

definition idp_rng :: seal_rng where
  "idp_rng = \<lparr>rng_ephemeral = [], rng_nonce = replicate 24 0\<rparr>"

definition idp_callback :: CallbackParams where
  "idp_callback = \<lparr>cbp_code = Some ''c'', cbp_state = Some ''AH'', cbp_error = None, cbp_error_description = None\<rparr>"

lemma idp_provider:
  "get_provider (sv_config idp_service) ''idp'' = Some idp_config"
  "registry_get (pv_profile idp_config) = Some ProfileGeneric"
  "token_url ProfileGeneric idp_config = Ok ''https://idp/token''"
  by (simp_all add: profile_defs get_provider_def idp_service_def idp_config_def registry_get_def from_name_def to_lower_def
      ascii_lower_def ascii_upper_letters_def ascii_lower_letters_def)

lemma idp_seals: "seals_with (idp_libs i) idp_service (sample_key ''primary'')" "length (rng_nonce idp_rng) = 24"
  by (simp_all add: seals_with_def idp_libs_def sso_sample_def idp_service_def TokenCrypto_new_def with_primary_def
      sample_key_def VersionedKeypair_new_def mac32_def plain_crypto_def idp_rng_def)

lemma idp_seal_header:
  assumes "i = ''sso-idp'' \<or> i = ''sso-idp-refresh''"
  shows "\<exists>header. seal_payload_header (idp_libs i) idp_service idp_rng (idp_payload i) = Ok header"
proof -
  have "build_payload (idp_payload i) = Ok (idp_payload i)"
    by (simp add: build_payload_def idp_payload_def oauth_builder_fields)
  then show ?thesis
    by (simp add: seal_payload_header_def tc_seal_def idp_service_def TokenCrypto_new_def with_primary_def
        create_sealed_token_def seal_def idp_libs_def sso_sample_def one_payload_serde_def mac32_def
        plain_crypto_def to_header_def plain_token_serde_def)
qed

lemma idp_start: "\<exists>resp. handle_start (idp_libs i) idp_service ''idp'' idp_params \<lparr>sr_nonce = [7], sr_pkce = []\<rparr>
    (idp_clock 100) = Ok resp"
  by (simp add: handle_start_def idp_provider Let_def)
    (simp add: profile_defs build_auth_url_def build_set_cookie_def cookie_encode_def idp_libs_def sso_sample_def
      nibble_base64_def nibble_encode_def nibble_chars_def generate_nonce_def idp_config_def idp_service_def
      idp_params_def idp_clock_def CookieConfig_default_def default_ttl_seconds_def unix_now_def
      callback_url_def idp_transaction_def TransactionState_new_def with_client_redirect_uri_def
      one_state_serde_def mac32_def text_urls_def Let_def)

lemma idp_callback_ok:
  "\<exists>cookie resp. handle_callback (idp_libs ''sso-idp'') idp_net idp_service ''idp'' idp_callback (Some cookie)
     idp_rng (idp_clock 200) = Ok resp"
proof -
  let ?L = "idp_libs ''sso-idp''"
  obtain v where v: "cookie_encode mac32 nibble_base64 (one_state_serde idp_transaction) sample_manager
      idp_transaction = Ok v"
    by (simp add: cookie_encode_def one_state_serde_def mac32_def)
  let ?c = "join_str '';'' ([] @ (cm_name sample_manager @ ''='' @ v) # [])"
  have "extract_from_cookie_header mac32 nibble_base64 (one_state_serde idp_transaction) sample_manager ?c
      (Some 200) = Ok idp_transaction"
    by (rule cookie_extract_roundtrip [OF mac32_laws(1) nibble_base64_laws one_state_serde_laws
          sample_manager_name v])
      (simp_all add: unix_now_def idp_transaction_def cookie_part_def)
  then have checks: "callback_checks ?L idp_net idp_service ''idp'' idp_callback (Some ?c) (idp_clock 200)
      idp_transaction idp_config idp_tokens"
    using idp_provider
    by (simp add: callback_checks_def idp_libs_def sso_sample_def idp_service_def idp_clock_def idp_callback_def
        exchange_code_def idp_net_def is_success_def)
      (simp add: idp_transaction_def)
  obtain header where "seal_oauth_token ?L idp_service idp_rng ''idp'' idp_tokens (pv_allowed_hosts idp_config)
      (pv_allowed_host_pattern idp_config) (pv_token_expires_in idp_config) (idp_clock 200) = Ok header"
    using idp_seal_header [of "''sso-idp''"]
    by (auto simp: seal_oauth_token_def idp_payload_def idp_config_def)
  moreover have "\<exists>location. build_redirect_url (sl_url ?L) (ts_client_redirect_uri idp_transaction) header
      (ts_return_state idp_transaction) = Ok location"
    by (simp add: build_redirect_url_def idp_transaction_def idp_libs_def sso_sample_def text_urls_def)
  ultimately show ?thesis
    unfolding handle_callback_Ok_iff using checks by blast
qed

theorem callback_sound_witness:
  "\<exists>header p. token_opens (idp_libs ''sso-idp'') (sample_key ''primary'') header p \<and>
     tp_secret p = ''at'' \<and> tp_allowed_hosts p = [''api.idp'']"
proof -
  obtain cookie resp where ok: "handle_callback (idp_libs ''sso-idp'') idp_net idp_service ''idp'' idp_callback
      (Some cookie) idp_rng (idp_clock 200) = Ok resp"
    using idp_callback_ok by blast
  have laws: "sso_laws (idp_libs ''sso-idp'')"
    "url_laws (sl_url (idp_libs ''sso-idp'')) (fst \<circ> split_url) (snd \<circ> split_url)"
    unfolding idp_libs_def by (rule sso_sample_laws)+
  from callback_sound [OF laws idp_seals ok] obtain st cfg tr header p where
    "get_provider (sv_config idp_service) ''idp'' = Some cfg" "code_redeemed idp_net cfg idp_callback st tr"
    "token_opens (idp_libs ''sso-idp'') (sample_key ''primary'') header p" "tp_secret p = tr_access_token tr"
    "tp_allowed_hosts p = pv_allowed_hosts cfg" by blast
  moreover from this(1,2) have "cfg = idp_config" "tr = idp_tokens"
    using idp_provider(1) by (auto simp: code_redeemed_def idp_net_def)
  ultimately show ?thesis by (auto simp: idp_config_def idp_tokens_def)
qed

theorem start_binds_transaction_witness:
  "\<exists>resp u. handle_start (idp_libs ''sso-idp'') idp_service ''idp'' idp_params \<lparr>sr_nonce = [7], sr_pkce = []\<rparr>
      (idp_clock 100) = Ok resp \<and>
    url_parse (sl_url (idp_libs ''sso-idp'')) (sta_location resp) = Ok u \<and> (''client_id'', ''id'') \<in> set (fst (split_url u))"
proof -
  have U: "url_laws (sl_url (idp_libs ''sso-idp'')) (fst \<circ> split_url) (snd \<circ> split_url)"
    unfolding idp_libs_def by (rule sso_sample_laws)
  obtain resp where ok: "handle_start (idp_libs ''sso-idp'') idp_service ''idp'' idp_params \<lparr>sr_nonce = [7], sr_pkce = []\<rparr>
      (idp_clock 100) = Ok resp" using idp_start by blast
  from start_binds_transaction [OF U ok] obtain u cfg where
    "get_provider (sv_config idp_service) ''idp'' = Some cfg"
    "url_parse (sl_url (idp_libs ''sso-idp'')) (sta_location resp) = Ok u"
    "(''client_id'', pv_client_id cfg) \<in> set ((fst \<circ> split_url) u)" by blast
  with ok idp_provider(1) show ?thesis by (auto simp: idp_config_def)
qed

theorem flow_completes_witness:
  "\<exists>resp out location. handle_start (idp_libs ''sso-idp'') idp_service ''idp'' idp_params
      \<lparr>sr_nonce = [7], sr_pkce = []\<rparr> (idp_clock 100) = Ok resp \<and>
    handle_callback (idp_libs ''sso-idp'') idp_net idp_service ''idp'' idp_callback
      (Some (join_str '';'' ([''a=b''] @ ('' '' @ id (sta_set_cookie resp)) # []))) idp_rng (idp_clock 200) = Ok out \<and>
    cbr_location out = Some location"
proof -
  let ?L = "idp_libs ''sso-idp''"
  obtain resp where ok: "handle_start ?L idp_service ''idp'' idp_params \<lparr>sr_nonce = [7], sr_pkce = []\<rparr>
      (idp_clock 100) = Ok resp" using idp_start by blast
  have laws: "sso_laws ?L" "returns_cookies ?L id"
    unfolding idp_libs_def by (rule sso_sample_laws)+
  have name: "cookie_name_ok (cm_name (sv_cookie_manager idp_service))"
    "list_all (other_cookie (cm_name (sv_cookie_manager idp_service))) [''a=b'']"
    using sample_manager_name
    by (simp_all add: idp_service_def sample_manager_def CookieManager_new_def CookieConfig_default_def
        default_cookie_name_def other_cookie_def trim_def is_ws_def)
  have client: "stp_redirect_uri idp_params = Some ''https://app/''"
    "url_parse (sl_url ?L) ''https://app/'' = Ok ''https://app/''"
    by (simp_all add: idp_params_def idp_libs_def sso_sample_def text_urls_def)
  have time: "unix_now (sk_state (idp_clock 200)) < unix_now (sk_state (idp_clock 100)) +
      ck_ttl_seconds (sc_cookie (sv_config idp_service))"
    by (simp add: idp_clock_def unix_now_def idp_service_def CookieConfig_default_def default_ttl_seconds_def)
  have works: "sealing_works ?L (sample_key ''primary'') idp_rng (oauth_builder (''sso-'' @ ''idp'') ''idp'' idp_tokens
      (pv_allowed_hosts idp_config) (pv_allowed_host_pattern idp_config) (pv_token_expires_in idp_config)
      (idp_clock 200))"
    by (simp add: sealing_works_def idp_libs_def sso_sample_def one_payload_serde_def idp_payload_def idp_config_def
        mac32_def plain_crypto_def plain_token_serde_def)
  have "\<exists>header out location. seal_oauth_token ?L idp_service idp_rng ''idp'' idp_tokens
      (pv_allowed_hosts idp_config) (pv_allowed_host_pattern idp_config) (pv_token_expires_in idp_config)
      (idp_clock 200) = Ok header \<and>
    handle_callback ?L idp_net idp_service ''idp'' idp_callback
      (Some (join_str '';'' ([''a=b''] @ ('' '' @ id (sta_set_cookie resp)) # []))) idp_rng (idp_clock 200) = Ok out \<and>
    cbr_status out = 302 \<and> cbr_location out = Some location \<and>
    build_redirect_url (sl_url ?L) (Some ''https://app/'') header (stp_state idp_params) = Ok location"
    by (rule flow_completes [OF laws name(1) idp_seals(1) ok client idp_provider time name(2) _ _ _ _ works,
          where code = "''c''" and reply = "\<lparr>ht_status = 200, ht_text = Ok [], ht_json = Ok idp_tokens\<rparr>"])
      (simp_all add: idp_net_def is_success_def idp_callback_def generate_nonce_def idp_libs_def sso_sample_def
        nibble_base64_def nibble_encode_def nibble_chars_def)
  with ok show ?thesis by blast
qed

definition idp_token :: string where
  "idp_token = (case seal_payload_header (idp_libs ''sso-idp-refresh'') idp_service idp_rng
     (idp_payload ''sso-idp-refresh'') of Inr h \<Rightarrow> h | Inl _ \<Rightarrow> [])"

theorem refresh_sound_witness:
  "\<exists>resp header p. handle_refresh (idp_libs ''sso-idp-refresh'') idp_net idp_service ''idp'' (Some idp_token) idp_rng
      (idp_clock 200) = Ok resp \<and>
    rf_token resp = Some header \<and> token_opens (idp_libs ''sso-idp-refresh'') (sample_key ''primary'') header p \<and>
    tp_allowed_hosts p = [''api.idp'']"
proof -
  let ?L = "idp_libs ''sso-idp-refresh''" and ?p = "idp_payload ''sso-idp-refresh''"
  have L: "sso_laws ?L" unfolding idp_libs_def by (rule sso_sample_laws)
  obtain header where h: "seal_payload_header ?L idp_service idp_rng ?p = Ok header"
    using idp_seal_header by blast
  with seal_payload_opens [OF L idp_seals h] obtain token where
    t: "from_header (sl_base64 ?L) (sl_token_serde ?L) header = Ok token" and
    open': "find_by_id (tc_key_store tc) (vk_key_id (sample_key ''primary'')) = Some (sample_key ''primary'') \<Longrightarrow>
      lifetime_ok (tc_decrypt_config tc) ?p now \<Longrightarrow>
      tc_unseal (sl_crypto ?L) (sl_base64 ?L) (sl_payload_serde ?L) tc token now = Ok ?p" for tc now
    unfolding token_opens_def by blast
  have u: "tc_unseal (sl_crypto ?L) (sl_base64 ?L) (sl_payload_serde ?L) (sv_crypto idp_service) token
      (unix_now (sk_state (idp_clock 200))) = Ok ?p"
    by (rule open')
      (simp_all add: idp_service_def TokenCrypto_new_def with_primary_def find_by_id_def lifetime_ok_def
        check_expiration_def check_expiry_def idp_payload_def oauth_builder_fields expiry_from_def idp_clock_def
        unix_now_def DecryptConfig_default_def ClockSkewConfig_default_def)
  have "extract_refresh_token ?p = Ok ''rt''"
    using oauth_builder_fields(6) [of "''sso-idp-refresh''" "''idp''" idp_tokens "[''api.idp'']" None "Some 200" "idp_clock 200"]
    by (cases "tp_oauth ?p") (simp_all add: extract_refresh_token_def idp_payload_def idp_tokens_def)
  then obtain resp where ok: "handle_refresh ?L idp_net idp_service ''idp'' (Some idp_token) idp_rng (idp_clock 200) = Ok resp"
    using t u h idp_provider
    by (simp add: handle_refresh_def idp_token_def refresh_tokens_def idp_net_def is_success_def
        seal_refreshed_token_def)
      (simp add: idp_config_def idp_payload_def)
  from refresh_sound [OF L idp_seals ok] obtain cfg header' p where
    "get_provider (sv_config idp_service) ''idp'' = Some cfg" "rf_token resp = Some header'"
    "token_opens ?L (sample_key ''primary'') header' p" "tp_allowed_hosts p = pv_allowed_hosts cfg" by blast
  with ok idp_provider(1) show ?thesis by (auto simp: idp_config_def)
qed

text \<open>
  Note. The service unseals with the default clock skew, which refuses an expiry more than 300
  seconds ahead: a token whose configured lifetime is longer cannot be refreshed when it is issued.
\<close>

theorem long_lived_token_not_refreshable:
  assumes L: "sso_laws L" and new: "SsoService_new L client config = Ok service"
    and rng: "length (rng_nonce rng) = 24"
    and seal: "seal_oauth_token L service rng provider tr hosts pattern (Some lifetime) clock = Ok header"
    and now: "sk_seal clock = Some now" "unat now + unat lifetime < 2 ^ 64" and long: "300 < lifetime"
    and later: "sk_state clock' = Some now"
  shows "\<exists>msg. handle_refresh L net service provider' (Some header) rng' clock' = Err (UnsealingError msg)"
proof -
  let ?p = "oauth_builder (''sso-'' @ provider) provider tr hosts pattern (Some lifetime) clock"
  obtain vk where vk: "seals_with L service vk" using SsoService_new_Ok [OF new] by blast
  have tc: "tc_decrypt_config (sv_crypto service) = DecryptConfig_default"
    "find_by_id (tc_key_store (sv_crypto service)) (vk_key_id vk) = Some vk"
    using new vk by (auto simp: SsoService_new_def Let_def TokenCrypto_new_def seals_with_def find_by_id_def)
  obtain token where "from_header (sl_base64 L) (sl_token_serde L) header = Ok token"
    and "tc_unseal (sl_crypto L) (sl_base64 L) (sl_payload_serde L) (sv_crypto service) token now =
      expiration_gate DecryptConfig_default ?p now"
    using seal_payload_token [OF L vk rng seal [unfolded seal_oauth_token_def]] tc by metis
  moreover have "now + lifetime > now + 300"
    using now(2) long by (simp add: word_less_nat_alt unat_word_ariths)
  then have "\<exists>msg. expiration_gate DecryptConfig_default ?p now = Err (InvalidPayload msg)"
    using now(1) by (simp add: expiration_gate_def check_expiration_def check_expiry_def oauth_builder_fields
        expiry_from_def DecryptConfig_default_def ClockSkewConfig_default_def)
  ultimately show ?thesis using later by (auto simp: handle_refresh_def unix_now_def)
qed

section \<open>Routing\<close>

lemma parse_provider_path_eq_Some:
  "parse_provider_path path = Some (a, b) \<longleftrightarrow>
     path = ''/'' @ a @ ''/'' @ b \<and> CHR ''/'' \<notin> set a \<and> a \<noteq> [] \<and> b \<noteq> []"
proof (cases path)
  case Nil
  then show ?thesis by (simp add: parse_provider_path_def)
next
  case (Cons c p)
  then have "parse_provider_path path = Some (a, b) \<longleftrightarrow>
      c = CHR ''/'' \<and> split_once (CHR ''/'') p = Some (a, b) \<and> a \<noteq> [] \<and> b \<noteq> []"
    by (auto simp: parse_provider_path_def split: option.splits if_splits)
  with Cons show ?thesis by (simp add: split_once_eq_Some)
qed

text \<open>An error is answered with its status and its fixed client message, and with no cookie.\<close>

lemma sso_error_response_parts:
  "sso_error_response L e = (sso_status_code e, [(''content-type'', ''application/json'')],
     sl_json_object L ''error'' (sso_client_message e)) \<or> sso_error_response L e = (200, [], [])"
  by (simp add: sso_error_response_def build_response_def or_default_response_def)

text \<open>
  Note. A callback that fails leaves the transaction cookie in the browser: the response to an error
  carries no \<open>Set-Cookie\<close> header.
\<close>

theorem failed_callback_keeps_cookie:
  assumes "rq_method req = ''GET''" and "u_path (rq_uri req) = ''/'' @ provider @ ''/callback''"
    and "provider \<noteq> []" and "CHR ''/'' \<notin> set provider"
    and "\<And>cookie. handle_callback L net service provider (callback_from_query L (u_query (rq_uri req))) cookie
      (rg_seal rng) clock = Err e"
  shows "map_of (fst (snd (route_request L net service rng clock req))) ''set-cookie'' = None"
proof -
  have "parse_provider_path (u_path (rq_uri req)) = Some (provider, ''callback'')"
    using assms(2-4) by (simp add: parse_provider_path_eq_Some)
  moreover have "u_path (rq_uri req) \<noteq> ''/health''" "u_path (rq_uri req) \<noteq> ''/healthz''"
    using assms(2-4) by (auto simp: Cons_eq_append_conv append_eq_Cons_conv)
  ultimately have "route_request L net service rng clock req = sso_error_response L e"
    using assms(1, 5) by (simp add: route_request_def Let_def)
  then show ?thesis using sso_error_response_parts [of L e] by auto
qed

end
