(* ===== verification/Daemons.thy ===== *)
theory Daemons
  imports Cli Sso_Endpoints
begin

text \<open>
  The long-running commands of \<open>crates/icebreaker-cli/src/main.rs\<close>: how \<open>run_server\<close> and \<open>run_sso\<close> start
  and with which errors they refuse to, the health server beside the proxy, the loops that accept
  connections, and the end of the server: signal, delay, drain. Sockets, signals and the metrics
  exporter are arguments; a loop runs over the sequence of events its \<open>select!\<close> yields, and what it
  reads of clocks and counters is part of them. The accept loop of the proxy and its connections are
  the state machine of \<open>Shutdown\<close>.

  Shown: the drain ends, whatever the connections do; after the signal the health server never again
  reports the proxy ready; the loops serve every connection accepted before their end and none after.
\<close>

section \<open>Starting\<close>

record 'a net_env =
  ne_exporter :: "'a \<Rightarrow> (string, unit) result"
  ne_parse_addr :: "string \<Rightarrow> (string, 'a) result"
  ne_bind :: "'a \<Rightarrow> (string, unit) result"
  ne_show :: "'a \<Rightarrow> string"

definition start_metrics :: "'a net_env \<Rightarrow> ServeArgs \<Rightarrow> (string, unit) result" where
  "start_metrics E args =
     (if srv_metrics_enabled args then
        bindR (map_err (\<lambda>e. ''invalid metrics address: '' @ e)
                 (ne_parse_addr E (''0.0.0.0:'' @ nat_to_string (unat (srv_metrics_port args))))) (\<lambda>metrics_addr.
          map_err (\<lambda>e. ''failed to install metrics exporter: '' @ e) (ne_exporter E metrics_addr))
      else Ok ())"

text \<open>Parsing the address and binding the listener, with the errors of the command.\<close>

definition listen :: "'a net_env \<Rightarrow> string \<Rightarrow> (string, 'a) result" where
  "listen E text =
     bindR (map_err (\<lambda>e. ''invalid bind address: '' @ e) (ne_parse_addr E text)) (\<lambda>addr.
     bindR (map_err (\<lambda>e. ''failed to bind to '' @ ne_show E addr @ '': '' @ e) (ne_bind E addr)) (\<lambda>_. Ok addr))"

text \<open>\<open>run_server\<close> up to its accept loop; whether a health server is spawned beside it.\<close>

definition start_server :: "'a net_env \<Rightarrow> crypto_lib \<Rightarrow> base64_lib \<Rightarrow> 'n ipnet_lib \<Rightarrow> rustls_lib \<Rightarrow> ('k, 'i, 'x, 's, 'g) cert_lib \<Rightarrow>
    ('q, 's) lru_lib \<Rightarrow> bytes list \<Rightarrow> (string \<Rightarrow> (string, bytes) result) \<Rightarrow> (string \<Rightarrow> (string, string) result) \<Rightarrow>
    'g \<Rightarrow> int \<Rightarrow> ServeArgs \<Rightarrow> (string, ('k, 'i, 'q, 'n) server_parts \<times> bool \<times> 'a) result" where
  "start_server E C B N R X Q webpki_roots read_bytes read_text rng now args =
     bindR (start_metrics E args) (\<lambda>_.
     bindR (build_server C B N R X Q webpki_roots read_bytes read_text rng now args) (\<lambda>parts.
     let health = health_enabled (pc_health (sp_config parts)) in
     bindR (listen E (bind_addr (sp_config parts))) (\<lambda>addr. Ok (parts, health, addr))))"

text \<open>The \<open>Display\<close> of the errors of the SSO service.\<close>

fun sso_to_string :: "SsoError \<Rightarrow> string" where
  "sso_to_string (ProviderNotFound p) = ''provider not found: '' @ p"
| "sso_to_string (InvalidState r) = ''invalid oauth state: '' @ r"
| "sso_to_string TransactionExpired = ''transaction expired or missing''"
| "sso_to_string TransactionTampered = ''transaction cookie integrity check failed''"
| "sso_to_string (OAuthProviderError e d) = ''oauth provider error: '' @ e @ '' - '' @ d"
| "sso_to_string (TokenExchangeFailed r) = ''token exchange failed: '' @ r"
| "sso_to_string (TokenRefreshFailed r) = ''token refresh failed: '' @ r"
| "sso_to_string (SsoConfigError e) = ''configuration error: '' @ e"
| "sso_to_string (SsoHttpError e) = ''http client error: '' @ e"
| "sso_to_string (SsoSerializationError e) = ''serialization error: '' @ e"
| "sso_to_string (SsoCryptoError e) = ''crypto error: '' @ e"
| "sso_to_string (InvalidRedirectUri u) = ''invalid redirect uri: '' @ u"
| "sso_to_string (MissingParameter n) = ''missing required parameter: '' @ n"
| "sso_to_string (SsoHostNotAllowed h) = ''host not allowed for provider: '' @ h"
| "sso_to_string (SealingError e) = ''token sealing failed: '' @ e"
| "sso_to_string (UnsealingError e) = ''token unsealing failed: '' @ e"
| "sso_to_string (SsoInternalError e) = ''internal error: '' @ e"

record SsoArgs =
  sa_config :: string
  sa_log_level :: string
  sa_log_json :: bool

definition start_sso :: "'a net_env \<Rightarrow> ('h, 'u) sso_libs \<Rightarrow> (string \<Rightarrow> (string, SsoConfig) result) \<Rightarrow>
    (string \<Rightarrow> (string, string) result) \<Rightarrow> (string, unit) result \<Rightarrow> SsoArgs \<Rightarrow>
    (string, SsoService \<times> 'a) result" where
  "start_sso E L Y read_file client args =
     bindR (map_err (\<lambda>e. ''failed to load config: '' @ sso_to_string e) (from_file Y (read_file (sa_config args)))) (\<lambda>config.
     bindR (map_err (\<lambda>e. ''failed to create sso service: '' @ sso_to_string e) (SsoService_new L client config)) (\<lambda>service.
     bindR (listen E (sso_bind_addr config)) (\<lambda>addr. Ok (service, addr))))"

section \<open>Loops\<close>

text \<open>
  \<open>run_health_server\<close>: a connection that is accepted is spawned, a failed accept is skipped, a change of
  the shutdown channel ends the loop when its value is true.
\<close>

datatype 'c health_event = HealthAccept "(string, 'c) result" | ShutdownChanged bool

fun health_loop :: "'c health_event list \<Rightarrow> 'c list \<times> bool" where
  "health_loop [] = ([], False)"
| "health_loop (HealthAccept (Inr c) # es) = (case health_loop es of (cs, e) \<Rightarrow> (c # cs, e))"
| "health_loop (HealthAccept (Inl _) # es) = health_loop es"
| "health_loop (ShutdownChanged True # es) = ([], True)"
| "health_loop (ShutdownChanged False # es) = health_loop es"

definition run_health_server :: "'a net_env \<Rightarrow> HealthConfig \<Rightarrow> 'c health_event list \<Rightarrow> (string, 'c list \<times> bool) result" where
  "run_health_server E health_config es =
     (if \<not> health_enabled health_config then Ok ([], True)
      else bindR (map_err (\<lambda>e. ''invalid health address: '' @ e)
                    (ne_parse_addr E (''0.0.0.0:'' @ nat_to_string (unat (health_port health_config))))) (\<lambda>addr.
           bindR (map_err (\<lambda>e. ''failed to bind health server to '' @ ne_show E addr @ '': '' @ e) (ne_bind E addr))
             (\<lambda>_. Ok (health_loop es))))"

text \<open>The accept loop of \<open>run_sso\<close>; it ends on Ctrl-C.\<close>

datatype 'c sso_event = SsoAccept "(string, 'c) result" | CtrlC

fun sso_loop :: "'c sso_event list \<Rightarrow> 'c list \<times> bool" where
  "sso_loop [] = ([], False)"
| "sso_loop (SsoAccept (Inr c) # es) = (case sso_loop es of (cs, e) \<Rightarrow> (c # cs, e))"
| "sso_loop (SsoAccept (Inl _) # es) = sso_loop es"
| "sso_loop (CtrlC # es) = ([], True)"

text \<open>
  The drain loop of \<open>run_server\<close>, over the counter and the elapsed time each turn reads; between two
  turns it sleeps 100 ms.
\<close>

datatype drain_end = AllDrained | TimedOut u64

fun drain_loop :: "duration \<Rightarrow> (u64 \<times> duration) list \<Rightarrow> drain_end option" where
  "drain_loop limit [] = None"
| "drain_loop limit ((active, elapsed) # turns) =
     (if active = 0 then Some AllDrained
      else if elapsed \<ge> limit then Some (TimedOut active)
      else drain_loop limit turns)"

definition drain_interval :: duration where
  "drain_interval = 100 * 1000000"

text \<open>The end of the server: SIGINT or SIGTERM, the delay, the flag and the channel, then the drain.\<close>

datatype shutdown_signal = Sigint | Sigterm

datatype shutdown_action = Slept duration | MarkedShuttingDown | SentShutdown

definition begin_shutdown :: "ShutdownConfig \<Rightarrow> shutdown_signal \<Rightarrow> shutdown_action list" where
  "begin_shutdown shutdown_config sig =
     (if shutdown_delay shutdown_config \<noteq> 0 then [Slept (shutdown_delay shutdown_config)] else []) @
     [MarkedShuttingDown, SentShutdown]"

section \<open>Lemmas\<close>

lemma start_server_Ok_iff:
  "start_server E C B N R X Q rs rb rt rng now args = Ok (parts, health, addr) \<longleftrightarrow>
     start_metrics E args = Ok () \<and> build_server C B N R X Q rs rb rt rng now args = Ok parts \<and>
     health = health_enabled (pc_health (sp_config parts)) \<and> ne_parse_addr E (bind_addr (sp_config parts)) = Ok addr \<and>
     ne_bind E addr = Ok ()"
  by (auto simp: start_server_def Let_def listen_def)

text \<open>A loop spawns exactly the connections accepted before the event that ends it.\<close>

definition accepted_before :: "('e \<Rightarrow> bool) \<Rightarrow> ('e \<Rightarrow> 'c option) \<Rightarrow> 'e list \<Rightarrow> 'c list" where
  "accepted_before stops conn es = List.map_filter conn (takeWhile (\<lambda>e. \<not> stops e) es)"

fun health_conn :: "'c health_event \<Rightarrow> 'c option" where
  "health_conn (HealthAccept r) = ok r"
| "health_conn (ShutdownChanged _) = None"

lemma health_loop_eq:
  "health_loop es = (accepted_before (\<lambda>e. e = ShutdownChanged True) health_conn es, ShutdownChanged True \<in> set es)"
  by (induction es rule: health_loop.induct) (auto simp: accepted_before_def List.map_filter_simps)

fun sso_conn :: "'c sso_event \<Rightarrow> 'c option" where
  "sso_conn (SsoAccept r) = ok r"
| "sso_conn CtrlC = None"

lemma sso_loop_eq: "sso_loop es = (accepted_before (\<lambda>e. e = CtrlC) sso_conn es, CtrlC \<in> set es)"
  by (induction es rule: sso_loop.induct) (auto simp: accepted_before_def List.map_filter_simps)

lemma drain_loop_None: "drain_loop limit turns = None \<longleftrightarrow> (\<forall>(active, elapsed) \<in> set turns. active \<noteq> 0 \<and> elapsed < limit)"
  by (induction limit turns rule: drain_loop.induct) auto

text \<open>Once the flag is set it stays set, whatever steps the server takes.\<close>

lemma shutting_down_step: "server_step s t \<Longrightarrow> is_shutting_down (sv_shutdown s) \<Longrightarrow> is_shutting_down (sv_shutdown t)"
  by (auto elim!: server_stepE simp: shutdown_simps)

lemma shutting_down_stays:
  "server_step\<^sup>*\<^sup>* s t \<Longrightarrow> is_shutting_down (sv_shutdown s) \<Longrightarrow> is_shutting_down (sv_shutdown t)"
  by (induction rule: rtranclp_induct) (auto intro: shutting_down_step)

section \<open>Theorems\<close>

text \<open>
  Note. The drain always ends, whatever the connections do: with 100 ms between two turns it makes at most
  \<open>timeout / 100 ms + 1\<close> of them, and it ends by the timeout only with connections still counted.
\<close>

theorem drain_terminates:
  assumes "\<forall>i < length turns. i * drain_interval \<le> snd (turns ! i)"
    and "length turns = limit div drain_interval + 2"
  shows "\<exists>r. drain_loop limit turns = Some r \<and> (\<forall>active. r = TimedOut active \<longrightarrow> active \<noteq> 0)"
proof -
  let ?i = "limit div drain_interval + 1"
  have i: "?i < length turns" using assms(2) by simp
  have "limit \<le> ?i * drain_interval" by (simp add: drain_interval_def)
  also have "\<dots> \<le> snd (turns ! ?i)" using assms(1) i by blast
  finally have "\<not> snd (turns ! ?i) < limit" by simp
  then have "drain_loop limit turns \<noteq> None"
    unfolding drain_loop_None using nth_mem [OF i] by (metis (mono_tags, lifting) case_prodD prod.collapse)
  moreover have "drain_loop limit turns = Some (TimedOut a) \<Longrightarrow> a \<noteq> 0" for a
    by (induction limit turns rule: drain_loop.induct) (auto split: if_splits)
  ultimately show ?thesis by blast
qed

text \<open>
  Note. After the flag is set the health server reports the proxy as not ready, with status 503, for ever,
  over any steps of the server; liveness is unaffected. During the delay before that it still reports
  the proxy as ready.
\<close>

theorem not_ready_after_shutdown:
  assumes "server_step\<^sup>*\<^sup>* s t" and "is_shutting_down (sv_shutdown s)" and "live \<noteq> ready"
  shows "fst (build_health_response (sv_shutdown t) live ready ready) = 503 \<and>
    fst (build_health_response (sv_shutdown t) live ready live) = 200"
  using shutting_down_stays [OF assms(1,2)] assms(3)
  by (simp add: build_health_response_def readiness_response_def plain_response_def is_ready_def is_alive_def)

theorem ready_during_delay:
  "shutdown_delay c \<noteq> 0 \<Longrightarrow> hd (begin_shutdown c sig) = Slept (shutdown_delay c) \<and>
     fst (build_health_response ShutdownState_new ''/healthz'' ''/readyz'' ''/readyz'') = 200"
  by (simp add: begin_shutdown_def build_health_response_def readiness_response_def is_ready_def ShutdownState_new_def)

end
