(* ===== verification/Spec2Isabelle.thy ===== *)
theory Spec2Isabelle
  imports Prelude Errors Config Processor_Config Token Constraints Nonce Metrics Http Body_Scan Decompress
    Response_Scan Crypto Auth_Validation Redaction Ip_Filter Host_Policy Rate_Limit Processors Admission
    Connect Shutdown Serve Connection Accounting Redis_Nonce Tls Cli Sso_Config Sso_Transaction Sso_Endpoints
    Daemons
begin

text \<open>
  Icebreaker is an egress proxy that keeps API secrets out of the programs that use them. A secret is
  sealed, together with the constraints on its use, into a token for the proxy's public key. A client
  sends its requests through the proxy with the token in a header; the proxy opens the token, checks
  the client and the request against the constraints, puts the secret where the upstream expects it,
  forwards the request, and scans the response so that the secret does not come back. A companion
  service runs OAuth flows and hands out their access tokens as sealed tokens. This development models
  the eight crates under \<open>src/crates\<close> (names below are relative to them) and proves what that promise
  rests on.

  \<^bold>\<open>Parts and theories.\<close> A theory models one part, in the order of the code: its data as records and
  datatypes with the source's constructors, one definition per function.

  \<^item> \<open>Prelude\<close>: results, strings, bytes and words, the lemmas the components share.
  \<^item> \<open>Errors\<close>, \<open>Config\<close>, \<open>Processor_Config\<close>, \<open>Token\<close>, \<open>Constraints\<close>: the crate \<open>icebreaker-common\<close> (\<open>error.rs\<close>,
    \<open>config.rs\<close>, \<open>auth.rs\<close>, \<open>processor.rs\<close>, \<open>token.rs\<close>). Timestamps, ports and counts are words of the
    source's width; the expiration check is proved equal to a decision over the integers where
    nothing overflows, and its wrap-around is shown where something does.
  \<^item> \<open>Crypto\<close>, \<open>Auth_Validation\<close>: \<open>icebreaker-crypto\<close> (\<open>keypair.rs\<close>, \<open>sealed_box.rs\<close>, \<open>hkdf.rs\<close>, \<open>hmac.rs\<close>,
    \<open>auth_validation.rs\<close>): the key store and its rotation, sealing and opening, signatures, client
    authentication. \<open>Redaction\<close>: what the debug texts of credentials show.
  \<^item> \<open>Nonce\<close>, \<open>Redis_Nonce\<close>: \<open>icebreaker-nonce/src/store.rs\<close>, the in-memory store behind its lock and the
    Redis store, whose two commands interleave with those of other proxies.
  \<^item> \<open>Metrics\<close>, \<open>Http\<close>: \<open>proxy/src/metrics/mod.rs\<close> and the HTTP data that handlers exchange.
  \<^item> \<open>Body_Scan\<close>, \<open>Decompress\<close>, \<open>Response_Scan\<close>: \<open>proxy/src/body/\<close> and \<open>middleware/response_scan.rs\<close>, the
    bodies as machines that are polled frame by frame.
  \<^item> \<open>Ip_Filter\<close>, \<open>Host_Policy\<close>, \<open>Rate_Limit\<close>: \<open>proxy/src/network/\<close>, \<open>middleware/host_validation.rs\<close> and
    \<open>middleware/rate_limit.rs\<close>.
  \<^item> \<open>Processors\<close>, \<open>Admission\<close>: \<open>proxy/src/processor/\<close> and \<open>admission.rs\<close>, from the token header to the request
    that is forwarded.
  \<^item> \<open>Connect\<close>, \<open>Shutdown\<close>, \<open>Serve\<close>, \<open>Connection\<close>, \<open>Accounting\<close>: \<open>proxy/src/tunnel/\<close>, \<open>proxy/src/serve/\<close> and
    \<open>middleware/token_injection.rs\<close>. \<open>Serve\<close> composes the middleware stack, \<open>Connection\<close> the service
    function of a connection over the state all connections share.
  \<^item> \<open>Tls\<close>: \<open>proxy/src/tls/\<close>, the acceptor, client certificates, the interception of tunnels.
  \<^item> \<open>Sso_Config\<close>, \<open>Sso_Transaction\<close>, \<open>Sso_Endpoints\<close>: \<open>icebreaker-sso\<close>, configuration and providers, the signed
    transaction cookie, the endpoints of a flow.
  \<^item> \<open>Cli\<close>, \<open>Daemons\<close>: \<open>icebreaker-cli/src/main.rs\<close>, its commands, and how its servers start, run and stop.

  \<^bold>\<open>State and effects.\<close> An operation that changes an object takes its record and returns it changed. Errors
  are values of \<open>TokenizerError + 'a\<close>; a panic of the source is the constructor \<open>Panic\<close> of \<open>outcome\<close>, not
  returning is \<open>None\<close> of a \<open>partial_function\<close>. Metrics are values a handler returns in the order it
  records them. Every reading of a clock and every random value is an argument. Concurrent tasks are
  step relations or sequences of calls in the order in which a lock, a server or the runtime
  serialises them; theorems quantify over all such sequences.

  \<^bold>\<open>Parameters.\<close> Libraries that are not part of the repository are records of functions, and what the code
  relies on is a named predicate over them: \<open>box_laws\<close>, \<open>mac_laws\<close>, \<open>hex_laws\<close> (sealed boxes, MACs, hexadecimal
  text), \<open>base64_laws\<close>, \<open>serde_laws\<close> (round trips), \<open>header_laws\<close> (the header map of the \<open>http\<close> crate), \<open>uri_laws\<close>,
  \<open>url_laws\<close>, \<open>sso_laws\<close>, \<open>ipnet_laws\<close>, \<open>decoder_laws\<close> (streaming decompressors), \<open>lru_laws\<close> (the leaf cache),
  \<open>redis_laws\<close> (the documented commands of a key-value server). The regular expression
  engine, name resolution, sockets, the HTTP client and the upstream are arbitrary functions. Every
  theorem with such a hypothesis has a witness with concrete functions.

  \<^bold>\<open>Interfaces.\<close> Locales state what one component relies on in another, and are interpreted on the model's
  own definitions: \<open>nonce_store\<close> (an allowed use is remembered up to a deadline), from which the bounds
  on the uses of a token follow, \<open>stream_scanner\<close> (what a scanner has passed on contains no pattern),
  \<open>byte_source\<close> (a reader hands out its body in order, up to its end or error, and gets there), \<open>gcra\<close> (the rate limiter), \<open>port_aware_matcher\<close>
  (host rules of tokens and of the static policy), \<open>key_addition\<close> (rotation and archiving keep old keys).

  \<^bold>\<open>What is shown.\<close>
  \<^item> Secrets stay inside: whatever the upstream answers, in any chunks and encoding, no header and no part
    of the body the client receives contains the secret of its token (\<open>Body_Scan\<close>, \<open>Response_Scan\<close>, and
    \<open>proxy_never_returns_secret\<close> below for the whole stack); debug texts do not depend on credentials.
  \<^item> Tokens are confined: admission and CONNECT let a request pass only for an opened, unexpired token, an
    authenticated client, an allowed host, method and path (\<open>Admission\<close>, \<open>Serve\<close>); the theorems at the end
    of this file carry this from the sealing, by an OAuth flow or on the command line, to the proxy.
  \<^item> Limits hold: a token with \<open>m\<close> uses passes at most \<open>m\<close> times on all connections together, plain or
    tunnelled (\<open>Connection\<close>); the checks of the Redis store, whose two commands interleave with those of
    other proxies, keep to the limit too; the rate limiter spends no more than time and burst allow;
    decompression stays within its bound.
  \<^item> The network is guarded: the address filter allows exactly the addresses outside the documented ranges
    and outside \<open>100::/16\<close>, which is wider than its comment, and neither the connector nor a tunnel
    connects to another; a server is no open proxy unless asked to be.
  \<^item> Flows and keys work: an OAuth flow that was started with a redirect URI completes, its callback and refresh are sound, cookies and
    sealed tokens come back, also after key rotations; intercepted connections get valid certificates.
  \<^item> The server accounts for itself: the metrics count exactly the requests, errors and tunnels of a run
    (\<open>Accounting\<close>); a drain that ends by the counter leaves nothing open but a connection that is accepted
    and not counted yet, and a drain always ends.

  Where the code departs from what its comments say, a theorem marked as a note shows it.

  \<^bold>\<open>Bounds and fuel.\<close> The constants are the source's: 100 MiB of decompressed data, 8 KiB chunks, 1024 cached
  leaves with a day of margin, 128 characters of a request id, a nonce count that saturates at \<open>2 ^ 32 - 1\<close>
  (the bounds on uses ask for a smaller limit). No definition uses fuel: loops over data are structural
  or have a termination proof; the two loops of the source that may not return, placeholder
  replacement and environment expansion, are partial functions to \<open>option\<close>, with theorems that say
  exactly when they return. Polling is iterated a number of times given by the reader, for every number.

  \<^bold>\<open>Not modelled.\<close> Hyper's connection handling and client pools, TLS handshakes and the copying of tunnel
  bytes, beyond the events they yield; parsing of the command line, logging, the export of metrics; the
  derived serialisation of configurations and tokens, which is a parameter with its round trip; the facade
  crate (re-exports), benchmarks and deployment files. Durations and byte counts of requests are not
  among the recordings of the handlers. Timing side channels and the zeroing of memory are outside a
  functional model.
\<close>

section \<open>The whole stack\<close>

text \<open>
  Property C1. Whoever answers a request that was sent with a token, the client is not given the token's
  secret: with response scanning on, no header value and no part of the body that the middleware
  stack answers contains the secret that admission injected, for any upstream, rate limiter and nonce
  store.
\<close>

theorem proxy_never_returns_secret:
  assumes "header_laws (al_headers L)"
    and "stack_call L U D chk client st request limit_now ck = Returns ((w, Ok response), st')"
    and "h_get (al_headers L) (rq_headers request) TOKEN_HEADER \<noteq> None"
    and "ta_response_scan_enabled (ss_admission st)"
    and "presents L (ss_admission st) request (ck_unseal ck) token payload" and "tp_secret payload \<noteq> []"
  shows "(\<forall>v \<in> set (h_values (al_headers L) (rs_headers response)). \<not> sublist (as_bytes (tp_secret payload)) (as_bytes v)) \<and>
    \<not> sublist (as_bytes (tp_secret payload))
        (all_bytes (al_headers L) (client_polls (al_headers L) D n (rs_body response)))"
proof -
  from stack_call_Ok [OF assms(2)] obtain w' where
    "TokenInjectionService_call L chk (ss_admission st) (scanned_proxy U (al_headers L) D client) request ck =
      Returns ((w', Ok response), ss_admission st')" by metis
  from token_injection_Ok [OF this] obtain w1 w2 request' where
    a: "admit L chk (ss_admission st) request ck = Returns ((w1, Ok request'), ss_admission st')"
    and i: "scanned_proxy U (al_headers L) D client request' = (w2, Ok response)" by metis
  from admission_checks [OF assms(1) a assms(3)] obtain token' payload' where
    p: "presents L (ss_admission st) request (ck_unseal ck) token' payload'"
      "forwards L (ss_admission st) payload' request request'" by blast
  have "payload' = payload" using p(1) assms(5) by (simp add: presents_iff)
  then have "rq_ext_patterns request' = Some (generate_scan_patterns (al_encoders L) (tp_secret payload))"
    using p(2) assms(4) by (simp add: forwards_def)
  from scanned_answer_clean [OF assms(1,6) this i [unfolded scanned_proxy_def]] show ?thesis .
qed

definition calm_upstream :: "((string \<times> string) list, unit) request \<Rightarrow>
    (string, ((string \<times> string) list, (string \<times> string) list raw_body) response) result" where
  "calm_upstream r = Ok \<lparr>rs_status = 200, rs_headers = [], rs_body = [ReadyOk (DataFrame [1, 2])]\<rparr>"

theorem proxy_never_returns_secret_witness:
  "\<exists>w response st'. stack_call sample_libs plain_uris stored_decoder check_and_record calm_upstream
       \<lparr>ss_limiter = None, ss_admission = sample_admission\<rparr> (token_request ''Tokenizer t'') 0 sample_clock =
     Returns ((w, Ok response), st') \<and>
     \<not> sublist (as_bytes ''s3cret'') (all_bytes assoc_headers (client_polls assoc_headers stored_decoder 3 (rs_body response)))"
proof -
  let ?st = "\<lparr>ss_limiter = None, ss_admission = sample_admission\<rparr>"
  have H: "al_headers sample_libs = assoc_headers" by (simp add: sample_libs_def)
  obtain w1 where a: "admit sample_libs check_and_record sample_admission (token_request ''Tokenizer t'') sample_clock =
     Returns ((w1, Ok sample_forwarded), sample_admission)" using sample_admitted by blast
  obtain target where "forward_target plain_uris assoc_headers sample_forwarded = Ok target"
    by (simp add: forward_target_def Let_def sample_forwarded_def token_request_def bearer_request_def header_str_def
        assoc_headers_def visible_ascii_def plain_uris_def to_lower_def ascii_lower_def ascii_upper_letters_def
        ascii_lower_letters_def)
  then have "ProxyService_call plain_uris assoc_headers calm_upstream sample_forwarded =
      Ok \<lparr>rs_status = 200, rs_headers = [], rs_body = [ReadyOk (DataFrame [1, 2])]\<rparr>"
    by (simp add: ProxyService_call_def calm_upstream_def)
  moreover have "scan_response_headers assoc_headers [] S = ([], Ok ())" for S
    by (simp add: scan_response_headers_def scan_header_values_def assoc_headers_def)
  moreover have "content_encodings assoc_headers [] = []" by (simp add: content_encodings_def assoc_headers_def)
  ultimately obtain w2 response where
    i: "scanned_proxy plain_uris assoc_headers stored_decoder calm_upstream sample_forwarded = (w2, Ok response)"
    by (simp add: scanned_proxy_def DynamicResponseScanService_call_def resolve_encoding_def Let_def cong: if_cong)
  have c: "stack_call sample_libs plain_uris stored_decoder check_and_record calm_upstream ?st (token_request ''Tokenizer t'') 0 sample_clock =
      Returns ((w1 @ w2, Ok response), ?st)"
    using a i by (simp add: stack_call_def TokenInjectionService_call_def H)
  have L: "sample_libs\<lparr>al_payload_serde := one_payload_serde sample_payload\<rparr> = sample_libs"
    by (simp add: sample_libs_def)
  have p: "presents sample_libs (ss_admission ?st) (token_request ''Tokenizer t'') (ck_unseal sample_clock)
      (SealedToken_new ''k1'' (replicate 72 (CHR ''a''))) sample_payload"
    using sample_presents [of sample_admission sample_payload 900] sample_lifetime
    by (simp add: L sample_admission_def TokenAdmission_new_def sample_clock_def)
  from proxy_never_returns_secret [OF _ c _ _ p, of 3] c show ?thesis
    by (auto simp: H assoc_headers_laws token_request_header sample_payload_fields sample_admission_def TokenAdmission_new_def)
qed

section \<open>Tokens of the SSO service at the proxy\<close>

text \<open>The payload a request presents is the one its header was sealed from.\<close>

lemma presented_payload:
  assumes H: "header_laws (al_headers A)" and p: "presents A self request now token payload"
    and req: "h_get (al_headers A) (rq_headers request) TOKEN_HEADER = Some header"
    and sealed: "from_header (al_base64 A) (al_token_serde A) header = Ok sealed"
    and unseals: "tc_unseal (al_crypto A) (al_base64 A) (al_payload_serde A) (ta_crypto self) sealed now =
      expiration_gate cfg q now"
  shows "payload = q"
proof -
  have "token = sealed"
    using p req sealed by (auto simp: presents_def dest: header_lawsD(7) [OF H])
  with p unseals have "expiration_gate cfg q now = Ok payload" by (simp add: presents_def)
  then show ?thesis by (simp only: expiration_gate_Ok_iff)
qed

text \<open>The two programs are built with the same libraries.\<close>

definition shares_libs :: "('h, 'u) sso_libs \<Rightarrow> 'k admission_libs \<Rightarrow> bool" where
  "shares_libs L A \<longleftrightarrow> al_crypto A = sl_crypto L \<and> al_base64 A = sl_base64 L \<and>
     al_token_serde A = sl_token_serde L \<and> al_payload_serde A = sl_payload_serde L"

text \<open>
  Property C5. The token an OAuth flow hands out is confined by the provider's configuration: a proxy that
  holds the service's key and admits a request with it sends the request to a host that the provider's
  allowed hosts or host pattern cover, and scans the response for the access token.
\<close>

theorem sso_token_confined:
  assumes L: "sso_laws L" and libs: "shares_libs L A" and H: "header_laws (al_headers A)"
    and vk: "seals_with L service vk" and rng: "length (rng_nonce rng) = 24"
    and seal: "seal_oauth_token L service rng provider tr hosts pattern lifetime clock = Ok header"
    and key: "find_by_id (tc_key_store (ta_crypto self)) (vk_key_id vk) = Some vk"
    and req: "h_get (al_headers A) (rq_headers request) TOKEN_HEADER = Some header"
    and ok: "admit A chk self request ck = Returns ((w, Ok request'), self')"
  shows "\<exists>host. target_host (al_headers A) request = Ok host \<and>
    ((\<exists>e \<in> set hosts. entry_matches e (fst (split_host_port host)) (snd (split_host_port host))) \<or>
     pattern_accepts (al_regex A) pattern HOST_PATTERN_REGEX_SIZE_LIMIT (fst (split_host_port host))) \<and>
    rq_uri request' = rq_uri request \<and>
    (ta_response_scan_enabled self \<longrightarrow>
      rq_ext_patterns request' = Some (generate_scan_patterns (al_encoders A) (tr_access_token tr)))"
proof -
  let ?p = "oauth_builder (''sso-'' @ provider) provider tr hosts pattern lifetime clock"
  from admission_checks [OF H ok] req obtain token payload where
    t: "presents A self request (ck_unseal ck) token payload" "request_permitted A self request token payload"
      "forwards A self payload request request'" by auto
  obtain sealed where s: "from_header (sl_base64 L) (sl_token_serde L) header = Ok sealed"
    "tc_unseal (sl_crypto L) (sl_base64 L) (sl_payload_serde L) (ta_crypto self) sealed (ck_unseal ck) =
      expiration_gate (tc_decrypt_config (ta_crypto self)) ?p (ck_unseal ck)"
    using seal_payload_token [OF L vk rng seal [unfolded seal_oauth_token_def]] key by metis
  have "payload = ?p"
    using presented_payload [OF H t(1) req] s libs by (simp add: shares_libs_def)
  with t(2, 3) show ?thesis
    by (auto simp: request_permitted_def validate_host_Ok_iff oauth_builder_fields forwards_def)
qed

definition shared_sso :: "((string \<times> string) list, string) sso_libs" where
  "shared_sso = (idp_libs ''sso-idp'')\<lparr>sl_base64 := nibble_base64\<rparr>"

definition shared_proxy :: "(string \<times> string) list admission_libs" where
  "shared_proxy = sample_libs\<lparr>al_crypto := mac32, al_base64 := nibble_base64, al_token_serde := plain_token_serde,
     al_payload_serde := one_payload_serde (idp_payload ''sso-idp'')\<rparr>"

definition idp_admission :: "InMemoryNonceStore TokenAdmission" where
  "idp_admission = TokenAdmission_new (TokenCrypto_new (with_primary (sample_key ''primary'')))"

definition idp_request :: "string \<Rightarrow> ((string \<times> string) list, unit) request" where
  "idp_request v = (bearer_request ''x'')\<lparr>rq_headers := [(''host'', ''api.idp''), (to_lower TOKEN_HEADER, v)]\<rparr>"

lemma shared_libs:
  "sso_laws shared_sso" "shares_libs shared_sso shared_proxy" "header_laws (al_headers shared_proxy)"
  "seals_with shared_sso idp_service (sample_key ''primary'')"
  "find_by_id (tc_key_store (ta_crypto idp_admission)) (vk_key_id (sample_key ''primary'')) = Some (sample_key ''primary'')"
  using sso_sample_laws(1) [of "idp_payload ''sso-idp''" idp_transaction] nibble_base64_laws idp_seals(1) [of "''sso-idp''"]
  by (auto simp: sso_laws_def shared_sso_def idp_libs_def shares_libs_def shared_proxy_def sso_sample_def
      sample_libs_def assoc_headers_laws seals_with_def idp_admission_def TokenAdmission_new_def
      TokenCrypto_new_def with_primary_def find_by_id_def)

lemma nibble_visible: "visible_ascii (''Tokenizer '' @ nibble_encode bs)"
proof -
  have n: "visible_ascii [nibble_chars ! i]" if "i < 16" for i
  proof -
    have "i \<in> set [0, 1, 2, 3, 4, 5, 6, 7, 8, 9, 10, 11, 12, 13, 14, 15]" using that by (simp, presburger)
    then show ?thesis by (auto simp: nibble_chars_def visible_ascii_def)
  qed
  have "visible_ascii (nibble_encode bs)"
  proof (induction bs)
    case Nil
    then show ?case by (simp add: nibble_encode_def visible_ascii_def)
  next
    case (Cons b bs)
    have "unat b < 256" using unsigned_less [of b] by simp
    then have "unat b div 16 < 16" by (simp add: div_less_iff_less_mult)
    with n Cons show ?case by (simp add: nibble_encode_def visible_ascii_def)
  qed
  then show ?thesis by (simp add: visible_ascii_def)
qed

lemma idp_token_visible:
  assumes "seal_oauth_token shared_sso idp_service idp_rng ''idp'' idp_tokens [''api.idp''] None (Some 200)
    (idp_clock 200) = Ok header"
  shows "visible_ascii header"
  using assms nibble_visible
  by (auto simp: seal_oauth_token_def seal_payload_header_def to_header_def shared_sso_def nibble_base64_def)

lemma idp_payload_fields:
  "tp_auth (idp_payload i) = AuthNone" "tp_allowed_methods (idp_payload i) = []" "tp_allowed_paths (idp_payload i) = []"
  "tp_allowed_path_pattern (idp_payload i) = None" "tp_replay_protection (idp_payload i) = None"
  "tp_allowed_hosts (idp_payload i) = [''api.idp'']"
  by (simp_all add: idp_payload_def oauth_builder_def Let_def b_oauth_def b_metadata_def b_expires_at_def
      b_allowed_hosts_def payload_builder_def AuthConfig_default_def)

lemma idp_seal_shared:
  "\<exists>header. seal_oauth_token shared_sso idp_service idp_rng ''idp'' idp_tokens [''api.idp''] None (Some 200)
    (idp_clock 200) = Ok header"
proof -
  have "build_payload (idp_payload ''sso-idp'') = Ok (idp_payload ''sso-idp'')"
    by (simp add: build_payload_def idp_payload_fields)
  then show ?thesis
    by (simp add: seal_oauth_token_def seal_payload_header_def tc_seal_def idp_service_def TokenCrypto_new_def
        with_primary_def create_sealed_token_def seal_def shared_sso_def idp_libs_def sso_sample_def
        one_payload_serde_def mac32_def plain_crypto_def to_header_def plain_token_serde_def idp_payload_def [symmetric])
qed

lemma idp_token_admitted:
  assumes seal: "seal_oauth_token shared_sso idp_service idp_rng ''idp'' idp_tokens [''api.idp''] None (Some 200)
    (idp_clock 200) = Ok header"
  shows "\<exists>w r. admit shared_proxy chk idp_admission (idp_request header)
    \<lparr>ck_unseal = 200, ck_ttl = 200, ck_mono = 0, ck_process = 200\<rparr> = Returns ((w, Ok r), idp_admission)"
proof -
  let ?p = "idp_payload ''sso-idp''"
  have lifetime: "lifetime_ok DecryptConfig_default ?p 200"
    by (simp add: lifetime_ok_def DecryptConfig_default_def ClockSkewConfig_default_def check_expiration_def
        check_expiry_def idp_payload_def oauth_builder_fields expiry_from_def idp_clock_def)
  obtain token where t: "from_header (sl_base64 shared_sso) (sl_token_serde shared_sso) header = Ok token"
    "tc_unseal (sl_crypto shared_sso) (sl_base64 shared_sso) (sl_payload_serde shared_sso) (ta_crypto idp_admission)
      token 200 = expiration_gate (tc_decrypt_config (ta_crypto idp_admission)) ?p 200"
    using seal_payload_token [OF shared_libs(1, 4) idp_seals(2) seal [unfolded seal_oauth_token_def]] shared_libs(5)
    by (metis append_Cons append_Nil idp_payload_def)
  have get: "h_get assoc_headers (rq_headers (idp_request header)) TOKEN_HEADER = Some header"
    by (simp add: idp_request_def assoc_headers_def TOKEN_HEADER_def to_lower_def ascii_lower_def
        ascii_upper_letters_def ascii_lower_letters_def)
  have d: "tc_decrypt_config (ta_crypto idp_admission) = DecryptConfig_default"
    by (simp add: idp_admission_def TokenAdmission_new_def TokenCrypto_new_def)
  have A: "al_headers shared_proxy = assoc_headers" by (simp add: shared_proxy_def sample_libs_def)
  have "presents shared_proxy idp_admission (idp_request header) 200 token ?p"
    unfolding presents_def A
    using t get lifetime shared_libs(2) idp_token_visible [OF seal] d
    by (auto simp: shares_libs_def expiration_gate_Ok_iff assoc_headers_def)
  moreover have "target_host assoc_headers (idp_request header) = Ok ''api.idp''"
    by (simp add: target_host_def idp_request_def bearer_request_def assoc_headers_def to_lower_def ascii_lower_def
        ascii_upper_letters_def ascii_lower_letters_def visible_ascii_def)
  then have "request_permitted shared_proxy idp_admission (idp_request header) token ?p"
    by (simp add: request_permitted_def A idp_payload_fields auth_shown_def validate_method_def validate_path_def
        validate_host_def split_host_port_def rfind_char_def)
  moreover have "\<exists>w r. finalize shared_proxy idp_admission (idp_request header) ?p 200 = (w, Ok r)"
    by (simp add: finalize_def Let_def shared_proxy_def sample_libs_def validate_processor_config_def inject_process_def
        InjectConfig_bearer_def assoc_headers_def format_value_def visible_ascii_def idp_payload_def
        oauth_builder_fields idp_tokens_def)
  ultimately show ?thesis
    using admit_token_complete [of shared_proxy idp_admission "idp_request header"
        "\<lparr>ck_unseal = 200, ck_ttl = 200, ck_mono = 0, ck_process = 200\<rparr>"] idp_payload_fields(5)
    by fastforce
qed

theorem sso_token_confined_witness:
  "\<exists>header w r. admit shared_proxy check_and_record idp_admission (idp_request header)
     \<lparr>ck_unseal = 200, ck_ttl = 200, ck_mono = 0, ck_process = 200\<rparr> = Returns ((w, Ok r), idp_admission) \<and>
     (\<exists>host. target_host assoc_headers (idp_request header) = Ok host)"
proof -
  obtain header where seal: "seal_oauth_token shared_sso idp_service idp_rng ''idp'' idp_tokens [''api.idp''] None
      (Some 200) (idp_clock 200) = Ok header" using idp_seal_shared by blast
  obtain w r where a: "admit shared_proxy check_and_record idp_admission (idp_request header)
      \<lparr>ck_unseal = 200, ck_ttl = 200, ck_mono = 0, ck_process = 200\<rparr> = Returns ((w, Ok r), idp_admission)"
    using idp_token_admitted [OF seal] by blast
  have A: "al_headers shared_proxy = assoc_headers" by (simp add: shared_proxy_def sample_libs_def)
  have "h_get (al_headers shared_proxy) (rq_headers (idp_request header)) TOKEN_HEADER = Some header"
    by (simp add: A idp_request_def assoc_headers_def TOKEN_HEADER_def to_lower_def ascii_lower_def
        ascii_upper_letters_def ascii_lower_letters_def)
  from sso_token_confined [OF shared_libs(1-4) idp_seals(2) seal shared_libs(5) this a] a show ?thesis
    unfolding A by blast
qed

section \<open>Tokens of the command line at the proxy\<close>

text \<open>What the options of \<open>seal\<close> allow a request to be.\<close>

definition seal_options_permit :: "'h admission_libs \<Rightarrow> SealArgs \<Rightarrow> ('h, 'b) request \<Rightarrow> bool" where
  "seal_options_permit A args request \<longleftrightarrow>
     (\<exists>host. target_host (al_headers A) request = Ok host \<and>
        (\<exists>e \<in> set (parse_csv (Some (se_allowed_hosts args)) (\<lambda>s. s)).
           entry_matches e (fst (split_host_port host)) (snd (split_host_port host)))) \<and>
     (parse_csv (se_allowed_methods args) (map ascii_upper) = [] \<or>
        (\<exists>m \<in> set (parse_csv (se_allowed_methods args) (map ascii_upper)). eq_ignore_ascii_case m (rq_method request))) \<and>
     (parse_csv (se_allowed_paths args) (\<lambda>s. s) = [] \<and> se_allowed_path_pattern args = None \<or>
        u_path (rq_uri request) \<in> set (parse_csv (se_allowed_paths args) (\<lambda>s. s)) \<or>
        pattern_accepts (al_regex A) (se_allowed_path_pattern args) PATH_PATTERN_REGEX_SIZE_LIMIT (u_path (rq_uri request)))"

text \<open>When the token that \<open>seal\<close> makes expires, and under which nonce its uses are counted.\<close>

definition sealed_expiry :: "seal_env \<Rightarrow> u64 \<Rightarrow> u64" where
  "sealed_expiry env lifetime = (case sx_now env of Some t \<Rightarrow> t + lifetime | None \<Rightarrow> 0)"

definition sealed_nonce :: "seal_env \<Rightarrow> SealArgs \<Rightarrow> string" where
  "sealed_nonce env args = (case se_nonce args of Some n \<Rightarrow> n | None \<Rightarrow> sx_nonce env)"

text \<open>
  One more use of the token was recorded in the server's own store, under the token's nonce and its
  limit, and the store allowed it; the store it left is the one later requests are checked against.
\<close>

definition use_recorded :: "'s check_fn \<Rightarrow> 's TokenAdmission \<Rightarrow> seal_env \<Rightarrow> SealArgs \<Rightarrow> admission_clock \<Rightarrow>
    's TokenAdmission \<Rightarrow> bool" where
  "use_recorded chk self env args ck self' \<longleftrightarrow>
     (\<exists>store lifetime ttl r store'. ta_nonce_store self = Some store \<and> se_expires_in args = Some lifetime \<and>
        ttl_from_expiry (se_nonce_ttl args) (sealed_expiry env lifetime) (ta_clock_skew self) (ck_ttl ck) = Ok ttl \<and>
        chk store (sealed_nonce env args) (if se_single_use args then Some 1 else se_max_uses args) ttl
          (ck_mono ck) = Returns (r, store') \<and>
        allowed_of r \<and> self' = self\<lparr>ta_nonce_store := Some store'\<rparr>)"

lemma replay_passed_recorded:
  assumes "build_seal_payload U J (sx_now env) (sx_nonce env) args = Ok p" and "replay_passed chk self self' p ck"
  shows "if se_single_use args \<or> se_max_uses args \<noteq> None then use_recorded chk self env args ck self' else self' = self"
proof (cases "se_single_use args \<or> se_max_uses args \<noteq> None")
  case True
  then have "tp_replay_protection p = Some \<lparr>rp_nonce = sealed_nonce env args,
      rp_max_uses = (if se_single_use args then Some 1 else se_max_uses args), rp_nonce_ttl_seconds = se_nonce_ttl args\<rparr>"
    "tp_expires_at p = map_option (sealed_expiry env) (se_expires_in args)"
    using seal_payload_limits [OF assms(1)]
    by (simp_all add: sealed_nonce_def unwrap_or_def sealed_expiry_def [abs_def])
  with assms(2) have "use_recorded chk self env args ck self'"
    unfolding replay_passed_def use_recorded_def by (simp only: option.case ReplayProtection.simps) fastforce
  with True show ?thesis by simp
next
  case False
  with assms(2) seal_payload_limits(2) [OF assms(1)] show ?thesis by (simp only: replay_passed_def if_False option.case)
qed

lemma presented_unexpired:
  assumes "presents A self request now token p" and "tp_expires_at p = Some e"
  shows "now \<le> e + tolerance_seconds (dc_clock_skew (tc_decrypt_config (ta_crypto self)))"
  using assms
  by (auto simp: presents_def tc_unseal_def decrypt_Ok_iff lifetime_ok_def check_expiration_def check_expiry_def
      split: ExpirationStatus.splits option.splits if_splits)

text \<open>
  Property C7. A token sealed on the command line for a server's public key is honoured by that server
  within its options: an admitted request goes to a listed host, with a listed method and path, and
  comes before the token's expiry with the server's tolerance; when the token has a limit, one more use
  under the token's own nonce and limit was recorded and allowed by the server's store, which is the
  store the server goes on with, and without a limit the server is unchanged; and the response is
  scanned for the secret that was sealed.
\<close>

theorem cli_token_confined:
  assumes H: "header_laws (al_headers A)"
    and laws: "box_laws (al_crypto A)" "base64_laws (al_base64 A)" "serde_laws (al_token_serde A)"
      "serde_laws (al_payload_serde A)" and rng: "length (rng_nonce (sx_rng env)) = 24"
    and sealed: "seal_cmd (al_crypto A) (al_base64 A) (al_token_serde A) (al_payload_serde A) U J env args = Ok (out, header)"
    and server: "build_server (al_crypto A) (al_base64 A) N R X Q roots read_bytes read_text g now sargs = Ok parts"
    and key: "b64_decode (al_base64 A) (srv_secret_key sargs) = Ok sk"
      "b64_decode (al_base64 A) (se_public_key args) = Ok (public_of (al_crypto A) sk)" "se_key_id args = srv_key_id sargs"
    and req: "h_get (al_headers A) (rq_headers request) TOKEN_HEADER = Some header"
    and ok: "admit A chk (ss_admission (stack_of (sp_context parts))) request ck = Returns ((w, Ok request'), self')"
  shows "seal_options_permit A args request \<and> rq_uri request' = rq_uri request \<and>
    (\<forall>d. se_expires_in args = Some d \<longrightarrow> ck_unseal ck \<le> sealed_expiry env d + srv_clock_skew_tolerance sargs) \<and>
    (if se_single_use args \<or> se_max_uses args \<noteq> None
     then use_recorded chk (ss_admission (stack_of (sp_context parts))) env args ck self'
     else self' = ss_admission (stack_of (sp_context parts))) \<and>
    (srv_response_scan_enabled sargs \<longrightarrow>
      rq_ext_patterns request' = Some (generate_scan_patterns (al_encoders A) (se_secret args)))"
proof -
  let ?self = "ss_admission (stack_of (sp_context parts))" and ?ctx = "sp_context parts"
  let ?kp = "\<lparr>kp_public_key = public_of (al_crypto A) sk, kp_secret_key = sk\<rparr>"
  let ?vk = "VersionedKeypair_new (srv_key_id sargs) ?kp 1"
  from server obtain ks where ks: "key_store_of (al_crypto A) (al_base64 A) sargs = Ok ks"
    "tc_key_store (px_crypto ?ctx) = ks" "px_response_scan_enabled ?ctx = srv_response_scan_enabled sargs"
    "tolerance_seconds (dc_clock_skew (tc_decrypt_config (px_crypto ?ctx))) = srv_clock_skew_tolerance sargs"
    by (auto simp: TokenCrypto_with_config_def clock_skew_of_def elim!: build_server_context)
  then have "ks = with_primary ?vk" using key(1)
    by (auto simp: key_store_of_def keypair_from_base64_def from_secret_bytes_def split: if_splits)
  then have found: "find_by_id (tc_key_store (ta_crypto ?self)) (srv_key_id sargs) = Some ?vk"
    using ks(2) by (simp add: stack_of_admission find_by_id_def with_primary_def VersionedKeypair_new_def)
  obtain p bytes where p: "build_seal_payload U J (sx_now env) (sx_nonce env) args = Ok p"
    "from_header (al_base64 A) (al_token_serde A) header = Ok (SealedToken_new (se_key_id args) (b64_encode (al_base64 A) bytes))"
    "unseal (al_crypto A) (al_payload_serde A) bytes ?kp = Ok p"
    using seal_cmd_token [OF laws rng _ sealed, of ?kp] key(2) by auto
  from admission_checks [OF H ok] req obtain token payload where
    t: "presents A ?self request (ck_unseal ck) token payload" "request_permitted A ?self request token payload"
      "replay_passed chk ?self self' payload ck" "forwards A ?self payload request request'" by auto
  have "tc_unseal (al_crypto A) (al_base64 A) (al_payload_serde A) (ta_crypto ?self)
      (SealedToken_new (se_key_id args) (b64_encode (al_base64 A) bytes)) (ck_unseal ck) =
      expiration_gate (tc_decrypt_config (ta_crypto ?self)) p (ck_unseal ck)"
    using found p(3) laws(2) key(3) by (simp add: tc_unseal_def decrypt_sealed_token_with_config_def SealedToken_new_def
        base64_laws_def VersionedKeypair_new_def)
  from presented_payload [OF H t(1) req p(2) this] have pp: "payload = p" .
  note fields = seal_payload_restricts [OF p(1)]
  have "seal_options_permit A args request"
    using t(2) by (simp add: pp request_permitted_def seal_options_permit_def validate_host_Ok_iff validate_method_Ok_iff
        validate_path_Ok_iff fields pattern_accepts_def)
  moreover have "rq_uri request' = rq_uri request" "srv_response_scan_enabled sargs \<longrightarrow>
      rq_ext_patterns request' = Some (generate_scan_patterns (al_encoders A) (se_secret args))"
    using t(4) ks(3) by (simp_all add: pp forwards_def fields stack_of_admission)
  moreover have "ck_unseal ck \<le> sealed_expiry env d + srv_clock_skew_tolerance sargs" if "se_expires_in args = Some d" for d
    using presented_unexpired [OF t(1), of "sealed_expiry env d"] seal_payload_limits(1) [OF p(1)] that ks(4)
    by (simp add: pp stack_of_admission sealed_expiry_def)
  ultimately show ?thesis using replay_passed_recorded [OF p(1) t(3) [unfolded pp]] by blast
qed

definition cli_args :: SealArgs where
  "cli_args = \<lparr>se_secret = ''s3cret'', se_allowed_hosts = ''api.idp, b.io'', se_header = ''authorization'', se_prefix = None,
     se_public_key = nibble_encode (replicate 32 7), se_key_id = ''primary'', se_expires_in = Some 100,
     se_single_use = False, se_max_uses = Some 3, se_nonce = None, se_nonce_ttl = None,
     se_allowed_methods = Some ''get'', se_allowed_paths = None, se_allowed_path_pattern = None,
     se_sigv4_access_key = None, se_processor_json = None, se_upstream_scheme = None\<rparr>"

definition cli_payload :: TokenPayload where
  "cli_payload = b_replay_protection
     (seal_builder cli_args (PcInject (InjectConfig_bearer ''authorization'')) [''api.idp'', ''b.io''] (Some 150))
     (build_replay_protection ''n1'' cli_args)"

definition cli_env :: seal_env where
  "cli_env = \<lparr>sx_now = Some 150, sx_nonce = ''n1'', sx_rng = \<lparr>rng_ephemeral = [], rng_nonce = replicate 24 0\<rparr>\<rparr>"

definition cli_libs :: "(string \<times> string) list admission_libs" where
  "cli_libs = sample_libs\<lparr>al_base64 := nibble_base64, al_token_serde := plain_token_serde,
     al_payload_serde := one_payload_serde cli_payload\<rparr>"

definition cli_server :: ServeArgs where
  "cli_server = default_args (nibble_encode (replicate 32 7))"

definition cli_key :: Keypair where
  "cli_key = \<lparr>kp_public_key = replicate 32 7, kp_secret_key = replicate 32 7\<rparr>"

lemma cli_libs_parts:
  "al_headers cli_libs = assoc_headers" "al_crypto cli_libs = plain_crypto" "al_base64 cli_libs = nibble_base64"
  "al_token_serde cli_libs = plain_token_serde" "al_payload_serde cli_libs = one_payload_serde cli_payload"
  by (simp_all add: cli_libs_def sample_libs_def)

lemma cli_payload_built: "build_seal_payload plain_uris J (Some 150) ''n1'' cli_args = Ok cli_payload"
proof -
  have "parse_processor_config J cli_args = Ok (PcInject (InjectConfig_bearer ''authorization''))"
    by (simp add: parse_processor_config_def cli_args_def eq_ignore_ascii_case_def)
  moreover have "parse_allowed_hosts plain_uris (se_allowed_hosts cli_args) = Ok [''api.idp'', ''b.io'']"
    by (simp add: cli_args_def parse_allowed_hosts_def trim_def is_ws_def plain_uris_def)
  ultimately show ?thesis
    unfolding build_seal_payload_Ok_iff cli_payload_def by (simp add: cli_args_def)
qed

lemma cli_public: "public_of plain_crypto (replicate 32 7) = replicate 32 7"
  by (simp add: plain_crypto_def)

lemma cli_sealed:
  "\<exists>out header. seal_cmd plain_crypto nibble_base64 plain_token_serde (one_payload_serde cli_payload) plain_uris
     (\<lambda>_. Err ''none'') cli_env cli_args = Ok (out, header) \<and> visible_ascii header"
proof -
  have "b64_decode nibble_base64 (se_public_key cli_args) = Ok (replicate 32 7)"
    by (simp add: nibble_base64_def cli_args_def nibble_roundtrip)
  moreover have "\<exists>b. seal plain_crypto (one_payload_serde cli_payload) (sx_rng cli_env) cli_payload (replicate 32 7) = Ok b"
    by (simp add: seal_def one_payload_serde_def plain_crypto_def)
  moreover have "\<exists>h. to_header nibble_base64 plain_token_serde t = Ok (''Tokenizer '' @ nibble_encode h)" for t
    by (auto simp: to_header_def plain_token_serde_def nibble_base64_def)
  ultimately show ?thesis
    using cli_payload_built nibble_visible by (fastforce simp: seal_cmd_def cli_env_def Let_def)
qed

lemma trim_nonempty: "c \<in> set s \<Longrightarrow> \<not> is_ws c \<Longrightarrow> trim s \<noteq> []"
proof -
  assume c: "c \<in> set s" "\<not> is_ws c"
  then have "c \<in> set (dropWhile is_ws s)" by (metis Un_iff set_append set_takeWhileD takeWhile_dropWhile_id)
  with c(2) show ?thesis by (auto simp: trim_def)
qed

lemma cli_server_builds:
  "\<exists>parts. build_server plain_crypto nibble_base64 pair_nets no_rustls sample_certs list_lru [] (\<lambda>_. Err ''none'')
     (\<lambda>_. Err ''none'') [] 0 cli_server = Ok parts"
proof -
  have "trim (nibble_encode (replicate 32 7)) \<noteq> []"
    by (rule trim_nonempty [of "CHR ''A''"]) (simp_all add: nibble_encode_def nibble_chars_def is_ws_def)
  then have "\<exists>ks. key_store_of plain_crypto nibble_base64 cli_server = Ok ks"
    by (simp add: key_store_of_def cli_server_def default_args_def keypair_from_base64_def nibble_base64_def
        nibble_roundtrip from_secret_bytes_def)
  moreover have "\<exists>policy. build_token_optional_policy cli_server = Ok policy"
    by (simp add: build_token_optional_policy_def cli_server_def default_args_def)
  ultimately show ?thesis
    by (elim exE) (rule default_server_builds, assumption+, simp_all add: cli_server_def default_args_def)
qed

lemma cli_server_crypto:
  assumes "build_server plain_crypto nibble_base64 pair_nets no_rustls sample_certs list_lru [] (\<lambda>_. Err ''none'')
     (\<lambda>_. Err ''none'') [] 0 cli_server = Ok parts"
  shows "ta_crypto (ss_admission (stack_of (sp_context parts))) =
    TokenCrypto_with_config (with_primary (VersionedKeypair_new ''primary'' cli_key 1)) DecryptConfig_default"
proof -
  from assms obtain ks where ks: "key_store_of plain_crypto nibble_base64 cli_server = Ok ks"
    "px_crypto (sp_context parts) = TokenCrypto_with_config ks
       \<lparr>dc_clock_skew = clock_skew_of cli_server, dc_require_expiration = srv_require_expiration cli_server\<rparr>"
    by (rule build_server_context)
  then show ?thesis
    by (auto simp: key_store_of_def keypair_from_base64_def nibble_base64_def nibble_roundtrip cli_server_def
        default_args_def from_secret_bytes_def cli_public cli_key_def stack_of_admission clock_skew_of_def
        DecryptConfig_default_def ClockSkewConfig_default_def split: if_splits)
qed

lemma cli_payload_fields:
  "tp_auth cli_payload = AuthNone" "tp_allowed_methods cli_payload = [''GET'']" "tp_allowed_paths cli_payload = []"
  "tp_allowed_path_pattern cli_payload = None"
  "tp_replay_protection cli_payload = Some \<lparr>rp_nonce = ''n1'', rp_max_uses = Some 3, rp_nonce_ttl_seconds = None\<rparr>"
  "tp_allowed_hosts cli_payload = [''api.idp'', ''b.io'']" "tp_expires_at cli_payload = Some 250"
  "tp_processor cli_payload = PcInject (InjectConfig_bearer ''authorization'')" "tp_secret cli_payload = ''s3cret''"
  by (simp_all add: cli_payload_def b_replay_protection_def seal_builder_fields AuthConfig_default_def cli_args_def
      parse_csv_def trim_def is_ws_def ascii_upper_def ascii_lower_letters_def ascii_upper_letters_def
      build_replay_protection_def)

lemma idp_request_header:
  "h_get assoc_headers (rq_headers (idp_request v)) TOKEN_HEADER = Some v"
  "target_host assoc_headers (idp_request v) = Ok ''api.idp''"
  by (simp_all add: idp_request_def assoc_headers_def TOKEN_HEADER_def to_lower_def ascii_lower_def
      ascii_upper_letters_def ascii_lower_letters_def target_host_def bearer_request_def visible_ascii_def)

lemma cli_server_store:
  assumes "build_server plain_crypto nibble_base64 pair_nets no_rustls sample_certs list_lru [] (\<lambda>_. Err ''none'')
     (\<lambda>_. Err ''none'') [] 0 cli_server = Ok parts"
  shows "px_nonce_store (sp_context parts) = Some InMemoryNonceStore_new"
    "px_clock_skew (sp_context parts) = clock_skew_of cli_server"
proof -
  from assms obtain store where "nonce_store_of cli_server = Ok store" "px_nonce_store (sp_context parts) = store"
    "px_clock_skew (sp_context parts) = clock_skew_of cli_server"
    by (rule build_server_context)
  then show "px_nonce_store (sp_context parts) = Some InMemoryNonceStore_new"
    "px_clock_skew (sp_context parts) = clock_skew_of cli_server"
    by (simp_all add: nonce_store_of_def cli_server_def default_args_def)
qed

lemma cli_replay_checked:
  assumes server: "build_server plain_crypto nibble_base64 pair_nets no_rustls sample_certs list_lru [] (\<lambda>_. Err ''none'')
     (\<lambda>_. Err ''none'') [] 0 cli_server = Ok parts"
  shows "\<exists>v self'. check_replay check_and_record (ss_admission (stack_of (sp_context parts))) cli_payload 200 0 =
    Returns ((v, Ok ()), self')"
proof -
  let ?self = "ss_admission (stack_of (sp_context parts))"
  have "ttl_from_expiry None 250 (ta_clock_skew ?self) 200 = Ok (from_secs 80)"
    by (simp add: stack_of_admission cli_server_store(2) [OF server] ttl_from_expiry_def clock_skew_of_def cli_server_def
        default_args_def checked_sub_def)
  then have "replay_query ?self cli_payload 200 = ([], Ok (Some (InMemoryNonceStore_new, ''n1'', Some 3, from_secs 80)))"
    by (simp add: replay_query_def cli_payload_fields stack_of_admission cli_server_store [OF server] silent_def bindW_def
        or_record_def)
  moreover obtain s where "check_and_record InMemoryNonceStore_new ''n1'' (Some 3) (from_secs 80) 0 =
      Returns (Ok (Allowed 1 (Some 3)), s)"
    by (simp add: check_and_record_def InMemoryNonceStore_new_def InMemoryNonceStore_with_cleanup_interval_def
        instant_add_def from_secs_def nanos_per_sec_def instant_max_def)
  ultimately show ?thesis by (simp add: check_replay_def)
qed

lemma cli_token_admitted:
  assumes server: "build_server plain_crypto nibble_base64 pair_nets no_rustls sample_certs list_lru [] (\<lambda>_. Err ''none'')
      (\<lambda>_. Err ''none'') [] 0 cli_server = Ok parts"
    and sealed: "seal_cmd plain_crypto nibble_base64 plain_token_serde (one_payload_serde cli_payload) plain_uris
      (\<lambda>_. Err ''none'') cli_env cli_args = Ok (out, header)" and visible: "visible_ascii header"
  shows "\<exists>w r self'. admit cli_libs check_and_record (ss_admission (stack_of (sp_context parts))) (idp_request header)
    \<lparr>ck_unseal = 200, ck_ttl = 200, ck_mono = 0, ck_process = 200\<rparr> = Returns ((w, Ok r), self')"
proof -
  let ?self = "ss_admission (stack_of (sp_context parts))"
  obtain p b where b: "build_seal_payload plain_uris (\<lambda>_. Err ''none'') (sx_now cli_env) (sx_nonce cli_env) cli_args = Ok p"
    "from_header nibble_base64 plain_token_serde header = Ok (SealedToken_new (se_key_id cli_args) (b64_encode nibble_base64 b))"
    "unseal plain_crypto (one_payload_serde cli_payload) b cli_key = Ok p"
    using seal_cmd_token [OF plain_crypto_laws nibble_base64_laws(1) plain_token_serde_laws one_payload_serde_laws _ _ sealed,
        of cli_key] cli_public
    by (auto simp: cli_env_def cli_key_def nibble_base64_def cli_args_def nibble_roundtrip)
  have "p = cli_payload" using b(1) cli_payload_built by (simp add: cli_env_def)
  have host: "validate_host (al_regex cli_libs) cli_payload ''api.idp'' = Ok ()"
    by (simp add: validate_host_def split_host_port_def rfind_char_def cli_payload_fields)
  have meth: "rq_method (idp_request header) = ''GET''" by (simp add: idp_request_def bearer_request_def)
  have str: "h_to_str assoc_headers header = Ok header" using visible by (simp add: assoc_headers_def)
  have "presents cli_libs ?self (idp_request header) 200 (SealedToken_new (se_key_id cli_args) (b64_encode nibble_base64 b)) cli_payload"
    unfolding presents_def cli_libs_parts
    using b(2,3) str \<open>p = cli_payload\<close>
    by (simp add: idp_request_header cli_server_crypto [OF server] tc_unseal_def decrypt_Ok_iff
        SealedToken_new_def TokenCrypto_with_config_def with_primary_def find_by_id_def VersionedKeypair_new_def
        cli_args_def nibble_base64_def nibble_roundtrip lifetime_ok_def DecryptConfig_default_def
        ClockSkewConfig_default_def check_expiration_def check_expiry_def cli_payload_fields)
  moreover have "request_permitted cli_libs ?self (idp_request header) token cli_payload" for token
    using host meth by (simp add: request_permitted_def cli_libs_parts idp_request_header cli_payload_fields auth_shown_def
        validate_method_def validate_path_def eq_ignore_ascii_case_def)
  moreover obtain v self' where "check_replay check_and_record ?self cli_payload 200 0 = Returns ((v, Ok ()), self')"
    using cli_replay_checked [OF server] by blast
  moreover have "\<exists>w r. finalize cli_libs self' (idp_request header) cli_payload 200 = (w, Ok r)" for self' :: "InMemoryNonceStore TokenAdmission"
    by (simp add: finalize_def Let_def cli_libs_def sample_libs_def validate_processor_config_def inject_process_def
        InjectConfig_bearer_def assoc_headers_def format_value_def visible_ascii_def cli_payload_fields)
  ultimately show ?thesis
    using admit_checked_complete [of cli_libs ?self "idp_request header"
        "\<lparr>ck_unseal = 200, ck_ttl = 200, ck_mono = 0, ck_process = 200\<rparr>" _ cli_payload check_and_record v self']
    by fastforce
qed

theorem cli_token_confined_witness:
  "\<exists>parts header w r self' ttl used store'. build_server plain_crypto nibble_base64 pair_nets no_rustls sample_certs
       list_lru [] (\<lambda>_. Err ''none'') (\<lambda>_. Err ''none'') [] 0 cli_server = Ok parts \<and>
     admit cli_libs check_and_record (ss_admission (stack_of (sp_context parts))) (idp_request header)
       \<lparr>ck_unseal = 200, ck_ttl = 200, ck_mono = 0, ck_process = 200\<rparr> = Returns ((w, Ok r), self') \<and>
     seal_options_permit cli_libs cli_args (idp_request header) \<and>
     check_and_record InMemoryNonceStore_new ''n1'' (Some 3) ttl 0 = Returns (used, store') \<and> allowed_of used \<and>
     ta_nonce_store self' = Some store' \<and>
     rq_ext_patterns r = Some (generate_scan_patterns plain_encoders ''s3cret'')"
proof -
  obtain parts where server: "build_server plain_crypto nibble_base64 pair_nets no_rustls sample_certs list_lru []
      (\<lambda>_. Err ''none'') (\<lambda>_. Err ''none'') [] 0 cli_server = Ok parts" using cli_server_builds by blast
  obtain out header where sealed: "seal_cmd plain_crypto nibble_base64 plain_token_serde (one_payload_serde cli_payload)
      plain_uris (\<lambda>_. Err ''none'') cli_env cli_args = Ok (out, header)" and visible: "visible_ascii header"
    using cli_sealed by blast
  let ?ck = "\<lparr>ck_unseal = 200, ck_ttl = 200, ck_mono = 0, ck_process = 200\<rparr>"
  obtain w r self' where a: "admit cli_libs check_and_record (ss_admission (stack_of (sp_context parts)))
      (idp_request header) ?ck = Returns ((w, Ok r), self')"
    using cli_token_admitted [OF server sealed visible] by blast
  have laws: "header_laws (al_headers cli_libs)" "box_laws (al_crypto cli_libs)" "base64_laws (al_base64 cli_libs)"
    "serde_laws (al_token_serde cli_libs)" "serde_laws (al_payload_serde cli_libs)"
    by (simp_all add: cli_libs_parts assoc_headers_laws plain_crypto_laws nibble_base64_laws plain_token_serde_laws
        one_payload_serde_laws)
  have keys: "b64_decode (al_base64 cli_libs) (srv_secret_key cli_server) = Ok (replicate 32 7)"
    "b64_decode (al_base64 cli_libs) (se_public_key cli_args) = Ok (public_of (al_crypto cli_libs) (replicate 32 7))"
    "se_key_id cli_args = srv_key_id cli_server"
    by (simp_all add: cli_libs_parts cli_server_def default_args_def cli_args_def nibble_base64_def nibble_roundtrip cli_public)
  have rng: "length (rng_nonce (sx_rng cli_env)) = 24" by (simp add: cli_env_def)
  have scan: "srv_response_scan_enabled cli_server" "se_secret cli_args = ''s3cret''" "al_encoders cli_libs = plain_encoders"
    by (simp_all add: cli_server_def default_args_def cli_args_def cli_libs_def sample_libs_def)
  have limit: "se_max_uses cli_args = Some 3" "\<not> se_single_use cli_args" "sealed_nonce cli_env cli_args = ''n1''"
    by (simp_all add: cli_args_def sealed_nonce_def cli_env_def)
  have req: "h_get (al_headers cli_libs) (rq_headers (idp_request header)) TOKEN_HEADER = Some header"
    by (simp add: cli_libs_parts idp_request_header)
  note both = sealed [folded cli_libs_parts] server [folded cli_libs_parts(2,3)]
  have "seal_options_permit cli_libs cli_args (idp_request header)"
    "use_recorded check_and_record (ss_admission (stack_of (sp_context parts))) cli_env cli_args ?ck self'"
    "rq_ext_patterns r = Some (generate_scan_patterns plain_encoders ''s3cret'')"
    using cli_token_confined [OF laws rng both keys req a] scan limit by simp_all
  moreover from this(2) obtain ttl used store' where
    "check_and_record InMemoryNonceStore_new ''n1'' (Some 3) ttl 0 = Returns (used, store')" "allowed_of used"
    "ta_nonce_store self' = Some store'"
    using cli_server_store [OF server] limit by (auto simp: use_recorded_def stack_of_admission)
  ultimately show ?thesis using server a by blast
qed

end
